(* ===== verification/Js_Prelude.thy ===== *)
theory Js_Prelude
  imports Complex_Main "HOL-Library.AList" "HOL-Library.Multiset" "HOL-Library.Sublist"
begin

text \<open>
  The part of the JavaScript standard library that the website sources use, and the
  interfaces that several components share.

  \<^item> Strings are Isabelle strings. On ASCII text the functions below are the
    JavaScript ones (\<open>trim\<close>, \<open>toLowerCase\<close>, \<open>startsWith\<close>,
    \<open>endsWith\<close>, \<open>includes\<close>, \<open>split\<close>, \<open>join\<close>); characters from
    128 upwards stand for the bytes of a non-ASCII letter, which none of these
    functions changes.
  \<^item> Numbers are \<open>real\<close> (no rounding error, no NaN) or \<open>int\<close> where the
    code only handles integers; \<open>js_round\<close> is \<open>Math.round\<close>,
    \<open>to_fixed\<close> is \<open>toFixed\<close>.
  \<^item> \<open>Map\<close> keeps insertion order: an association list in which setting a present
    key keeps its place.
  \<^item> \<open>Array.prototype.sort\<close> with a comparator is a stable insertion sort; the
    locale \<open>js_comparator\<close> says for which comparators the result is sorted.
\<close>

named_theorems js_string "defining equations of the string functions"
named_theorems js_map "laws of the insertion-ordered map"

section \<open>Strings\<close>

definition code_of :: "char \<Rightarrow> nat" where
  "code_of c = of_char c"

definition is_ws :: "char \<Rightarrow> bool" where
  "is_ws c \<longleftrightarrow> code_of c = 32 \<or> (9 \<le> code_of c \<and> code_of c \<le> 13)"

definition is_digit :: "char \<Rightarrow> bool" where
  "is_digit c \<longleftrightarrow> 48 \<le> code_of c \<and> code_of c \<le> 57"

definition is_upper :: "char \<Rightarrow> bool" where
  "is_upper c \<longleftrightarrow> 65 \<le> code_of c \<and> code_of c \<le> 90"

definition is_lower :: "char \<Rightarrow> bool" where
  "is_lower c \<longleftrightarrow> 97 \<le> code_of c \<and> code_of c \<le> 122"

definition is_hex :: "char \<Rightarrow> bool" where
  "is_hex c \<longleftrightarrow> is_digit c \<or> (65 \<le> code_of c \<and> code_of c \<le> 70) \<or> (97 \<le> code_of c \<and> code_of c \<le> 102)"

definition lower_char :: "char \<Rightarrow> char" where
  "lower_char c = (if is_upper c then char_of (code_of c + 32) else c)"

definition upper_char :: "char \<Rightarrow> char" where
  "upper_char c = (if is_lower c then char_of (code_of c - 32) else c)"

definition to_lower :: "string \<Rightarrow> string" where
  "to_lower s = map lower_char s"

definition to_upper :: "string \<Rightarrow> string" where
  "to_upper s = map upper_char s"

definition trim_start :: "string \<Rightarrow> string" where
  "trim_start s = dropWhile is_ws s"

definition trim_end :: "string \<Rightarrow> string" where
  "trim_end s = rev (dropWhile is_ws (rev s))"

definition trim :: "string \<Rightarrow> string" where
  "trim s = trim_end (trim_start s)"

definition starts_with :: "string \<Rightarrow> string \<Rightarrow> bool" where
  "starts_with p s \<longleftrightarrow> take (length p) s = p"

definition ends_with :: "string \<Rightarrow> string \<Rightarrow> bool" where
  "ends_with p s \<longleftrightarrow> starts_with (rev p) (rev s)"

fun str_includes :: "string \<Rightarrow> string \<Rightarrow> bool" where
  "str_includes p [] \<longleftrightarrow> p = []"
| "str_includes p (c # s) \<longleftrightarrow> starts_with p (c # s) \<or> str_includes p s"

fun split_on :: "char \<Rightarrow> string \<Rightarrow> string list" where
  "split_on d [] = [[]]"
| "split_on d (c # s) =
     (if c = d then [] # split_on d s
      else (case split_on d s of [] \<Rightarrow> [[c]] | w # ws \<Rightarrow> (c # w) # ws))"

fun join :: "string \<Rightarrow> string list \<Rightarrow> string" where
  "join sep [] = []"
| "join sep [w] = w"
| "join sep (w # ws) = w @ sep @ join sep ws"

text \<open>\<open>s.slice(0, -n)\<close> for a positive \<open>n\<close>.\<close>

definition drop_last :: "nat \<Rightarrow> string \<Rightarrow> string" where
  "drop_last n s = take (length s - n) s"

fun strip_cr_lf :: "string \<Rightarrow> string" where
  "strip_cr_lf [] = []"
| "strip_cr_lf [c] = [c]"
| "strip_cr_lf (c # d # s) =
     (if code_of c = 13 \<and> code_of d = 10 then d # strip_cr_lf s else c # strip_cr_lf (d # s))"

text \<open>A non-ASCII literal, by the bytes of its UTF-8 encoding.\<close>

definition utf8 :: "nat list \<Rightarrow> string" where
  "utf8 bs = map char_of bs"

definition newline :: string where
  "newline = [char_of (10 :: nat)]"

text \<open>\<open>s.split(/\r?\n/)\<close>: the carriage return before a line feed belongs to the separator.\<close>

definition split_lines :: "string \<Rightarrow> string list" where
  "split_lines s = split_on (char_of (10 :: nat)) (strip_cr_lf s)"

text \<open>\<open>Number(ds)\<close> for a string of decimal digits, and decimal printing.\<close>

fun digits_val :: "nat \<Rightarrow> string \<Rightarrow> nat" where
  "digits_val acc [] = acc"
| "digits_val acc (c # s) = digits_val (10 * acc + (code_of c - 48)) s"

fun show_nat :: "nat \<Rightarrow> string" where
  "show_nat n = (if n < 10 then [char_of (48 + n)] else show_nat (n div 10) @ [char_of (48 + n mod 10)])"

declare show_nat.simps [simp del]

definition show_int :: "int \<Rightarrow> string" where
  "show_int i = (if i < 0 then ''-'' @ show_nat (nat (- i)) else show_nat (nat i))"

lemma code_of_char_of [simp]: "n < 256 \<Longrightarrow> code_of (char_of n) = n"
  by (simp add: code_of_def of_char_of)

lemma char_of_code_of [simp]: "char_of (code_of c) = c"
  by (simp add: code_of_def)

lemma code_of_inject [simp]: "code_of a = code_of b \<longleftrightarrow> a = b"
  by (metis char_of_code_of)

lemma starts_with_iff: "starts_with p s \<longleftrightarrow> (\<exists>r. s = p @ r)"
  by (metis append_eq_conv_conj append_take_drop_id starts_with_def)

lemma starts_with_Nil [simp]: "starts_with [] s"
  by (simp add: starts_with_def)

lemma starts_with_append [simp]: "starts_with p (p @ s)"
  by (simp add: starts_with_def)

lemma starts_with_refl [simp]: "starts_with s s"
  by (simp add: starts_with_def)

lemma starts_with_Cons [simp]: "starts_with (a # p) (b # s) \<longleftrightarrow> a = b \<and> starts_with p s"
  by (auto simp: starts_with_def)

lemma starts_with_Cons_Nil [simp]: "\<not> starts_with (a # p) []"
  by (simp add: starts_with_def)

lemma ends_with_iff: "ends_with p s \<longleftrightarrow> (\<exists>r. s = r @ p)"
proof
  assume "ends_with p s"
  then obtain r where "rev s = rev p @ r"
    by (auto simp: ends_with_def starts_with_iff)
  then have "s = rev r @ p" by (metis rev_append rev_rev_ident)
  then show "\<exists>r. s = r @ p" by blast
next
  assume "\<exists>r. s = r @ p"
  then show "ends_with p s" by (auto simp: ends_with_def)
qed

lemma ends_with_append [simp]: "ends_with p (s @ p)"
  by (auto simp: ends_with_iff)

lemma str_includes_iff: "str_includes p s \<longleftrightarrow> (\<exists>a b. s = a @ p @ b)"
proof (induction s)
  case Nil
  show ?case by auto
next
  case (Cons c s)
  have "(\<exists>a b. c # s = a @ p @ b) \<longleftrightarrow> starts_with p (c # s) \<or> (\<exists>a b. s = a @ p @ b)"
    by (auto simp: starts_with_iff Cons_eq_append_conv)
  with Cons show ?case by simp
qed

lemma split_on_not_Nil [simp]: "split_on d s \<noteq> []"
  by (cases s) (auto split: list.splits)

lemma join_split_on: "join [d] (split_on d s) = s"
proof (induction s)
  case Nil
  show ?case by simp
next
  case (Cons c s)
  obtain w ws where s: "split_on d s = w # ws"
    by (meson list.exhaust split_on_not_Nil)
  show ?case
    using Cons s by (cases ws) auto
qed

lemma split_on_no_sep: "w \<in> set (split_on d s) \<Longrightarrow> d \<notin> set w"
proof (induction s arbitrary: w)
  case Nil
  then show ?case by simp
next
  case (Cons c s)
  obtain v vs where s: "split_on d s = v # vs"
    by (meson list.exhaust split_on_not_Nil)
  show ?case
    using Cons.prems s Cons.IH[of v] Cons.IH[of w] by (auto split: if_splits)
qed

lemma hd_split_on: "hd (split_on d s) = takeWhile (\<lambda>c. c \<noteq> d) s"
proof (induction s)
  case (Cons c s)
  then show ?case by (cases "split_on d s") auto
qed simp

lemma split_on_append: "split_on d (s @ [d]) = split_on d s @ [[]]"
proof (induction s)
  case (Cons c s)
  then show ?case by (cases "split_on d s") auto
qed simp

lemma split_on_chunk: "d \<notin> set w \<Longrightarrow> split_on d (w @ d # s) = w # split_on d s"
  by (induction w) auto

lemma split_on_id: "d \<notin> set w \<Longrightarrow> split_on d w = [w]"
  by (induction w) auto

lemma split_on_join:
  "ws \<noteq> [] \<Longrightarrow> (\<forall>w \<in> set ws. d \<notin> set w) \<Longrightarrow> split_on d (join [d] ws) = ws"
  by (induction "[d]" ws rule: join.induct) (auto simp: split_on_chunk split_on_id)

lemma length_trim_start: "length (trim_start s) \<le> length s"
  by (simp add: trim_start_def length_dropWhile_le)

lemma trim_start_idem [simp]: "trim_start (trim_start s) = trim_start s"
  by (simp add: trim_start_def)

lemma trim_end_idem [simp]: "trim_end (trim_end s) = trim_end s"
  by (simp add: trim_end_def)

lemma upper_lower_char [simp]: "lower_char (lower_char c) = lower_char c"
  by (auto simp: lower_char_def is_upper_def)

lemma to_lower_idem [simp]: "to_lower (to_lower s) = to_lower s"
  by (simp add: to_lower_def)

lemma show_nat_nonempty [simp]: "show_nat n \<noteq> []"
  by (subst show_nat.simps) simp

lemma show_nat_digits: "c \<in> set (show_nat n) \<Longrightarrow> is_digit c"
proof (induction n rule: show_nat.induct)
  case (1 n)
  have small: "is_digit (char_of (48 + m))" if "m < 10" for m :: nat
    using that by (simp add: is_digit_def)
  show ?case
  proof (cases "n < 10")
    case True
    with 1 small show ?thesis by (auto simp: show_nat.simps [of n])
  next
    case False
    with 1 small [of "n mod 10"] show ?thesis by (auto simp: show_nat.simps [of n])
  qed
qed

lemma show_nat_small: "n < 10 \<Longrightarrow> show_nat n = [char_of (48 + n)]"
  by (simp add: show_nat.simps)

lemma digit_char_0: "char_of (48 :: nat) = CHR ''0''"
  by code_simp

lemma digit_char_1: "char_of (49 :: nat) = CHR ''1''"
  by code_simp

lemma digit_char_2: "char_of (50 :: nat) = CHR ''2''"
  by code_simp

lemmas show_nat_chars = show_nat_small digit_char_0 digit_char_1 digit_char_2

lemma digits_val_append: "digits_val acc (s @ t) = digits_val (digits_val acc s) t"
  by (induction s arbitrary: acc) auto

lemma digits_val_show_nat: "digits_val 0 (show_nat n) = n"
proof (induction n rule: show_nat.induct)
  case (1 n)
  show ?case
  proof (cases "n < 10")
    case True
    then show ?thesis by (simp add: show_nat.simps [of n])
  next
    case False
    with 1 show ?thesis by (simp add: show_nat.simps [of n] digits_val_append)
  qed
qed

lemma show_nat_inject [simp]: "show_nat m = show_nat n \<longleftrightarrow> m = n"
  by (metis digits_val_show_nat)

lemma show_nat_no_dash: "CHR ''-'' \<notin> set (show_nat n)"
proof
  assume "CHR ''-'' \<in> set (show_nat n)"
  then have "is_digit (CHR ''-'')" by (rule show_nat_digits)
  then show False by (simp add: is_digit_def code_of_def)
qed

section \<open>Numbers\<close>

definition js_round :: "real \<Rightarrow> int" where
  "js_round x = \<lfloor>x + 1 / 2\<rfloor>"

lemma js_round_of_int [simp]: "js_round (of_int k) = k"
  unfolding js_round_def by linarith

lemma js_round_mono: "x \<le> y \<Longrightarrow> js_round x \<le> js_round y"
  unfolding js_round_def by (rule floor_mono) simp

lemma js_round_bounds: "x - 1 / 2 < of_int (js_round x)" "of_int (js_round x) \<le> x + 1 / 2"
  unfolding js_round_def by linarith+

text \<open>\<open>x.toFixed(d)\<close> for \<open>d = 0\<close>, \<open>1\<close> or \<open>2\<close>.\<close>

definition pad_frac :: "nat \<Rightarrow> nat \<Rightarrow> string" where
  "pad_frac d n = (let s = show_nat n in replicate (d - length s) (CHR ''0'') @ s)"

definition to_fixed_pos :: "nat \<Rightarrow> real \<Rightarrow> string" where
  "to_fixed_pos d x =
     (let n = nat (js_round (x * 10 ^ d))
      in if d = 0 then show_nat n
         else show_nat (n div 10 ^ d) @ ''.'' @ pad_frac d (n mod 10 ^ d))"

definition to_fixed :: "nat \<Rightarrow> real \<Rightarrow> string" where
  "to_fixed d x = (if x < 0 then ''-'' @ to_fixed_pos d (- x) else to_fixed_pos d x)"

section \<open>Map: insertion order, last value wins\<close>

type_synonym ('k, 'v) js_map = "('k \<times> 'v) list"

definition map_get :: "('k, 'v) js_map \<Rightarrow> 'k \<Rightarrow> 'v option" where
  "map_get m k = map_of m k"

definition map_set :: "'k \<Rightarrow> 'v \<Rightarrow> ('k, 'v) js_map \<Rightarrow> ('k, 'v) js_map" where
  "map_set k v m = AList.update k v m"

definition map_has :: "('k, 'v) js_map \<Rightarrow> 'k \<Rightarrow> bool" where
  "map_has m k \<longleftrightarrow> map_get m k \<noteq> None"

definition map_ok :: "('k, 'v) js_map \<Rightarrow> bool" where
  "map_ok m \<longleftrightarrow> distinct (map fst m)"

text \<open>The interface of a keyed store that the clients below rely on.\<close>

locale keyed_store =
  fixes empty :: 'm
    and set_key :: "'k \<Rightarrow> 'v \<Rightarrow> 'm \<Rightarrow> 'm"
    and get_key :: "'m \<Rightarrow> 'k \<Rightarrow> 'v option"
  assumes get_empty: "get_key empty k = None"
    and get_set: "get_key (set_key k v m) k' = (if k' = k then Some v else get_key m k')"
begin

text \<open>Filling a store from a list: the last entry for a key is the one read back.\<close>

lemma get_fold_absent:
  "k \<notin> key ` set xs \<Longrightarrow> get_key (fold (\<lambda>x m. set_key (key x) (val x) m) xs m) k = get_key m k"
  by (induction xs arbitrary: m) (auto simp: get_set)

lemma get_fold_last:
  "get_key (fold (\<lambda>x m. set_key (key x) (val x) m) xs m) k =
     (case find (\<lambda>x. key x = k) (rev xs) of None \<Rightarrow> get_key m k | Some x \<Rightarrow> Some (val x))"
proof (induction xs arbitrary: m rule: rev_induct)
  case Nil
  show ?case by simp
next
  case (snoc x xs)
  then show ?case by (auto simp: get_set)
qed

lemma get_fold_last_empty:
  "get_key (fold (\<lambda>x m. set_key (key x) (val x) m) xs empty) k =
     map_option val (find (\<lambda>x. key x = k) (rev xs))"
  by (simp add: get_fold_last get_empty split: option.split)

end

interpretation js_map: keyed_store "[]" map_set map_get
  by unfold_locales (auto simp: map_get_def map_set_def update_conv')

lemma map_set_ok [js_map]: "map_ok m \<Longrightarrow> map_ok (map_set k v m)"
  by (simp add: map_ok_def map_set_def distinct_update)

lemma map_ok_Nil [simp]: "map_ok []"
  by (simp add: map_ok_def)

lemma map_set_new [js_map]: "\<not> map_has m k \<Longrightarrow> map_set k v m = m @ [(k, v)]"
  unfolding map_has_def map_get_def map_set_def
  by (induction m) auto

section \<open>Sorting with a comparator\<close>

fun js_insert :: "('a \<Rightarrow> 'a \<Rightarrow> 'n::{zero,linorder}) \<Rightarrow> 'a \<Rightarrow> 'a list \<Rightarrow> 'a list" where
  "js_insert cmp x [] = [x]"
| "js_insert cmp x (y # ys) = (if cmp x y \<le> 0 then x # y # ys else y # js_insert cmp x ys)"

definition js_sort :: "('a \<Rightarrow> 'a \<Rightarrow> 'n::{zero,linorder}) \<Rightarrow> 'a list \<Rightarrow> 'a list" where
  "js_sort cmp xs = foldr (js_insert cmp) xs []"

lemma mset_js_insert: "mset (js_insert cmp x xs) = add_mset x (mset xs)"
  by (induction xs) auto

lemma mset_js_sort [simp]: "mset (js_sort cmp xs) = mset xs"
  by (induction xs) (auto simp: js_sort_def mset_js_insert)

lemma set_js_sort [simp]: "set (js_sort cmp xs) = set xs"
  by (metis mset_js_sort set_mset_mset)

lemma length_js_sort [simp]: "length (js_sort cmp xs) = length xs"
  by (metis mset_js_sort size_mset)

lemma js_sort_Nil [simp]: "js_sort cmp [] = []"
  by (simp add: js_sort_def)

lemma js_sort_Cons: "js_sort cmp (x # xs) = js_insert cmp x (js_sort cmp xs)"
  by (simp add: js_sort_def)

lemma distinct_js_sort [simp]: "distinct (js_sort cmp xs) = distinct xs"
  by (metis mset_js_sort mset_eq_imp_distinct_iff)

lemma js_insert_front: "(\<And>y. y \<in> set ys \<Longrightarrow> cmp x y \<le> 0) \<Longrightarrow> js_insert cmp x ys = x # ys"
  by (cases ys) auto

lemma js_sort_sorted_id: "sorted_wrt (\<lambda>a b. cmp a b \<le> 0) xs \<Longrightarrow> js_sort cmp xs = xs"
proof (induction xs)
  case Nil
  show ?case by simp
next
  case (Cons x xs)
  then show ?case by (simp add: js_sort_Cons js_insert_front)
qed

text \<open>
  A comparator is usable on the elements satisfying \<open>ok\<close> when it is total and
  transitive there. Then the result is sorted; elements that compare equal keep their
  order.
\<close>

locale js_comparator =
  fixes cmp :: "'a \<Rightarrow> 'a \<Rightarrow> 'n::{zero,linorder}"
    and ok :: "'a \<Rightarrow> bool"
  assumes cmp_total: "ok a \<Longrightarrow> ok b \<Longrightarrow> cmp a b \<le> 0 \<or> cmp b a \<le> 0"
    and cmp_trans: "ok a \<Longrightarrow> ok b \<Longrightarrow> ok c \<Longrightarrow> cmp a b \<le> 0 \<Longrightarrow> cmp b c \<le> 0 \<Longrightarrow> cmp a c \<le> 0"
begin

lemma set_js_insert: "set (js_insert cmp x xs) = insert x (set xs)"
  by (metis mset_js_insert set_mset_add_mset_insert set_mset_mset)

lemma sorted_js_insert:
  "ok x \<Longrightarrow> (\<forall>y \<in> set ys. ok y) \<Longrightarrow> sorted_wrt (\<lambda>a b. cmp a b \<le> 0) ys \<Longrightarrow>
     sorted_wrt (\<lambda>a b. cmp a b \<le> 0) (js_insert cmp x ys)"
proof (induction ys)
  case Nil
  then show ?case by simp
next
  case (Cons y ys)
  show ?case
  proof (cases "cmp x y \<le> 0")
    case True
    with Cons.prems show ?thesis by (auto intro: cmp_trans)
  next
    case False
    with Cons.prems have "cmp y x \<le> 0" using cmp_total by auto
    with False Cons show ?thesis by (auto simp: set_js_insert)
  qed
qed

lemma sorted_js_sort:
  "(\<forall>x \<in> set xs. ok x) \<Longrightarrow> sorted_wrt (\<lambda>a b. cmp a b \<le> 0) (js_sort cmp xs)"
  by (induction xs) (auto simp: js_sort_Cons intro!: sorted_js_insert)

lemma js_sort_idem: "(\<forall>x \<in> set xs. ok x) \<Longrightarrow> js_sort cmp (js_sort cmp xs) = js_sort cmp xs"
  by (rule js_sort_sorted_id, rule sorted_js_sort)

lemma js_insert_filter:
  "(\<forall>y \<in> set ys. P y \<longrightarrow> cmp x y \<le> 0) \<Longrightarrow> P x \<Longrightarrow>
     filter P (js_insert cmp x ys) = x # filter P ys"
  by (induction ys) auto

lemma js_insert_filter_out: "\<not> P x \<Longrightarrow> filter P (js_insert cmp x ys) = filter P ys"
  by (induction ys) auto

lemma js_sort_stable:
  "(\<forall>x \<in> set xs. \<forall>y \<in> set xs. P x \<longrightarrow> P y \<longrightarrow> cmp x y \<le> 0) \<Longrightarrow>
     filter P (js_sort cmp xs) = filter P xs"
proof (induction xs)
  case Nil
  show ?case by simp
next
  case (Cons x xs)
  then show ?case
    by (cases "P x") (auto simp: js_sort_Cons js_insert_filter js_insert_filter_out)
qed

end

text \<open>The comparator \<open>(a, b) => b.f - a.f\<close>: descending by a numeric field.\<close>

definition desc_by :: "('a \<Rightarrow> 'n::linordered_idom) \<Rightarrow> 'a \<Rightarrow> 'a \<Rightarrow> 'n" where
  "desc_by f a b = f b - f a"

interpretation desc: js_comparator "desc_by f" "\<lambda>_. True"
  for f :: "'a \<Rightarrow> 'n::linordered_idom"
  by unfold_locales (auto simp: desc_by_def)

lemma sorted_desc: "sorted_wrt (\<lambda>a b. f b \<le> f a) (js_sort (desc_by f) xs)"
  using desc.sorted_js_sort [of xs f] by (simp add: desc_by_def)

lemma find_filter_Cons: "filter P xs = x # ys \<Longrightarrow> find P xs = Some x"
  by (induction xs) (auto split: if_splits)

lemma find_SomeD: "find P xs = Some x \<Longrightarrow> x \<in> set xs \<and> P x"
  by (auto simp: find_Some_iff)

lemma find_append: "find P (xs @ ys) = (case find P xs of None \<Rightarrow> find P ys | Some x \<Rightarrow> Some x)"
  by (induction xs) auto

end
