(* ===== verification/Dashboard_Types.thy ===== *)
theory Dashboard_Types
  imports Js_Prelude
begin

text \<open>
  The data of the public dashboard (\<open>lib/dashboard/types.ts\<close>): every union of string
  literals is a datatype, every object type a record with the source's fields (prefixed
  by the type, since record fields share one name space). A JavaScript number is a
  \<open>real\<close>; an optional field is an \<open>option\<close>; a
  \<open>Partial<Record<K, V>>\<close> is the list of the entries that are present.
\<close>

datatype dashboard_view = ViewGlobal | ViewIran | ViewProtocols | ViewReleases

datatype region_status = Healthy | Degraded | Unstable | Blocked | Unknown

datatype protocol_id = Reality | Hysteria2 | Tuic | Shadowtls | DnsTunnel

datatype recommendation_tier = Primary | Secondary | Fallback | Avoid

datatype signature_status = SigOk | SigWarn | SigFail

datatype activity_severity = SevInfo | SevWarn | SevCrit

datatype activity_type =
    ActSnapshot | ActDpiShift | ActProtocolCooldown | ActBundleGenerated
  | ActBundleImported | ActBundleRejected | ActHelperStatus

datatype helper_availability = Up | HelperDegraded | Down

record region_aggregate =
  r_countryName :: string
  r_status :: region_status
  r_protocolMix :: "(protocol_id \<times> real) list"
  r_configSuccessRate :: real
  r_recentChangeRate :: real
  r_lastUpdateUnix :: real
  r_sampleCount :: real

record inside_signals =
  in_activeInstallations :: real
  in_protocolSurvivalRate :: real
  in_blackoutProbability :: real
  in_meshActivityScore :: real
  in_seedAdoptionRate :: real
  in_lastUpdateUnix :: real

record helper_node =
  hn_id :: string
  hn_label :: string
  hn_regionLabel :: string
  hn_coords :: "real \<times> real"
  hn_availability :: helper_availability
  hn_lastUpdateUnix :: real

record outside_helper_activity =
  out_activeHelperRegions :: "string list"
  out_bundlesGenerated24h :: real
  out_successfulDistributions24h :: real
  out_profileFreshnessHours :: real
  out_helperAvailabilityScore :: real
  out_lastUpdateUnix :: real

record protocol_health =
  ph_protocol :: protocol_id
  ph_successRate :: real
  ph_failureTrend :: real
  ph_cooldownRate :: real
  ph_recommendationTier :: recommendation_tier
  ph_lastUpdateUnix :: real

record platform_artifacts =
  pa_android :: bool
  pa_linux :: bool
  pa_windows :: bool
  pa_macos :: bool

record release_health =
  rh_latestVersion :: string
  rh_installerDownloads24h :: "real option"
  rh_manifestFreshnessSec :: real
  rh_signatureStatus :: signature_status
  rh_platformArtifacts :: platform_artifacts
  rh_lastUpdateUnix :: real

record activity_item =
  a_id :: string
  a_tsUnix :: real
  a_severity :: activity_severity
  a_type :: activity_type
  a_message :: string
  a_regionLabel :: "string option"

record connection_flow =
  f_id :: string
  f_from :: "real \<times> real"
  f_to :: "real \<times> real"
  f_intensity :: real
  f_label :: "string option"
  f_tsUnix :: real

record dashboard_snapshot =
  s_version :: int
  s_view :: dashboard_view
  s_generatedAtUnix :: real
  s_privacyThreshold :: real
  s_regions :: "region_aggregate list"
  s_inside :: inside_signals
  s_outside :: outside_helper_activity
  s_protocols :: "protocol_health list"
  s_release :: release_health
  s_helperNodes :: "helper_node list"
  s_flows :: "connection_flow list"
  s_activity :: "activity_item list"

fun view_name :: "dashboard_view \<Rightarrow> string" where
  "view_name ViewGlobal = ''global''"
| "view_name ViewIran = ''iran''"
| "view_name ViewProtocols = ''protocols''"
| "view_name ViewReleases = ''releases''"

lemma view_name_inject [simp]: "view_name v = view_name w \<longleftrightarrow> v = w"
  by (cases v; cases w) auto

lemma view_name_nonempty [simp]: "view_name v \<noteq> []"
  by (cases v) auto

text \<open>
  A small snapshot on which the properties of the later theories are exercised: one
  region with many samples, one with few, a helper node and a flow.
\<close>

definition sample_region :: "string \<Rightarrow> real \<Rightarrow> region_aggregate" where
  "sample_region name n =
     \<lparr>r_countryName = name, r_status = Blocked, r_protocolMix = [(Reality, 1 / 2)],
      r_configSuccessRate = 1 / 4, r_recentChangeRate = 3 / 4, r_lastUpdateUnix = 1234,
      r_sampleCount = n\<rparr>"

definition sample_helper :: "string \<Rightarrow> helper_node" where
  "sample_helper i =
     \<lparr>hn_id = i, hn_label = i, hn_regionLabel = ''Central Europe'', hn_coords = (52 / 5, 51),
      hn_availability = Up, hn_lastUpdateUnix = 980\<rparr>"

definition sample_protocol :: "protocol_id \<Rightarrow> real \<Rightarrow> protocol_health" where
  "sample_protocol p s =
     \<lparr>ph_protocol = p, ph_successRate = s, ph_failureTrend = 0, ph_cooldownRate = 1 / 10,
      ph_recommendationTier = Primary, ph_lastUpdateUnix = 990\<rparr>"

definition sample_activity :: "string \<Rightarrow> real \<Rightarrow> activity_item" where
  "sample_activity i t =
     \<lparr>a_id = i, a_tsUnix = t, a_severity = SevInfo, a_type = ActSnapshot,
      a_message = ''m'', a_regionLabel = None\<rparr>"

definition sample_snapshot :: dashboard_snapshot where
  "sample_snapshot =
     \<lparr>s_version = 1, s_view = ViewGlobal, s_generatedAtUnix = 1000, s_privacyThreshold = 20,
      s_regions = [sample_region ''Iran'' 2200, sample_region ''Chad'' 7],
      s_inside = \<lparr>in_activeInstallations = 110, in_protocolSurvivalRate = 3 / 4,
        in_blackoutProbability = 1 / 2, in_meshActivityScore = 1 / 2, in_seedAdoptionRate = 1 / 2,
        in_lastUpdateUnix = 990\<rparr>,
      s_outside = \<lparr>out_activeHelperRegions = [''Central Europe''], out_bundlesGenerated24h = 146,
        out_successfulDistributions24h = 88, out_profileFreshnessHours = 6,
        out_helperAvailabilityScore = 1 / 2, out_lastUpdateUnix = 988\<rparr>,
      s_protocols = [sample_protocol Reality (4 / 5), sample_protocol Tuic (1 / 2)],
      s_release = \<lparr>rh_latestVersion = ''v0.1.0'', rh_installerDownloads24h = None,
        rh_manifestFreshnessSec = 7200, rh_signatureStatus = SigOk,
        rh_platformArtifacts = \<lparr>pa_android = True, pa_linux = True, pa_windows = True, pa_macos = True\<rparr>,
        rh_lastUpdateUnix = 910\<rparr>,
      s_helperNodes = [sample_helper ''de-1''],
      s_flows = [\<lparr>f_id = ''f'', f_from = (0, 0), f_to = (1 / 3, 2), f_intensity = 7 / 2,
        f_label = None, f_tsUnix = 970\<rparr>],
      s_activity = [sample_activity ''a1'' 982]\<rparr>"

end
