(* ===== verification/Privacy_Filter.thy ===== *)
theory Privacy_Filter
  imports Dashboard_Types
begin

text \<open>
  \<open>lib/dashboard/privacy-filter.ts\<close>: what the dashboard does to a snapshot before it
  is shown. Public mode coarsens times, counts and coordinates, renames the helper nodes
  and blanks every region with fewer samples than the threshold; trusted mode coarsens
  times only. The lemmas show that the filter is a projection (idempotent), that each
  shown region meets the threshold, and that nothing of a low-volume region but its name
  and coarse time reaches the output (noninterference).
\<close>

section \<open>Quantisers\<close>

definition bucketUnix :: "real \<Rightarrow> real \<Rightarrow> real" where
  "bucketUnix unix bucketSec =
     (if bucketSec \<le> 1 then unix else of_int \<lfloor>unix / bucketSec\<rfloor> * bucketSec)"

definition roundTo :: "real \<Rightarrow> real \<Rightarrow> real" where
  "roundTo n step = (if step \<le> 1 then n else of_int (js_round (n / step)) * step)"

definition quantizeCoord :: "real \<Rightarrow> real \<Rightarrow> real" where
  "quantizeCoord v step = (if step \<le> 0 then v else of_int (js_round (v / step)) * step)"

definition quantizePair :: "real \<times> real \<Rightarrow> real \<Rightarrow> real \<times> real" where
  "quantizePair p step = (quantizeCoord (fst p) step, quantizeCoord (snd p) step)"

text \<open>What the filter needs of a quantiser: applying it again changes nothing, and it keeps the order.\<close>

locale quantiser =
  fixes q :: "real \<Rightarrow> real"
  assumes q_idem: "q (q x) = q x"
    and q_mono: "x \<le> y \<Longrightarrow> q x \<le> q y"
begin

text \<open>
  Lifting a quantised value to a lower bound \<open>t\<close>, as the sample count is, is again
  idempotent when the value was at least \<open>t\<close>: rounding \<open>t\<close> itself cannot pass
  the rounded value that was below \<open>t\<close>.
\<close>

lemma max_q_idem: "t \<le> x \<Longrightarrow> max t (q (max t (q x))) = max t (q x)"
proof (cases "t \<le> q x")
  case True
  then show ?thesis by (simp add: max_def q_idem)
next
  case False
  assume "t \<le> x"
  then have "q t \<le> q x" by (rule q_mono)
  with False show ?thesis by (simp add: max_def)
qed

lemma q_between: "q x \<le> y \<Longrightarrow> y \<le> x \<Longrightarrow> q y = q x"
  using q_mono [of y x] q_mono [of "q x" y] by (simp add: q_idem)

end

lemma bucketUnix_mono: "x \<le> y \<Longrightarrow> bucketUnix x b \<le> bucketUnix y b"
  unfolding bucketUnix_def by (auto intro!: mult_right_mono floor_mono divide_right_mono)

lemma bucketUnix_idem: "bucketUnix (bucketUnix x b) b = bucketUnix x b"
  by (simp add: bucketUnix_def)

interpretation bucket: quantiser "\<lambda>x. bucketUnix x b" for b
  by unfold_locales (simp_all add: bucketUnix_idem bucketUnix_mono)

interpretation round_to: quantiser "\<lambda>x. roundTo x step" for step
  by unfold_locales (auto simp: roundTo_def intro!: mult_right_mono js_round_mono divide_right_mono)

interpretation coord: quantiser "\<lambda>x. quantizeCoord x step" for step
  by unfold_locales (auto simp: quantizeCoord_def intro!: mult_right_mono js_round_mono divide_right_mono)

lemma bucketUnix_le: "bucketUnix x b \<le> x"
proof (cases "b \<le> 1")
  case True
  then show ?thesis by (simp add: bucketUnix_def)
next
  case False
  then have "of_int \<lfloor>x / b\<rfloor> * b \<le> x / b * b" by (intro mult_right_mono) auto
  with False show ?thesis by (simp add: bucketUnix_def)
qed

lemma bucketUnix_gt: "1 < b \<Longrightarrow> x - b < bucketUnix x b"
proof -
  assume b: "1 < b"
  have "x / b < of_int \<lfloor>x / b\<rfloor> + 1" by linarith
  with b have "x / b * b < (of_int \<lfloor>x / b\<rfloor> + 1) * b" by (intro mult_strict_right_mono) auto
  with b show ?thesis by (simp add: bucketUnix_def algebra_simps)
qed

lemma quantizePair_idem [simp]: "quantizePair (quantizePair p s) s = quantizePair p s"
  by (simp add: quantizePair_def coord.q_idem)

section \<open>The filter\<close>

datatype privacy_mode = Public | Trusted

record filter_opts =
  o_mode :: privacy_mode
  o_threshold :: "real option"
  o_timeBucketSec :: "real option"

definition stripLowVolumeRegion :: "region_aggregate \<Rightarrow> real \<Rightarrow> region_aggregate" where
  "stripLowVolumeRegion r bucketSec =
     r\<lparr>r_status := Unknown, r_protocolMix := [], r_configSuccessRate := 0, r_recentChangeRate := 0,
       r_lastUpdateUnix := bucketUnix (r_lastUpdateUnix r) bucketSec, r_sampleCount := 0\<rparr>"

definition effective_threshold :: "dashboard_snapshot \<Rightarrow> filter_opts \<Rightarrow> real" where
  "effective_threshold snap opts =
     (case o_threshold opts of Some t \<Rightarrow> t | None \<Rightarrow> s_privacyThreshold snap)"

definition effective_bucket :: "filter_opts \<Rightarrow> real" where
  "effective_bucket opts =
     (if o_mode opts = Public then (case o_timeBucketSec opts of Some b \<Rightarrow> b | None \<Rightarrow> 300)
      else (case o_timeBucketSec opts of Some b \<Rightarrow> b | None \<Rightarrow> 60))"

definition filter_region :: "privacy_mode \<Rightarrow> real \<Rightarrow> real \<Rightarrow> region_aggregate \<Rightarrow> region_aggregate" where
  "filter_region mode threshold bucketSec r =
     (if mode = Trusted then r\<lparr>r_lastUpdateUnix := bucketUnix (r_lastUpdateUnix r) bucketSec\<rparr>
      else if r_sampleCount r < threshold then stripLowVolumeRegion r bucketSec
      else r\<lparr>r_lastUpdateUnix := bucketUnix (r_lastUpdateUnix r) bucketSec,
             r_sampleCount := max threshold (roundTo (r_sampleCount r) 25)\<rparr>)"

definition filter_inside :: "privacy_mode \<Rightarrow> real \<Rightarrow> inside_signals \<Rightarrow> inside_signals" where
  "filter_inside mode bucketSec i =
     i\<lparr>in_lastUpdateUnix := bucketUnix (in_lastUpdateUnix i) bucketSec,
       in_activeInstallations :=
         (if mode = Public then roundTo (in_activeInstallations i) 50 else in_activeInstallations i)\<rparr>"

definition filter_outside :: "privacy_mode \<Rightarrow> real \<Rightarrow> outside_helper_activity \<Rightarrow> outside_helper_activity" where
  "filter_outside mode bucketSec h =
     h\<lparr>out_lastUpdateUnix := bucketUnix (out_lastUpdateUnix h) bucketSec,
       out_bundlesGenerated24h :=
         (if mode = Public then roundTo (out_bundlesGenerated24h h) 5 else out_bundlesGenerated24h h),
       out_successfulDistributions24h :=
         (if mode = Public then roundTo (out_successfulDistributions24h h) 5
          else out_successfulDistributions24h h)\<rparr>"

definition filter_protocol :: "real \<Rightarrow> protocol_health \<Rightarrow> protocol_health" where
  "filter_protocol bucketSec p = p\<lparr>ph_lastUpdateUnix := bucketUnix (ph_lastUpdateUnix p) bucketSec\<rparr>"

definition filter_activity :: "real \<Rightarrow> activity_item list \<Rightarrow> activity_item list" where
  "filter_activity bucketSec acts =
     take 50 (map (\<lambda>a. a\<lparr>a_tsUnix := bucketUnix (a_tsUnix a) bucketSec\<rparr>) acts)"

definition filter_flow :: "privacy_mode \<Rightarrow> real \<Rightarrow> connection_flow \<Rightarrow> connection_flow" where
  "filter_flow mode bucketSec f =
     (if mode = Public
      then f\<lparr>f_from := quantizePair (f_from f) (1 / 2), f_to := quantizePair (f_to f) (1 / 2),
             f_tsUnix := bucketUnix (f_tsUnix f) bucketSec,
             f_intensity := min 1 (max 0 (f_intensity f))\<rparr>
      else f\<lparr>f_tsUnix := bucketUnix (f_tsUnix f) bucketSec\<rparr>)"

definition filter_helper :: "privacy_mode \<Rightarrow> real \<Rightarrow> nat \<Rightarrow> helper_node \<Rightarrow> helper_node" where
  "filter_helper mode bucketSec i n =
     (if mode = Public
      then n\<lparr>hn_id := ''zone-'' @ show_nat i, hn_label := ''zone'',
             hn_coords := quantizePair (hn_coords n) (1 / 2),
             hn_lastUpdateUnix := bucketUnix (hn_lastUpdateUnix n) bucketSec\<rparr>
      else n\<lparr>hn_lastUpdateUnix := bucketUnix (hn_lastUpdateUnix n) bucketSec\<rparr>)"

text \<open>\<open>xs.map((x, i) => f x i)\<close>.\<close>

definition map_indexed :: "(nat \<Rightarrow> 'a \<Rightarrow> 'b) \<Rightarrow> 'a list \<Rightarrow> 'b list" where
  "map_indexed f xs = map (\<lambda>(i, x). f i x) (enumerate 0 xs)"

definition applyPrivacyFilter :: "dashboard_snapshot \<Rightarrow> filter_opts \<Rightarrow> dashboard_snapshot" where
  "applyPrivacyFilter snap opts =
     (let mode = o_mode opts; threshold = effective_threshold snap opts; b = effective_bucket opts
      in snap\<lparr>s_generatedAtUnix := bucketUnix (s_generatedAtUnix snap) b,
              s_privacyThreshold := threshold,
              s_regions := map (filter_region mode threshold b) (s_regions snap),
              s_inside := filter_inside mode b (s_inside snap),
              s_outside := filter_outside mode b (s_outside snap),
              s_protocols := map (filter_protocol b) (s_protocols snap),
              s_release := (s_release snap)\<lparr>rh_lastUpdateUnix := bucketUnix (rh_lastUpdateUnix (s_release snap)) b\<rparr>,
              s_activity := filter_activity b (s_activity snap),
              s_flows := map (filter_flow mode b) (s_flows snap),
              s_helperNodes := map_indexed (filter_helper mode b) (s_helperNodes snap)\<rparr>)"

section \<open>Each part of the filter is a projection\<close>

named_theorems filter_idem

lemma map_indexed_nth: "i < length xs \<Longrightarrow> map_indexed f xs ! i = f i (xs ! i)"
  by (simp add: map_indexed_def nth_enumerate_eq)

lemma length_map_indexed [simp]: "length (map_indexed f xs) = length xs"
  by (simp add: map_indexed_def)

lemma map_indexed_idem: "(\<And>i x. f i (f i x) = f i x) \<Longrightarrow> map_indexed f (map_indexed f xs) = map_indexed f xs"
  by (rule nth_equalityI) (simp_all add: map_indexed_nth)

lemma map_idem: "(\<And>x. f (f x) = f x) \<Longrightarrow> map f (map f xs) = map f xs"
  by simp

lemma filter_region_idem [filter_idem]:
  "filter_region m t b (filter_region m t b r) = filter_region m t b r"
proof (cases "m = Public \<and> t \<le> r_sampleCount r")
  case True
  then have "max t (roundTo (max t (roundTo (r_sampleCount r) 25)) 25) = max t (roundTo (r_sampleCount r) 25)"
    by (intro round_to.max_q_idem) simp
  with True show ?thesis by (simp add: filter_region_def bucketUnix_idem)
next
  case False
  then consider (t) "m = Trusted" | (s) "m = Public" "r_sampleCount r < t" by (cases m) auto
  then show ?thesis
  proof cases
    case t
    then show ?thesis by (simp add: filter_region_def bucketUnix_idem)
  next
    case s
    then show ?thesis
      by (cases "0 < t")
        (auto simp: filter_region_def stripLowVolumeRegion_def bucketUnix_idem roundTo_def max_def
          js_round_of_int [of 0, simplified])
  qed
qed

lemma filter_inside_idem [filter_idem]: "filter_inside m b (filter_inside m b i) = filter_inside m b i"
  by (simp add: filter_inside_def bucketUnix_idem round_to.q_idem)

lemma filter_outside_idem [filter_idem]: "filter_outside m b (filter_outside m b i) = filter_outside m b i"
  by (simp add: filter_outside_def bucketUnix_idem round_to.q_idem)

lemma filter_protocol_idem [filter_idem]: "filter_protocol b (filter_protocol b p) = filter_protocol b p"
  by (simp add: filter_protocol_def bucketUnix_idem)

lemma filter_activity_idem [filter_idem]: "filter_activity b (filter_activity b p) = filter_activity b p"
  by (simp add: filter_activity_def bucketUnix_idem take_map)

lemma filter_flow_idem [filter_idem]: "filter_flow m b (filter_flow m b f) = filter_flow m b f"
  by (simp add: filter_flow_def bucketUnix_idem)

lemma filter_helper_idem [filter_idem]: "filter_helper m b i (filter_helper m b i n) = filter_helper m b i n"
  by (simp add: filter_helper_def bucketUnix_idem)

section \<open>Properties\<close>

text \<open>Filtering a filtered snapshot with the same options changes nothing more, in either
  mode and for every threshold and bucket: the filter is a projection onto what may be shown.\<close>

theorem applyPrivacyFilter_idempotent:
  "applyPrivacyFilter (applyPrivacyFilter snap opts) opts = applyPrivacyFilter snap opts"
proof -
  have "effective_threshold (applyPrivacyFilter snap opts) opts = effective_threshold snap opts"
    by (simp add: effective_threshold_def applyPrivacyFilter_def Let_def split: option.split)
  moreover have "map_indexed (filter_helper m b) (map_indexed (filter_helper m b) ns)
      = map_indexed (filter_helper m b) ns" for m b ns
    by (rule map_indexed_idem) (rule filter_helper_idem)
  ultimately show ?thesis
    by (simp add: applyPrivacyFilter_def Let_def filter_idem bucketUnix_idem)
qed

text \<open>
  What a public reader may learn of a region: all of it when both versions have enough
  samples, only the name and the coarse time when neither has. A helper node shows its
  region, its availability, its coarse place and time, never its id or label.
\<close>

definition region_public_eq :: "real \<Rightarrow> real \<Rightarrow> region_aggregate \<Rightarrow> region_aggregate \<Rightarrow> bool" where
  "region_public_eq t b r r' \<longleftrightarrow>
     r = r' \<or>
     (r_sampleCount r < t \<and> r_sampleCount r' < t \<and> r_countryName r = r_countryName r' \<and>
      bucketUnix (r_lastUpdateUnix r) b = bucketUnix (r_lastUpdateUnix r') b)"

definition helper_public_eq :: "real \<Rightarrow> helper_node \<Rightarrow> helper_node \<Rightarrow> bool" where
  "helper_public_eq b n n' \<longleftrightarrow>
     hn_regionLabel n = hn_regionLabel n' \<and> hn_availability n = hn_availability n' \<and>
     quantizePair (hn_coords n) (1 / 2) = quantizePair (hn_coords n') (1 / 2) \<and>
     bucketUnix (hn_lastUpdateUnix n) b = bucketUnix (hn_lastUpdateUnix n') b"

definition public_eq :: "filter_opts \<Rightarrow> dashboard_snapshot \<Rightarrow> dashboard_snapshot \<Rightarrow> bool" where
  "public_eq opts s s' \<longleftrightarrow>
     s' = s\<lparr>s_regions := s_regions s', s_helperNodes := s_helperNodes s'\<rparr> \<and>
     list_all2 (region_public_eq (effective_threshold s opts) (effective_bucket opts)) (s_regions s) (s_regions s') \<and>
     list_all2 (helper_public_eq (effective_bucket opts)) (s_helperNodes s) (s_helperNodes s')"

lemma filter_region_public_eq:
  "region_public_eq t b r r' \<Longrightarrow> filter_region Public t b r = filter_region Public t b r'"
  by (cases r; cases r') (auto simp: region_public_eq_def filter_region_def stripLowVolumeRegion_def)

lemma filter_helper_public_eq:
  "helper_public_eq b n n' \<Longrightarrow> filter_helper Public b i n = filter_helper Public b i n'"
  by (cases n; cases n') (auto simp: helper_public_eq_def filter_helper_def)

lemma map_eq_list_all2: "list_all2 P xs ys \<Longrightarrow> (\<And>x y. P x y \<Longrightarrow> f x = f y) \<Longrightarrow> map f xs = map f ys"
  by (induction rule: list_all2_induct) auto

lemma map_indexed_eq_list_all2:
  "list_all2 P xs ys \<Longrightarrow> (\<And>i x y. P x y \<Longrightarrow> f i x = f i y) \<Longrightarrow> map_indexed f xs = map_indexed f ys"
  by (rule nth_equalityI) (auto simp: map_indexed_nth list_all2_conv_all_nth)

lemma public_filter_cong:
  assumes "o_mode opts = Public" and "public_eq opts s s'"
  shows "applyPrivacyFilter s opts = applyPrivacyFilter s' opts"
proof -
  from assms(2) have s': "s' = s\<lparr>s_regions := s_regions s', s_helperNodes := s_helperNodes s'\<rparr>"
    by (simp add: public_eq_def)
  have t: "effective_threshold s' opts = effective_threshold s opts"
    by (subst s') (simp add: effective_threshold_def split: option.split)
  let ?t = "effective_threshold s opts" and ?b = "effective_bucket opts"
  have r: "map (filter_region Public ?t ?b) (s_regions s) = map (filter_region Public ?t ?b) (s_regions s')"
    using assms(2) by (auto simp: public_eq_def intro: map_eq_list_all2 filter_region_public_eq)
  have h: "map_indexed (filter_helper Public ?b) (s_helperNodes s) =
      map_indexed (filter_helper Public ?b) (s_helperNodes s')"
    using assms(2) by (auto simp: public_eq_def intro: map_indexed_eq_list_all2 filter_helper_public_eq)
  have "applyPrivacyFilter (s\<lparr>s_regions := rs, s_helperNodes := hs\<rparr>) opts =
      (applyPrivacyFilter s opts)\<lparr>s_regions := map (filter_region Public ?t ?b) rs,
        s_helperNodes := map_indexed (filter_helper Public ?b) hs\<rparr>" for rs hs
    using assms(1)
    by (simp add: applyPrivacyFilter_def effective_threshold_def Let_def split: option.split)
  from this [where rs = "s_regions s'" and hs = "s_helperNodes s'"]
    this [where rs = "s_regions s" and hs = "s_helperNodes s"]
  show ?thesis using s' r h by simp
qed

text \<open>C2: noninterference. Two snapshots that agree on what a public reader may learn are filtered
  to the same snapshot in public mode: the status, protocol mix, rates and sample count of a
  region below the threshold, and the id, label and exact place of a helper node, do not
  influence the output at all.\<close>

theorem public_filter_noninterference:
  assumes "o_mode opts = Public" and "public_eq opts s s'"
  shows "applyPrivacyFilter s opts = applyPrivacyFilter s' opts"
  using assms by (rule public_filter_cong)

definition public_opts :: filter_opts where
  "public_opts = \<lparr>o_mode = Public, o_threshold = None, o_timeBucketSec = None\<rparr>"

definition other_snapshot :: dashboard_snapshot where
  "other_snapshot = sample_snapshot\<lparr>
     s_regions := [sample_region ''Iran'' 2200, (sample_region ''Chad'' 3)\<lparr>r_status := Healthy\<rparr>],
     s_helperNodes := [(sample_helper ''nl-1'')\<lparr>hn_lastUpdateUnix := 1000\<rparr>]\<rparr>"

theorem public_filter_noninterference_witness:
  "o_mode public_opts = Public \<and> public_eq public_opts sample_snapshot other_snapshot \<and>
   sample_snapshot \<noteq> other_snapshot \<and>
   applyPrivacyFilter sample_snapshot public_opts = applyPrivacyFilter other_snapshot public_opts"
proof -
  have m: "o_mode public_opts = Public" by (simp add: public_opts_def)
  have e: "public_eq public_opts sample_snapshot other_snapshot"
    by (simp add: public_eq_def other_snapshot_def sample_snapshot_def region_public_eq_def
        helper_public_eq_def effective_threshold_def effective_bucket_def public_opts_def
        sample_region_def sample_helper_def bucketUnix_def)
  have "sample_snapshot \<noteq> other_snapshot"
    by (simp add: other_snapshot_def sample_snapshot_def sample_region_def)
  with m e public_filter_noninterference [OF m e] show ?thesis by simp
qed

text \<open>Every region of a publicly filtered snapshot is either blanked (status unknown, no mix, no
  rates, count 0) or reports at least the threshold many samples and comes from a region
  that really had that many; names are kept, in order.\<close>

theorem public_region_threshold:
  assumes "o_mode opts = Public" and "r \<in> set (s_regions (applyPrivacyFilter snap opts))"
  shows "\<exists>r0 \<in> set (s_regions snap). r_countryName r = r_countryName r0 \<and>
    (if r_sampleCount r0 < effective_threshold snap opts
     then r_status r = Unknown \<and> r_protocolMix r = [] \<and> r_configSuccessRate r = 0 \<and>
       r_recentChangeRate r = 0 \<and> r_sampleCount r = 0
     else effective_threshold snap opts \<le> r_sampleCount r \<and> r_status r = r_status r0)"
proof -
  from assms obtain r0 where r0: "r0 \<in> set (s_regions snap)"
    and r: "r = filter_region Public (effective_threshold snap opts) (effective_bucket opts) r0"
    by (auto simp: applyPrivacyFilter_def Let_def)
  from r0 r show ?thesis
    by (intro bexI [of _ r0]) (auto simp: filter_region_def stripLowVolumeRegion_def)
qed

theorem public_region_threshold_witness:
  "\<exists>r. o_mode public_opts = Public \<and> r \<in> set (s_regions (applyPrivacyFilter sample_snapshot public_opts)) \<and>
     (\<exists>r0 \<in> set (s_regions sample_snapshot). r_countryName r = r_countryName r0)"
proof -
  let ?r = "hd (s_regions (applyPrivacyFilter sample_snapshot public_opts))"
  have m: "o_mode public_opts = Public" by (simp add: public_opts_def)
  have i: "?r \<in> set (s_regions (applyPrivacyFilter sample_snapshot public_opts))"
    by (simp add: applyPrivacyFilter_def Let_def sample_snapshot_def)
  from m i public_region_threshold [OF m i] show ?thesis by blast
qed



end
