(* ===== verification/Dashboard_Format.thy ===== *)
theory Dashboard_Format
  imports Dashboard_Types
begin

text \<open>
  What the dashboard components compute before they render: the formatters
  (\<open>components/dashboard/format.ts\<close>), the palettes (\<open>status.ts\<close>), the region
  index and the status counts (\<open>lib/dashboard/transform-map-data.ts\<close>), the activity
  feed's selection, the freshness label and the summary figures. \<open>Date.now()\<close> is the
  argument \<open>now\<close>, in whole seconds.
\<close>

section \<open>Formatters\<close>

text \<open>\<open>`${n}`\<close> for a number of the feed, which are whole: times, counts.\<close>

definition show_num :: "real \<Rightarrow> string" where
  "show_num x = show_int \<lfloor>x\<rfloor>"

definition formatPercent :: "real \<Rightarrow> string" where
  "formatPercent value = show_int (js_round (value * 100)) @ ''%''"

definition formatUnixAgo :: "int \<Rightarrow> real \<Rightarrow> string" where
  "formatUnixAgo now unix =
     (let diff = max 0 (of_int now - unix) in
      if diff < 60 then show_num diff @ ''s ago''
      else let m = \<lfloor>diff / 60\<rfloor> in
        if m < 60 then show_int m @ ''m ago''
        else let h = m div 60 in
          if h < 48 then show_int h @ ''h ago''
          else show_int (h div 24) @ ''d ago'')"

definition formatCompactNumber :: "real \<Rightarrow> string" where
  "formatCompactNumber n =
     (if n < 1000 then show_num n
      else if n < 1000000 then to_fixed (if 10000 \<le> n then 0 else 1) (n / 1000) @ ''k''
      else to_fixed (if 10000000 \<le> n then 0 else 1) (n / 1000000) @ ''m'')"

section \<open>Palettes\<close>

fun status_label :: "region_status \<Rightarrow> string" where
  "status_label Healthy = ''Healthy''"
| "status_label Degraded = ''Degraded''"
| "status_label Unstable = ''Unstable''"
| "status_label Blocked = ''Blocked''"
| "status_label Unknown = ''Unknown''"

fun status_color :: "region_status \<Rightarrow> string" where
  "status_color Healthy = ''#10b981''"
| "status_color Degraded = ''#f59e0b''"
| "status_color Unstable = ''#ef4444''"
| "status_color Blocked = ''#7f1d1d''"
| "status_color Unknown = ''#64748b''"

definition all_status :: "region_status list" where
  "all_status = [Healthy, Degraded, Unstable, Blocked, Unknown]"

fun tierLabel :: "recommendation_tier \<Rightarrow> string" where
  "tierLabel Primary = ''Primary''"
| "tierLabel Secondary = ''Secondary''"
| "tierLabel Fallback = ''Fallback''"
| "tierLabel Avoid = ''Avoid''"

fun tierColor :: "recommendation_tier \<Rightarrow> string" where
  "tierColor Primary = ''#10b981''"
| "tierColor Secondary = ''#22c55e''"
| "tierColor Fallback = ''#f59e0b''"
| "tierColor Avoid = ''#ef4444''"

fun helperColor :: "helper_availability \<Rightarrow> string" where
  "helperColor Up = ''#10b981''"
| "helperColor HelperDegraded = ''#f59e0b''"
| "helperColor Down = ''#ef4444''"

fun severityColor :: "activity_severity \<Rightarrow> string" where
  "severityColor SevInfo = ''#60a5fa''"
| "severityColor SevWarn = ''#f59e0b''"
| "severityColor SevCrit = ''#ef4444''"

fun protocol_key :: "protocol_id \<Rightarrow> string" where
  "protocol_key Reality = ''reality''"
| "protocol_key Hysteria2 = ''hysteria2''"
| "protocol_key Tuic = ''tuic''"
| "protocol_key Shadowtls = ''shadowtls''"
| "protocol_key DnsTunnel = ''dns_tunnel''"

fun protocolLabel :: "protocol_id \<Rightarrow> string" where
  "protocolLabel Reality = ''Reality''"
| "protocolLabel Hysteria2 = ''Hysteria2''"
| "protocolLabel Tuic = ''TUIC''"
| "protocolLabel Shadowtls = ''ShadowTLS''"
| "protocolLabel DnsTunnel = ''DNS tunnel''"

fun signature_name :: "signature_status \<Rightarrow> string" where
  "signature_name SigOk = ''ok''"
| "signature_name SigWarn = ''warn''"
| "signature_name SigFail = ''fail''"

section \<open>Regions: index by name, counts by status\<close>

definition region_key :: "region_aggregate \<Rightarrow> string" where
  "region_key r = to_lower (r_countryName r)"

definition buildRegionIndex :: "region_aggregate list \<Rightarrow> (string, region_aggregate) js_map" where
  "buildRegionIndex regions = fold (\<lambda>r m. map_set (region_key r) r m) regions []"

record status_counts =
  c_healthy :: nat
  c_degraded :: nat
  c_unstable :: nat
  c_blocked :: nat
  c_unknown :: nat

definition zero_counts :: status_counts where
  "zero_counts = \<lparr>c_healthy = 0, c_degraded = 0, c_unstable = 0, c_blocked = 0, c_unknown = 0\<rparr>"

fun bump_status :: "region_status \<Rightarrow> status_counts \<Rightarrow> status_counts" where
  "bump_status Healthy c = c\<lparr>c_healthy := c_healthy c + 1\<rparr>"
| "bump_status Degraded c = c\<lparr>c_degraded := c_degraded c + 1\<rparr>"
| "bump_status Unstable c = c\<lparr>c_unstable := c_unstable c + 1\<rparr>"
| "bump_status Blocked c = c\<lparr>c_blocked := c_blocked c + 1\<rparr>"
| "bump_status Unknown c = c\<lparr>c_unknown := c_unknown c + 1\<rparr>"

definition countByStatus :: "region_aggregate list \<Rightarrow> status_counts" where
  "countByStatus regions = fold (\<lambda>r. bump_status (r_status r)) regions zero_counts"

fun count_of :: "region_status \<Rightarrow> status_counts \<Rightarrow> nat" where
  "count_of Healthy c = c_healthy c"
| "count_of Degraded c = c_degraded c"
| "count_of Unstable c = c_unstable c"
| "count_of Blocked c = c_blocked c"
| "count_of Unknown c = c_unknown c"

section \<open>Activity feed, freshness, summary\<close>

datatype time_window = W15m | W1h | W24h

fun windowToSec :: "time_window \<Rightarrow> int" where
  "windowToSec W15m = 15 * 60"
| "windowToSec W1h = 60 * 60"
| "windowToSec W24h = 24 * 60 * 60"

definition activity_items :: "int \<Rightarrow> activity_severity option \<Rightarrow> time_window \<Rightarrow> activity_item list \<Rightarrow> activity_item list" where
  "activity_items now severity win acts =
     (let cutoff = of_int (now - windowToSec win) in
      take 10 (js_sort (desc_by a_tsUnix)
        (filter (\<lambda>a. case severity of None \<Rightarrow> True | Some s \<Rightarrow> a_severity a = s)
          (filter (\<lambda>a. cutoff \<le> a_tsUnix a) acts))))"

definition freshnessLabel :: "int \<Rightarrow> real \<Rightarrow> string \<times> string" where
  "freshnessLabel now generatedAtUnix =
     (let age = max 0 (of_int now - generatedAtUnix) in
      if age < 20 then (''live'', ''text-emerald-400'')
      else if age < 90 then (''delayed'', ''text-amber-400'')
      else if age < 10 * 60 then (''stale'', ''text-red-400'')
      else (''offline'', ''text-muted-foreground''))"

definition blockedCount :: "dashboard_snapshot \<Rightarrow> nat" where
  "blockedCount snap =
     (let counts = countByStatus (s_regions snap) in c_blocked counts + c_unstable counts)"

definition helperUp :: "dashboard_snapshot \<Rightarrow> nat" where
  "helperUp snap = length (filter (\<lambda>n. hn_availability n = Up) (s_helperNodes snap))"

definition protocolLeader :: "dashboard_snapshot \<Rightarrow> protocol_id" where
  "protocolLeader snap =
     (case js_sort (desc_by ph_successRate) (s_protocols snap) of
        [] \<Rightarrow> Reality
      | p # _ \<Rightarrow> ph_protocol p)"

text \<open>The mix as the region cards list it: the \<open>n\<close> largest shares.\<close>

definition top_mix :: "nat \<Rightarrow> (protocol_id \<times> real) list \<Rightarrow> (protocol_id \<times> real) list" where
  "top_mix n mix = take n (js_sort (desc_by snd) mix)"

section \<open>Lemmas\<close>

lemma count_of_bump: "count_of s (bump_status t c) = (if s = t then Suc (count_of s c) else count_of s c)"
  by (cases s; cases t) auto

lemma count_of_fold:
  "count_of s (fold (\<lambda>r. bump_status (r_status r)) rs c) =
     count_of s c + length (filter (\<lambda>r. r_status r = s) rs)"
  by (induction rs arbitrary: c) (auto simp: count_of_bump)

lemma count_of_countByStatus:
  "count_of s (countByStatus rs) = length (filter (\<lambda>r. r_status r = s) rs)"
  by (cases s; simp add: countByStatus_def count_of_fold) (simp_all add: zero_counts_def)

lemma sorted_wrt_take: "sorted_wrt P xs \<Longrightarrow> sorted_wrt P (take n xs)"
  by (metis append_take_drop_id sorted_wrt_append)

text \<open>In a list sorted by \<open>P\<close>, what \<open>take\<close> leaves out comes after what it keeps.\<close>

lemma sorted_wrt_take_rest:
  "sorted_wrt P xs \<Longrightarrow> x \<in> set (take n xs) \<Longrightarrow> y \<in> set (drop n xs) \<Longrightarrow> P x y"
  by (metis append_take_drop_id sorted_wrt_append)

lemma mset_take_drop: "mset (take n xs) + mset (drop n xs) = mset xs"
  by (metis append_take_drop_id mset_append)

lemma region_index_find:
  "map_get (buildRegionIndex regions) k =
     find (\<lambda>r. to_lower (r_countryName r) = k) (rev regions)"
  using js_map.get_fold_last_empty [of region_key "\<lambda>r. r" regions k]
  by (simp add: buildRegionIndex_def region_key_def option.map_ident)

section \<open>Properties\<close>

text \<open>The region index answers a lookup with the last region of the feed whose country name is,
  up to letter case, the one asked for, and with nothing when there is none.\<close>

theorem buildRegionIndex_lookup:
  "map_get (buildRegionIndex regions) k =
     find (\<lambda>r. to_lower (r_countryName r) = k) (rev regions)"
  by (rule region_index_find)

text \<open>The summary's status counts add up: each is the number of regions with that status, and
  together they are all the regions of the snapshot; the card of blocked regions counts the
  blocked and the unstable ones.\<close>

theorem status_counts_complete:
  "(\<forall>s. count_of s (countByStatus (s_regions snap)) =
        length (filter (\<lambda>r. r_status r = s) (s_regions snap))) \<and>
   sum_list (map (\<lambda>s. count_of s (countByStatus (s_regions snap))) all_status) = length (s_regions snap) \<and>
   blockedCount snap = length (filter (\<lambda>r. r_status r = Blocked \<or> r_status r = Unstable) (s_regions snap))"
proof -
  let ?n = "\<lambda>s rs. length (filter (\<lambda>r. r_status r = s) rs)"
  have total: "sum_list (map (\<lambda>s. ?n s rs) all_status) = length rs" for rs :: "region_aggregate list"
  proof (induction rs)
    case Nil
    show ?case by (simp add: all_status_def)
  next
    case (Cons r rs)
    then show ?case by (cases "r_status r") (simp_all add: all_status_def)
  qed
  have two: "?n Blocked rs + ?n Unstable rs =
      length (filter (\<lambda>r. r_status r = Blocked \<or> r_status r = Unstable) rs)" for rs :: "region_aggregate list"
    by (induction rs) auto
  have b: "blockedCount snap = count_of Blocked (countByStatus (s_regions snap)) +
      count_of Unstable (countByStatus (s_regions snap))"
    by (simp add: blockedCount_def Let_def)
  show ?thesis using total two by (simp add: b count_of_countByStatus)
qed

text \<open>The activity feed shows at most ten items, newest first; every shown item is one of the
  snapshot's, inside the time window and of the chosen severity; and an eligible item that is
  left out is not newer than any shown one, and is left out only when ten are shown.\<close>

theorem activity_feed_newest:
  fixes now sev win acts
  defines "shown \<equiv> activity_items now sev win acts"
    and "eligible \<equiv> filter (\<lambda>a. of_int (now - windowToSec win) \<le> a_tsUnix a \<and>
          (\<forall>s. sev = Some s \<longrightarrow> a_severity a = s)) acts"
  shows "length shown \<le> 10 \<and> sorted_wrt (\<lambda>a b. a_tsUnix b \<le> a_tsUnix a) shown \<and>
    (\<exists>rest. mset shown + mset rest = mset eligible \<and>
       (\<forall>a \<in> set shown. \<forall>b \<in> set rest. a_tsUnix b \<le> a_tsUnix a) \<and>
       (rest \<noteq> [] \<longrightarrow> length shown = 10))"
proof -
  let ?sorted = "js_sort (desc_by a_tsUnix) eligible"
  have shown: "shown = take 10 ?sorted"
    unfolding shown_def eligible_def activity_items_def Let_def
    by (cases sev) (simp_all add: conj_commute)
  have s: "sorted_wrt (\<lambda>a b. a_tsUnix b \<le> a_tsUnix a) ?sorted" by (rule sorted_desc)
  have "mset shown + mset (drop 10 ?sorted) = mset eligible"
    by (simp add: shown mset_take_drop)
  moreover have "\<forall>a \<in> set shown. \<forall>b \<in> set (drop 10 ?sorted). a_tsUnix b \<le> a_tsUnix a"
    using sorted_wrt_take_rest [OF s] by (simp add: shown)
  moreover have "drop 10 ?sorted \<noteq> [] \<longrightarrow> length shown = 10"
    by (simp add: shown)
  ultimately show ?thesis
    using s by (auto simp: shown sorted_wrt_take simp del: length_js_sort set_js_sort)
qed

theorem activity_feed_newest_witness:
  "length (activity_items 1000 (Some SevInfo) W15m (replicate 12 (sample_activity ''a'' 990))) \<le> 10"
  using activity_feed_newest [of 1000 "Some SevInfo" W15m "replicate 12 (sample_activity ''a'' 990)"]
  by blast

text \<open>The age label is right: it is a count and a unit such that the age lies within that many
  units and one more, seconds only below a minute, minutes only below an hour, hours only
  below two days.\<close>

theorem formatUnixAgo_correct:
  assumes "unix = of_int u"
  shows "\<exists>k per suffix. formatUnixAgo now unix = show_int k @ suffix \<and>
    (per, suffix) \<in> {(1, ''s ago''), (60, ''m ago''), (3600, ''h ago''), (86400, ''d ago'')} \<and>
    0 \<le> k \<and> k * per \<le> max 0 (now - u) \<and> max 0 (now - u) < (k + 1) * per \<and>
    (per = 1 \<longrightarrow> k < 60) \<and> (per = 60 \<longrightarrow> 1 \<le> k \<and> k < 60) \<and>
    (per = 3600 \<longrightarrow> 1 \<le> k \<and> k < 48) \<and> (per = 86400 \<longrightarrow> 2 \<le> k)"
proof -
  define d :: int where "d = max 0 (now - u)"
  have diff: "max 0 (of_int now - unix) = (of_int d :: real)"
    by (simp add: d_def assms max_def)
  have m: "\<lfloor>(of_int d :: real) / 60\<rfloor> = d div 60"
    using floor_divide_of_int_eq [of d 60] by simp
  have f: "formatUnixAgo now unix =
     (if d < 60 then show_int d @ ''s ago''
      else if d div 60 < 60 then show_int (d div 60) @ ''m ago''
      else if d div 60 div 60 < 48 then show_int (d div 60 div 60) @ ''h ago''
      else show_int (d div 60 div 60 div 24) @ ''d ago'')"
    using m by (simp add: formatUnixAgo_def diff show_num_def Let_def)
  have h: "d div 60 div 60 = d div 3600" "d div 60 div 60 div 24 = d div 86400"
    by (simp_all add: zdiv_zmult2_eq [symmetric])
  have "0 \<le> d" by (simp add: d_def)
  have bounds: "d div per * per \<le> d" "d < (d div per + 1) * per" if "0 < per" for per
  proof -
    have "d div per * per + d mod per = d" by simp
    with pos_mod_sign [OF that, of d] pos_mod_bound [OF that, of d]
    show "d div per * per \<le> d" "d < (d div per + 1) * per"
      unfolding distrib_right by linarith+
  qed
  consider "d < 60" | "60 \<le> d" "d < 3600" | "3600 \<le> d" "d < 172800" | "172800 \<le> d" by linarith
  then show ?thesis
  proof cases
    case 1
    then have "formatUnixAgo now unix = show_int d @ ''s ago''" using f by simp
    with 1 \<open>0 \<le> d\<close> show ?thesis unfolding d_def [symmetric]
      by (intro exI [of _ d] exI [of _ 1] exI [of _ "''s ago''"]) simp
  next
    case 2
    then have "formatUnixAgo now unix = show_int (d div 60) @ ''m ago''" using f by simp
    moreover have "1 \<le> d div 60" "d div 60 < 60" using 2 by linarith+
    ultimately show ?thesis using bounds [of 60] unfolding d_def [symmetric]
      by (intro exI [of _ "d div 60"] exI [of _ 60] exI [of _ "''m ago''"]) simp
  next
    case 3
    then have "\<not> d < 60" "\<not> d div 60 < 60" "1 \<le> d div 3600" "d div 3600 < 48" by linarith+
    moreover from this have "formatUnixAgo now unix = show_int (d div 3600) @ ''h ago''" using f h by simp
    ultimately show ?thesis using bounds [of 3600] unfolding d_def [symmetric]
      by (intro exI [of _ "d div 3600"] exI [of _ 3600] exI [of _ "''h ago''"]) simp
  next
    case 4
    then have "\<not> d < 60" "\<not> d div 60 < 60" "\<not> d div 3600 < 48" "2 \<le> d div 86400" by linarith+
    moreover from this have "formatUnixAgo now unix = show_int (d div 86400) @ ''d ago''" using f h by simp
    ultimately show ?thesis using bounds [of 86400] unfolding d_def [symmetric]
      by (intro exI [of _ "d div 86400"] exI [of _ 86400] exI [of _ "''d ago''"]) simp
  qed
qed

theorem formatUnixAgo_correct_witness:
  "\<exists>k per suffix. formatUnixAgo 1000 (990 :: real) = show_int k @ suffix \<and> k * per \<le> max 0 (1000 - 990)"
  using formatUnixAgo_correct [of 990 990 1000] by auto

text \<open>The protocol leader is the protocol of an entry with the highest success rate, the earliest
  such entry of the snapshot, and reality when the snapshot has no protocols.\<close>

theorem protocolLeader_max:
  "(s_protocols snap = [] \<longrightarrow> protocolLeader snap = Reality) \<and>
   (s_protocols snap \<noteq> [] \<longrightarrow>
     (\<exists>p. find (\<lambda>p. \<forall>q \<in> set (s_protocols snap). ph_successRate q \<le> ph_successRate p) (s_protocols snap) = Some p \<and>
        ph_protocol p = protocolLeader snap))"
proof (cases "js_sort (desc_by ph_successRate) (s_protocols snap)")
  case Nil
  then have "s_protocols snap = []" by (metis mset_js_sort mset_zero_iff)
  then show ?thesis by (simp add: protocolLeader_def)
next
  case (Cons p ps)
  let ?xs = "s_protocols snap"
  let ?P = "\<lambda>p. \<forall>q \<in> set ?xs. ph_successRate q \<le> ph_successRate p"
  have set: "set ?xs = insert p (set ps)"
    using set_js_sort [of "desc_by ph_successRate" ?xs] Cons by simp
  have "sorted_wrt (\<lambda>a b. ph_successRate b \<le> ph_successRate a) (p # ps)"
    using sorted_desc [of ph_successRate ?xs] Cons by simp
  then have p: "?P p" using set by auto
  have "filter ?P ?xs = filter ?P (js_sort (desc_by ph_successRate) ?xs)"
    by (rule desc.js_sort_stable [symmetric]) (auto simp: desc_by_def)
  then have "filter ?P ?xs = p # filter ?P ps" using Cons p by simp
  then have "find ?P ?xs = Some p" by (rule find_filter_Cons)
  then show ?thesis using Cons set by (auto simp: protocolLeader_def)
qed

theorem protocolLeader_max_witness:
  "s_protocols sample_snapshot \<noteq> [] \<and>
   (\<exists>p \<in> set (s_protocols sample_snapshot). ph_protocol p = protocolLeader sample_snapshot)"
proof -
  have h: "s_protocols sample_snapshot \<noteq> []" by (simp add: sample_snapshot_def)
  from h protocolLeader_max [THEN conjunct2, THEN mp, OF h] show ?thesis
    by (auto simp: find_Some_iff)
qed

end
