(* ===== verification/Web_Platform.thy ===== *)
theory Web_Platform
  imports Js_Prelude
begin

text \<open>
  What the sources use of the web platform: JSON values and JavaScript truthiness,
  responses of \<open>fetch\<close>, the \<open>Response\<close> constructor, URL query parameters.

  \<open>fetch\<close> itself is the environment: its outcome is an argument, either a rejection
  with a message or a response whose body may fail to arrive. \<open>JSON.parse\<close> and the
  URL parser and printer are arguments too; \<open>searchParams\<close> is modelled.
\<close>

section \<open>JSON\<close>

datatype json =
    JNull
  | JBool bool
  | JNum real
  | JStr string
  | JArr "json list"
  | JObj "(string \<times> json) list"

fun truthy :: "json option \<Rightarrow> bool" where
  "truthy None \<longleftrightarrow> False"
| "truthy (Some JNull) \<longleftrightarrow> False"
| "truthy (Some (JBool b)) \<longleftrightarrow> b"
| "truthy (Some (JNum x)) \<longleftrightarrow> x \<noteq> 0"
| "truthy (Some (JStr s)) \<longleftrightarrow> s \<noteq> []"
| "truthy (Some _) \<longleftrightarrow> True"

text \<open>\<open>v.key\<close>: \<open>None\<close> is \<open>undefined\<close>; an object of \<open>JSON.parse\<close> has each key once.\<close>

fun json_get :: "json \<Rightarrow> string \<Rightarrow> json option" where
  "json_get (JObj kvs) k = map_of kvs k"
| "json_get _ k = None"

fun is_array :: "json option \<Rightarrow> bool" where
  "is_array (Some (JArr _)) \<longleftrightarrow> True"
| "is_array _ \<longleftrightarrow> False"

text \<open>\<open>Object.keys(v)\<close> of a value that is not null.\<close>

fun js_keys :: "json \<Rightarrow> string list" where
  "js_keys (JObj kvs) = map fst kvs"
| "js_keys (JArr vs) = map show_nat [0..<length vs]"
| "js_keys (JStr s) = map show_nat [0..<length s]"
| "js_keys _ = []"

text \<open>\<open>typeof v === "object"\<close> and \<open>v\<close> not null.\<close>

fun is_object :: "json \<Rightarrow> bool" where
  "is_object (JObj _) \<longleftrightarrow> True"
| "is_object (JArr _) \<longleftrightarrow> True"
| "is_object _ \<longleftrightarrow> False"

section \<open>Responses\<close>

record http_response =
  h_status :: int
  h_contentType :: "string option"
  h_hasBody :: bool
  h_text :: "string option"  \<comment> \<open>\<open>None\<close>: reading the body fails\<close>

datatype fetch_outcome = Rejected string | Responded http_response

definition res_ok :: "http_response \<Rightarrow> bool" where
  "res_ok r \<longleftrightarrow> 200 \<le> h_status r \<and> h_status r \<le> 299"

text \<open>A response the site builds itself: status, headers, body.\<close>

datatype body = BodyText string | BodyStream http_response

record site_response =
  w_status :: int
  w_contentType :: string
  w_cacheControl :: string
  w_keepAlive :: bool
  w_body :: body

text \<open>
  \<open>new NextResponse(body, ...)\<close> throws a RangeError for a status outside 200 to 599 and
  a TypeError for a body with a null body status.
\<close>

definition null_body_status :: "int \<Rightarrow> bool" where
  "null_body_status s \<longleftrightarrow> s \<in> {204, 205, 304}"

definition new_response :: "site_response \<Rightarrow> site_response option" where
  "new_response r =
     (if w_status r < 200 \<or> 599 < w_status r \<or> null_body_status (w_status r) then None else Some r)"

section \<open>URLs\<close>

record url =
  u_base :: string
  u_query :: "(string \<times> string) list"

definition params_has :: "string \<Rightarrow> url \<Rightarrow> bool" where
  "params_has k u \<longleftrightarrow> k \<in> fst ` set (u_query u)"

definition params_get :: "string \<Rightarrow> url \<Rightarrow> string option" where
  "params_get k u = map_of (u_query u) k"

text \<open>\<open>searchParams.set\<close>: the first parameter of that name is replaced and the others
  deleted; a new name is appended.\<close>

fun query_set :: "string \<Rightarrow> string \<Rightarrow> (string \<times> string) list \<Rightarrow> (string \<times> string) list" where
  "query_set k v [] = [(k, v)]"
| "query_set k v ((k', v') # q) =
     (if k' = k then (k, v) # filter (\<lambda>p. fst p \<noteq> k) q else (k', v') # query_set k v q)"

definition params_set :: "string \<Rightarrow> string \<Rightarrow> url \<Rightarrow> url" where
  "params_set k v u = u\<lparr>u_query := query_set k v (u_query u)\<rparr>"

text \<open>\<open>s.replaceAll(pat, rep)\<close> for a non-empty pattern; the fuel is the length of the string.\<close>

fun replace_all_fuel :: "nat \<Rightarrow> string \<Rightarrow> string \<Rightarrow> string \<Rightarrow> string" where
  "replace_all_fuel n pat rep [] = []"
| "replace_all_fuel 0 pat rep s = s"
| "replace_all_fuel (Suc n) pat rep (c # s) =
     (if starts_with pat (c # s) then rep @ replace_all_fuel n pat rep (drop (length pat) (c # s))
      else c # replace_all_fuel n pat rep s)"

definition replace_all :: "string \<Rightarrow> string \<Rightarrow> string \<Rightarrow> string" where
  "replace_all pat rep s = replace_all_fuel (length s) pat rep s"

lemma query_set_get: "map_of (query_set k v q) k' = (if k' = k then Some v else map_of q k')"
proof (induction q)
  case Nil
  show ?case by simp
next
  case (Cons p q)
  have "map_of (filter (\<lambda>p. fst p \<noteq> k) q) k' = map_of q k'" if "k' \<noteq> k"
    using that by (induction q) auto
  with Cons show ?case by (cases p) auto
qed

text \<open>The parameters of a URL are a keyed store, like the maps.\<close>

interpretation params: keyed_store "[]" query_set map_of
  by unfold_locales (simp_all add: query_set_get)

lemma params_get_set: "params_get k' (params_set k v u) = (if k' = k then Some v else params_get k' u)"
  by (simp add: params_get_def params_set_def params.get_set)

lemma params_has_get: "params_has k u \<longleftrightarrow> params_get k u \<noteq> None"
  by (simp add: params_has_def params_get_def map_of_eq_None_iff)

lemma replace_all_fuel_enough:
  "pat \<noteq> [] \<Longrightarrow> length s \<le> n \<Longrightarrow> length s \<le> m \<Longrightarrow> replace_all_fuel n pat rep s = replace_all_fuel m pat rep s"
proof (induction n pat rep s arbitrary: m rule: replace_all_fuel.induct)
  case (3 n pat rep c s)
  then obtain m' where m: "m = Suc m'" by (cases m) auto
  let ?rest = "drop (length pat) (c # s)"
  show ?case
  proof (cases "starts_with pat (c # s)")
    case True
    have "length ?rest \<le> length s" using "3.prems"(1) by (cases pat) auto
    with "3.prems" m have le: "length ?rest \<le> n" "length ?rest \<le> m'" by auto
    have "replace_all_fuel n pat rep ?rest = replace_all_fuel m' pat rep ?rest"
      by (rule "3.IH"(1) [OF True "3.prems"(1) le])
    with True m show ?thesis by simp
  next
    case False
    with "3.prems" m have "replace_all_fuel n pat rep s = replace_all_fuel m' pat rep s"
      by (intro "3.IH"(2)) auto
    with False m show ?thesis by simp
  qed
next
  case (2 pat rep c s)
  then show ?case by simp
next
  case (1 n pat rep)
  then show ?case by simp
qed

end
