(* ===== verification/Snapshot_Fetch.thy ===== *)
theory Snapshot_Fetch
  imports Web_Platform Dashboard_Types
begin

text \<open>
  \<open>lib/dashboard/fetch-dashboard-data.ts\<close>: the URL of the snapshot or stream feed, the
  shallow validation of what it sends, and one fetch. The URL parser \<open>parse\<close> (given the
  origin when the text is relative; \<open>None\<close> is the TypeError of an invalid URL), its
  printer \<open>print\<close> and \<open>JSON.parse\<close> are arguments.
\<close>

text \<open>The template after the view is filled in, with the page's origin as base when it is relative.\<close>

definition filled_base :: "string \<Rightarrow> dashboard_view \<Rightarrow> string" where
  "filled_base base view =
     (if str_includes ''{view}'' base then replace_all ''{view}'' (view_name view) base else base)"

definition with_params :: "dashboard_view \<Rightarrow> real \<Rightarrow> url \<Rightarrow> url" where
  "with_params view privacyThreshold u =
     (let u1 = (if params_has ''view'' u then u else params_set ''view'' (view_name view) u)
      in if params_has ''privacyThreshold'' u1 then u1
         else params_set ''privacyThreshold'' (show_int \<lfloor>privacyThreshold\<rfloor>) u1)"

definition buildDashboardUrl ::
  "(string \<Rightarrow> string option \<Rightarrow> url option) \<Rightarrow> (url \<Rightarrow> string) \<Rightarrow> string \<Rightarrow> string \<Rightarrow> dashboard_view \<Rightarrow> real \<Rightarrow> string option" where
  "buildDashboardUrl parse print origin base view privacyThreshold =
     (if base = [] then Some []
      else let replaced = filled_base base view
        in map_option (\<lambda>u. print (with_params view privacyThreshold u))
             (parse replaced (if starts_with ''http'' replaced then None else Some origin)))"

definition shallowValidateSnapshot :: "json \<Rightarrow> bool" where
  "shallowValidateSnapshot v \<longleftrightarrow>
     truthy (Some v) \<and> is_object v \<and> json_get v ''version'' = Some (JNum 1) \<and>
     truthy (json_get v ''view'') \<and> is_array (json_get v ''regions'') \<and>
     is_array (json_get v ''protocols'') \<and> is_array (json_get v ''helperNodes'') \<and>
     is_array (json_get v ''flows'') \<and> is_array (json_get v ''activity'')"

datatype fetch_error =
    UrlNotConfigured
  | InvalidUrl
  | NetworkError string
  | HttpStatus int
  | BadJson
  | SchemaMismatch

text \<open>
  \<open>fetchDashboardSnapshot\<close>: \<open>net\<close> answers the request, \<open>parse_json\<close> is what
  \<open>res.json()\<close> does with the body.
\<close>

definition fetchDashboardSnapshot ::
  "(string \<Rightarrow> string option \<Rightarrow> url option) \<Rightarrow> (url \<Rightarrow> string) \<Rightarrow> (string \<Rightarrow> json option) \<Rightarrow>
   (string \<Rightarrow> fetch_outcome) \<Rightarrow> string \<Rightarrow> string option \<Rightarrow> dashboard_view \<Rightarrow> real \<Rightarrow> fetch_error + json" where
  "fetchDashboardSnapshot parse print parse_json net origin snapshotBaseUrl view privacyThreshold =
     (case buildDashboardUrl parse print origin (case snapshotBaseUrl of None \<Rightarrow> [] | Some b \<Rightarrow> b) view privacyThreshold of
        None \<Rightarrow> Inl InvalidUrl
      | Some url \<Rightarrow>
          if url = [] then Inl UrlNotConfigured
          else (case net url of
              Rejected msg \<Rightarrow> Inl (NetworkError msg)
            | Responded res \<Rightarrow>
                if \<not> res_ok res then Inl (HttpStatus (h_status res))
                else (case Option.bind (h_text res) parse_json of
                    None \<Rightarrow> Inl BadJson
                  | Some json \<Rightarrow> if shallowValidateSnapshot json then Inr json else Inl SchemaMismatch)))"

text \<open>
  The \<open>snapshot\<close> listener of \<open>connectDashboardStream\<close>: what it passes on for one
  message; a message that does not parse or validate is dropped.
\<close>

definition stream_message :: "(string \<Rightarrow> json option) \<Rightarrow> string \<Rightarrow> json option" where
  "stream_message parse_json data =
     (case parse_json data of
        None \<Rightarrow> None
      | Some json \<Rightarrow> if shallowValidateSnapshot json then Some json else None)"

section \<open>Lemmas\<close>

lemma with_params_get_view:
  "params_get ''view'' (with_params view t u) =
     Some (case params_get ''view'' u of None \<Rightarrow> view_name view | Some v \<Rightarrow> v)"
  by (auto simp: with_params_def Let_def params_get_set params_has_get split: option.split)

lemma with_params_get_threshold:
  "params_get ''privacyThreshold'' (with_params view t u) =
     Some (case params_get ''privacyThreshold'' u of None \<Rightarrow> show_int \<lfloor>t\<rfloor> | Some v \<Rightarrow> v)"
  by (auto simp: with_params_def Let_def params_get_set params_has_get split: option.split)

lemma with_params_get_other:
  "k \<noteq> ''view'' \<Longrightarrow> k \<noteq> ''privacyThreshold'' \<Longrightarrow> params_get k (with_params view t u) = params_get k u"
  by (auto simp: with_params_def Let_def params_get_set)

section \<open>Properties\<close>

text \<open>The feed URL always carries a view and a privacy threshold: those of the configured URL when
  it has them, otherwise the page's own; every other parameter and the base are kept, and
  building the parameters a second time changes nothing.\<close>

theorem dashboard_url_params:
  "params_get ''view'' (with_params view t u) =
     Some (case params_get ''view'' u of None \<Rightarrow> view_name view | Some v \<Rightarrow> v) \<and>
   params_get ''privacyThreshold'' (with_params view t u) =
     Some (case params_get ''privacyThreshold'' u of None \<Rightarrow> show_int \<lfloor>t\<rfloor> | Some v \<Rightarrow> v) \<and>
   (\<forall>k. k \<noteq> ''view'' \<longrightarrow> k \<noteq> ''privacyThreshold'' \<longrightarrow> params_get k (with_params view t u) = params_get k u) \<and>
   u_base (with_params view t u) = u_base u \<and>
   with_params view' t' (with_params view t u) = with_params view t u"
proof -
  have "params_has k (with_params view t u)" if "k \<in> {''view'', ''privacyThreshold''}" for k
    using that by (auto simp: params_has_get with_params_get_view with_params_get_threshold)
  then have "with_params view' t' (with_params view t u) = with_params view t u"
    by (simp add: with_params_def [of view' t'] Let_def)
  moreover have "u_base (with_params view t u) = u_base u"
    by (simp add: with_params_def params_set_def Let_def)
  ultimately show ?thesis
    by (simp add: with_params_get_view with_params_get_threshold with_params_get_other)
qed

theorem dashboard_url_params_witness:
  "params_get ''view'' (with_params ViewIran 20 \<lparr>u_base = ''http://h/s'', u_query = [(''k'', ''v'')]\<rparr>) = Some ''iran'' \<and>
   params_get ''k'' (with_params ViewIran 20 \<lparr>u_base = ''http://h/s'', u_query = [(''k'', ''v'')]\<rparr>) = Some ''v''"
  using dashboard_url_params [of ViewIran 20 "\<lparr>u_base = ''http://h/s'', u_query = [(''k'', ''v'')]\<rparr>"]
  by (simp add: params_get_def)


text \<open>
  The validation is shallow: it never looks at \<open>inside\<close>, \<open>outside\<close> or
  \<open>release\<close>, nor at the types inside the arrays.
\<close>

definition hollow_snapshot :: json where
  "hollow_snapshot = JObj [(''version'', JNum 1), (''view'', JNum 7), (''regions'', JArr [JNull]),
     (''protocols'', JArr []), (''helperNodes'', JArr []), (''flows'', JArr []), (''activity'', JArr [])]"

text \<open>The validation accepts a value without the fields inside, outside, release and
  generatedAtUnix that the page reads from every accepted snapshot, with a number as its view
  and null as a region; a stream message carrying it is passed on as a snapshot.\<close>

theorem validation_is_shallow:
  "shallowValidateSnapshot hollow_snapshot \<and>
   json_get hollow_snapshot ''inside'' = None \<and> json_get hollow_snapshot ''outside'' = None \<and>
   json_get hollow_snapshot ''release'' = None \<and> json_get hollow_snapshot ''generatedAtUnix'' = None \<and>
   stream_message (\<lambda>_. Some hollow_snapshot) data = Some hollow_snapshot"
  by (simp add: shallowValidateSnapshot_def hollow_snapshot_def stream_message_def)

end
