(* ===== verification/Runtime_Proxy.thy ===== *)
theory Runtime_Proxy
  imports Web_Platform
begin

text \<open>
  The way from the local runtime to the runtime dashboard: the four proxy routes
  (\<open>app/api/proxy/health\<close>, \<open>state\<close>, \<open>events/list\<close>, \<open>events\<close>) and the client
  (\<open>lib/runtime-client.ts\<close>) that reads them. The runtime is the environment: how long
  its headers and its body take, and what it answers. A route aborts its request after
  800 milliseconds; an abort is a rejected fetch, as any network failure is.
\<close>

record upstream =
  up_headMs :: nat
  up_bodyMs :: nat
  up_outcome :: fetch_outcome

definition proxyTimeoutMs :: nat where
  "proxyTimeoutMs = 800"

definition runtimeBase :: "string option \<Rightarrow> string" where
  "runtimeBase env = (case env of None \<Rightarrow> ''http://127.0.0.1:8080'' | Some b \<Rightarrow> b)"

definition runtime_unavailable_text :: string where
  "runtime_unavailable_text = ''{\"error\":\"runtime_unavailable\"}''"

text \<open>\<open>NextResponse.json({ error: "runtime_unavailable" }, { status: 503, ... })\<close>.\<close>

definition unavailable :: site_response where
  "unavailable = \<lparr>w_status = 503, w_contentType = ''application/json'', w_cacheControl = ''no-store'',
     w_keepAlive = False, w_body = BodyText runtime_unavailable_text\<rparr>"

text \<open>\<open>fetch\<close> with a signal that aborts after \<open>ms\<close> milliseconds.\<close>

definition fetch_within :: "nat \<Rightarrow> upstream \<Rightarrow> fetch_outcome" where
  "fetch_within ms up = (if up_headMs up < ms then up_outcome up else Rejected ''This operation was aborted'')"

definition text_within :: "nat \<Rightarrow> upstream \<Rightarrow> http_response \<Rightarrow> string option" where
  "text_within ms up res = (if up_bodyMs up < ms then h_text res else None)"

definition state_route :: "string option \<Rightarrow> (string \<Rightarrow> upstream) \<Rightarrow> string \<Rightarrow> site_response" where
  "state_route env net path =
     (let up = net (runtimeBase env @ path) in
      case fetch_within proxyTimeoutMs up of
        Rejected _ \<Rightarrow> unavailable
      | Responded res \<Rightarrow>
          (case text_within proxyTimeoutMs up res of
             None \<Rightarrow> unavailable
           | Some body \<Rightarrow>
               (case new_response
                       \<lparr>w_status = h_status res,
                        w_contentType = (case h_contentType res of None \<Rightarrow> ''application/json'' | Some c \<Rightarrow> c),
                        w_cacheControl = ''no-store'', w_keepAlive = False, w_body = BodyText body\<rparr> of
                  None \<Rightarrow> unavailable
                | Some r \<Rightarrow> r)))"

definition proxy_state :: "string option \<Rightarrow> (string \<Rightarrow> upstream) \<Rightarrow> site_response" where
  "proxy_state env net = state_route env net ''/api/state''"

definition proxy_health :: "string option \<Rightarrow> (string \<Rightarrow> upstream) \<Rightarrow> site_response" where
  "proxy_health env net = state_route env net ''/api/health''"

definition proxy_events_list :: "string option \<Rightarrow> (string \<Rightarrow> upstream) \<Rightarrow> site_response" where
  "proxy_events_list env net = state_route env net ''/api/events''"

text \<open>
  The event stream route has no timeout. A response that is not 2xx or has no body is
  answered with its text, or the error text when that is empty; \<open>res.status || 503\<close>.
\<close>

definition proxy_events :: "string option \<Rightarrow> (string \<Rightarrow> upstream) \<Rightarrow> site_response" where
  "proxy_events env net =
     (case up_outcome (net (runtimeBase env @ ''/api/events/stream'')) of
        Rejected _ \<Rightarrow> unavailable
      | Responded res \<Rightarrow>
          (case new_response
             (if \<not> res_ok res \<or> \<not> h_hasBody res
              then let body = (case h_text res of None \<Rightarrow> [] | Some t \<Rightarrow> t) in
                \<lparr>w_status = (if h_status res = 0 then 503 else h_status res),
                 w_contentType = ''application/json'', w_cacheControl = ''no-store'', w_keepAlive = False,
                 w_body = BodyText (if body = [] then runtime_unavailable_text else body)\<rparr>
              else
                \<lparr>w_status = h_status res, w_contentType = ''text/event-stream'', w_cacheControl = ''no-store'',
                 w_keepAlive = True, w_body = BodyStream res\<rparr>) of
             None \<Rightarrow> unavailable
           | Some r \<Rightarrow> r))"

section \<open>The client\<close>

definition fetchJSON :: "(string \<Rightarrow> string + json) \<Rightarrow> string \<Rightarrow> fetch_outcome \<Rightarrow> string + json" where
  "fetchJSON parse_json path outcome =
     (case outcome of
        Rejected msg \<Rightarrow> Inl msg
      | Responded res \<Rightarrow>
          if \<not> res_ok res
          then let text = (case h_text res of None \<Rightarrow> [] | Some t \<Rightarrow> t) in
            Inl (if text \<noteq> [] then text else path @ '' failed: '' @ show_int (h_status res))
          else (case h_text res of None \<Rightarrow> Inl ''terminated'' | Some t \<Rightarrow> parse_json t))"

definition getRuntimeState :: "(string \<Rightarrow> string + json) \<Rightarrow> (string \<Rightarrow> fetch_outcome) \<Rightarrow> string + json" where
  "getRuntimeState parse_json site = fetchJSON parse_json ''/api/proxy/state'' (site ''/api/proxy/state'')"

definition getRuntimeEvents :: "(string \<Rightarrow> string + json) \<Rightarrow> (string \<Rightarrow> fetch_outcome) \<Rightarrow> string + json" where
  "getRuntimeEvents parse_json site = fetchJSON parse_json ''/api/proxy/events/list'' (site ''/api/proxy/events/list'')"

definition getRuntimeHealth :: "(string \<Rightarrow> string + json) \<Rightarrow> (string \<Rightarrow> fetch_outcome) \<Rightarrow> string + json" where
  "getRuntimeHealth parse_json site = fetchJSON parse_json ''/api/proxy/health'' (site ''/api/proxy/health'')"

text \<open>What the browser sees of a route's response, and the site as the client's network.\<close>

fun served_text :: "body \<Rightarrow> string option" where
  "served_text (BodyText t) = Some t"
| "served_text (BodyStream res) = h_text res"

definition served :: "site_response \<Rightarrow> fetch_outcome" where
  "served r = Responded \<lparr>h_status = w_status r, h_contentType = Some (w_contentType r),
     h_hasBody = True, h_text = served_text (w_body r)\<rparr>"

definition site_net :: "string option \<Rightarrow> (string \<Rightarrow> upstream) \<Rightarrow> string \<Rightarrow> fetch_outcome" where
  "site_net env net path =
     (if path = ''/api/proxy/state'' then served (proxy_state env net)
      else if path = ''/api/proxy/events/list'' then served (proxy_events_list env net)
      else if path = ''/api/proxy/health'' then served (proxy_health env net)
      else Rejected ''not found'')"

section \<open>Lemmas\<close>

text \<open>The runtime answered the request in time, with a response that can be relayed.\<close>

definition relayable :: "upstream \<Rightarrow> http_response \<Rightarrow> string \<Rightarrow> bool" where
  "relayable up res body \<longleftrightarrow>
     up_headMs up < proxyTimeoutMs \<and> up_bodyMs up < proxyTimeoutMs \<and> up_outcome up = Responded res \<and>
     h_text res = Some body \<and> 200 \<le> h_status res \<and> h_status res \<le> 599 \<and> \<not> null_body_status (h_status res)"

lemma relayable_unique: "relayable up res body \<Longrightarrow> relayable up res' body' \<longleftrightarrow> res' = res \<and> body' = body"
  by (auto simp: relayable_def)

lemma relayable_status: "relayable up res body \<Longrightarrow> 200 \<le> h_status res \<and> h_status res \<le> 599"
  by (simp add: relayable_def)

lemma state_route_relays:
  "relayable (net (runtimeBase env @ path)) res body \<Longrightarrow>
     state_route env net path =
       \<lparr>w_status = h_status res,
        w_contentType = (case h_contentType res of None \<Rightarrow> ''application/json'' | Some c \<Rightarrow> c),
        w_cacheControl = ''no-store'', w_keepAlive = False, w_body = BodyText body\<rparr>"
  by (simp add: relayable_def state_route_def Let_def fetch_within_def text_within_def new_response_def)

lemma state_route_unavailable:
  "(\<And>res body. \<not> relayable (net (runtimeBase env @ path)) res body) \<Longrightarrow> state_route env net path = unavailable"
  by (auto simp: relayable_def state_route_def Let_def fetch_within_def text_within_def new_response_def
      split: fetch_outcome.splits option.splits)

lemma fetchJSON_unavailable: "fetchJSON parse_json path (served unavailable) = Inl runtime_unavailable_text"
  by (simp add: fetchJSON_def served_def unavailable_def res_ok_def runtime_unavailable_text_def)

section \<open>Properties\<close>

text \<open>C30: a polling route always answers: it relays the runtime's status and body when the runtime
  answered completely within 800 ms with a status that a response can carry, and otherwise
  answers 503 with the error text. The status is always a valid one and the answer is never
  cached.\<close>

theorem proxy_route_total:
  "(\<forall>res body. relayable (net (runtimeBase env @ path)) res body \<longrightarrow>
      w_status (state_route env net path) = h_status res \<and>
      w_body (state_route env net path) = BodyText body) \<and>
   ((\<nexists>res body. relayable (net (runtimeBase env @ path)) res body) \<longrightarrow>
      state_route env net path = unavailable) \<and>
   200 \<le> w_status (state_route env net path) \<and> w_status (state_route env net path) \<le> 599 \<and>
   w_cacheControl (state_route env net path) = ''no-store''"
proof (cases "\<exists>res body. relayable (net (runtimeBase env @ path)) res body")
  case True
  then obtain res body where r: "relayable (net (runtimeBase env @ path)) res body" by blast
  show ?thesis
    unfolding relayable_unique [OF r] state_route_relays [of net env path res body, OF r]
    using relayable_status [OF r] by simp
next
  case False
  then have "state_route env net path = unavailable" by (intro state_route_unavailable) auto
  with False show ?thesis by (simp add: unavailable_def)
qed

definition quick_runtime :: "string \<Rightarrow> upstream" where
  "quick_runtime u = \<lparr>up_headMs = 5, up_bodyMs = 6, up_outcome =
     Responded \<lparr>h_status = 200, h_contentType = None, h_hasBody = True, h_text = Some ''{}''\<rparr>\<rparr>"

theorem proxy_route_total_witness:
  "w_status (state_route None quick_runtime ''/api/state'') = 200 \<and>
   w_body (state_route None quick_runtime ''/api/state'') = BodyText ''{}''"
proof -
  have "relayable (quick_runtime (runtimeBase None @ ''/api/state''))
      \<lparr>h_status = 200, h_contentType = None, h_hasBody = True, h_text = Some ''{}''\<rparr> ''{}''"
    by (simp add: relayable_def quick_runtime_def proxyTimeoutMs_def null_body_status_def)
  with proxy_route_total [of quick_runtime None "''/api/state''"] show ?thesis by auto
qed

text \<open>C31: end to end, from the runtime through the proxy to the dashboard's client. When the runtime
  answers 2xx in time the client gets what its body parses to; when the runtime is down, slow
  or answers unreadably the client fails with exactly the error text, never with a stale or
  partial state.\<close>

theorem runtime_state_end_to_end:
  fixes env net
  defines "up \<equiv> net (runtimeBase env @ ''/api/state'')"
  shows "(\<forall>res body. relayable up res body \<longrightarrow> res_ok res \<longrightarrow>
            getRuntimeState parse_json (site_net env net) = parse_json body) \<and>
    ((\<nexists>res body. relayable up res body) \<longrightarrow>
       getRuntimeState parse_json (site_net env net) = Inl runtime_unavailable_text)"
proof (intro conjI allI impI)
  fix res body
  assume "relayable up res body" and ok: "res_ok res"
  then have "proxy_state env net =
      \<lparr>w_status = h_status res,
        w_contentType = (case h_contentType res of None \<Rightarrow> ''application/json'' | Some c \<Rightarrow> c),
        w_cacheControl = ''no-store'', w_keepAlive = False, w_body = BodyText body\<rparr>"
    unfolding proxy_state_def up_def by (intro state_route_relays) simp
  with ok show "getRuntimeState parse_json (site_net env net) = parse_json body"
    by (simp add: getRuntimeState_def site_net_def fetchJSON_def served_def res_ok_def)
next
  assume "\<nexists>res body. relayable up res body"
  then have "proxy_state env net = unavailable"
    unfolding proxy_state_def up_def by (intro state_route_unavailable) auto
  then show "getRuntimeState parse_json (site_net env net) = Inl runtime_unavailable_text"
    by (simp add: getRuntimeState_def site_net_def fetchJSON_unavailable)
qed

theorem runtime_state_end_to_end_witness:
  "getRuntimeState (\<lambda>_. Inr JNull)
     (site_net None (\<lambda>_. \<lparr>up_headMs = 900, up_bodyMs = 901, up_outcome = Rejected ''refused''\<rparr>)) =
   Inl runtime_unavailable_text"
  using runtime_state_end_to_end [of "\<lambda>_. \<lparr>up_headMs = 900, up_bodyMs = 901, up_outcome = Rejected ''refused''\<rparr>" None
      "\<lambda>_. Inr JNull"]
  by (simp add: relayable_def)

text \<open>The event stream route always answers with a valid status and without caching; it streams the
  runtime's body, as an event stream, exactly when the runtime answered 2xx with a body and a
  status that may carry one, and never claims to stream otherwise.\<close>

theorem proxy_events_total:
  fixes env net
  defines "r \<equiv> proxy_events env net"
    and "out \<equiv> up_outcome (net (runtimeBase env @ ''/api/events/stream''))"
  shows "200 \<le> w_status r \<and> w_status r \<le> 599 \<and> w_cacheControl r = ''no-store'' \<and>
    (\<forall>res. w_body r = BodyStream res \<longleftrightarrow>
       out = Responded res \<and> res_ok res \<and> h_hasBody res \<and> \<not> null_body_status (h_status res)) \<and>
    (w_contentType r = ''text/event-stream'' \<longleftrightarrow> (\<exists>res. w_body r = BodyStream res))"
  unfolding r_def out_def proxy_events_def
  by (auto simp: new_response_def unavailable_def res_ok_def null_body_status_def Let_def
      split: fetch_outcome.splits option.splits if_splits)

end
