(* ===== verification/Runtime_Events.thy ===== *)
theory Runtime_Events
  imports Web_Platform
begin

text \<open>
  The runtime dashboard's data and state machine (\<open>components/dashboard/RuntimeDashboard.tsx\<close>,
  the types of \<open>lib/runtime-client.ts\<close>, \<open>EventTimeline.tsx\<close>, \<open>DebugPanel.tsx\<close>):
  how streamed events are merged into the timeline, what the status badge says, and what
  each callback of the component (initial load, stream message, stream error, timer,
  refresh, unmount) does to its state. Events and snapshots arrive well typed; times are
  whole seconds.
\<close>

section \<open>Events and the merged timeline\<close>

record runtime_event =
  ev_timestamp :: int
  ev_type :: string
  ev_message :: string
  ev_metadata :: "json option"

record runtime_snapshot =
  rs_status :: string
  rs_activeProfile :: string
  rs_latencyMs :: int
  rs_lastUpdated :: int
  rs_failures :: "(int \<times> string) list"
  rs_mode :: string

definition event_key :: "runtime_event \<Rightarrow> string" where
  "event_key ev = show_int (ev_timestamp ev) @ ''-'' @ ev_type ev @ ''-'' @ ev_message ev"

definition add_event :: "runtime_event \<Rightarrow> (string, runtime_event) js_map \<Rightarrow> (string, runtime_event) js_map" where
  "add_event ev m = (let key = event_key ev in if map_has m key then m else map_set key ev m)"

definition mergeEvents :: "runtime_event list \<Rightarrow> runtime_event list \<Rightarrow> runtime_event list" where
  "mergeEvents prev incoming =
     (let m = fold add_event (incoming @ prev) [];
          merged = js_sort (desc_by ev_timestamp) (map snd m)
      in take 120 merged)"

definition timeline_recent :: "nat \<Rightarrow> runtime_event list \<Rightarrow> runtime_event list" where
  "timeline_recent limit events = take limit (js_sort (desc_by ev_timestamp) events)"

definition has_any :: "string list \<Rightarrow> string \<Rightarrow> bool" where
  "has_any words t \<longleftrightarrow> list_ex (\<lambda>w. str_includes w t) words"

definition typeClass :: "string \<Rightarrow> string" where
  "typeClass type =
     (let t = to_upper (trim type) in
      if has_any [''FAIL'', ''CRASH'', ''ERROR''] t then ''text-red-300''
      else if has_any [''SUCCESS'', ''OK'', ''CONNECTED''] t then ''text-emerald-300''
      else if has_any [''DECISION'', ''SWITCH''] t then ''text-amber-300''
      else if has_any [''CONFIG'', ''SINGBOX''] t then ''text-sky-300''
      else ''text-foreground'')"

definition latestByType :: "runtime_event list \<Rightarrow> string list \<Rightarrow> runtime_event option" where
  "latestByType events types =
     (let wanted = map (\<lambda>t. to_upper (trim t)) types in
      fold (\<lambda>ev best.
          if to_upper (trim (ev_type ev)) \<notin> set wanted then best
          else (case best of
              None \<Rightarrow> Some ev
            | Some b \<Rightarrow> if ev_timestamp b < ev_timestamp ev then Some ev else best))
        events None)"

section \<open>Status\<close>

datatype ui_status = CONNECTING | CONNECTED | DISCONNECTED | ERROR

definition mapStatus :: "string \<Rightarrow> ui_status" where
  "mapStatus s =
     (let v = to_lower (trim s) in
      if v = ''connected'' then CONNECTED
      else if v = ''connecting'' then CONNECTING
      else if v = ''error'' \<or> v = ''failed'' then ERROR
      else DISCONNECTED)"

definition uiStatus :: "runtime_snapshot option \<Rightarrow> ui_status" where
  "uiStatus st = mapStatus (case st of None \<Rightarrow> ''disconnected'' | Some s \<Rightarrow> rs_status s)"

text \<open>The texts the component takes from the localised copy.\<close>

record status_copy =
  sc_connected :: string
  sc_connecting :: string
  sc_disconnected :: string
  sc_secure :: string
  sc_notSecure :: string

definition uiStatusText :: "status_copy \<Rightarrow> ui_status \<Rightarrow> string" where
  "uiStatusText copy u =
     (if u = CONNECTED then sc_connected copy
      else if u = CONNECTING then sc_connecting copy
      else sc_disconnected copy)"

definition securityStatusText :: "status_copy \<Rightarrow> ui_status \<Rightarrow> string" where
  "securityStatusText copy u = (if u = CONNECTED then sc_secure copy else sc_notSecure copy)"

definition badgeClass :: "ui_status \<Rightarrow> string" where
  "badgeClass u =
     (if u = CONNECTED then ''border-emerald-400/40 text-emerald-300 bg-emerald-950/30''
      else if u = CONNECTING then ''border-amber-400/40 text-amber-300 bg-amber-950/30''
      else if u = ERROR then ''border-red-400/40 text-red-300 bg-red-950/30''
      else ''border-border text-muted-foreground bg-card/60'')"

section \<open>The component's callbacks\<close>

record runtime_ui =
  rt_state :: "runtime_snapshot option"
  rt_events :: "runtime_event list"
  rt_error :: "string option"
  rt_es :: bool        \<comment> \<open>\<open>eventSourceRef\<close> holds an open stream\<close>
  rt_timer :: bool     \<comment> \<open>\<open>snapshotTimerRef\<close> holds a running interval\<close>
  rt_mounted :: bool
  rt_initial :: bool   \<comment> \<open>the initial \<open>Promise.all\<close> is pending\<close>
  rt_refreshes :: nat  \<comment> \<open>pending calls of \<open>refreshSnapshot\<close>\<close>

text \<open>What can happen to the component; a failure carries the message of its \<open>Error\<close>, if it is one.\<close>

datatype runtime_input =
    InitOk runtime_snapshot "runtime_event list"
  | InitFail "string option"
  | SseMessage runtime_event
  | SseGarbage
  | SseError
  | Tick
  | RefreshOk runtime_snapshot
  | RefreshFail "string option"
  | Unmount

definition rt_initial_ui :: runtime_ui where
  "rt_initial_ui = \<lparr>rt_state = None, rt_events = [], rt_error = None, rt_es = False, rt_timer = False,
     rt_mounted = False, rt_initial = False, rt_refreshes = 0\<rparr>"

text \<open>The effect on mount: start the initial load, open the stream, replace the interval.\<close>

definition rt_mount :: "runtime_ui \<Rightarrow> runtime_ui" where
  "rt_mount u = u\<lparr>rt_mounted := True, rt_initial := True, rt_es := True, rt_timer := True\<rparr>"

definition failure_text :: "string option \<Rightarrow> string" where
  "failure_text e = (case e of None \<Rightarrow> ''runtime fetch failed'' | Some msg \<Rightarrow> msg)"

text \<open>
  Whether an input can occur: promises settle once, a closed stream sends nothing, a
  cleared interval does not fire.
\<close>

fun rt_enabled :: "runtime_ui \<Rightarrow> runtime_input \<Rightarrow> bool" where
  "rt_enabled u (InitOk _ _) \<longleftrightarrow> rt_initial u"
| "rt_enabled u (InitFail _) \<longleftrightarrow> rt_initial u"
| "rt_enabled u (SseMessage _) \<longleftrightarrow> rt_es u"
| "rt_enabled u SseGarbage \<longleftrightarrow> rt_es u"
| "rt_enabled u SseError \<longleftrightarrow> rt_es u"
| "rt_enabled u Tick \<longleftrightarrow> rt_timer u"
| "rt_enabled u (RefreshOk _) \<longleftrightarrow> 0 < rt_refreshes u"
| "rt_enabled u (RefreshFail _) \<longleftrightarrow> 0 < rt_refreshes u"
| "rt_enabled u Unmount \<longleftrightarrow> rt_mounted u"

text \<open>State setters do nothing once the component is unmounted.\<close>

definition if_mounted :: "(runtime_ui \<Rightarrow> runtime_ui) \<Rightarrow> runtime_ui \<Rightarrow> runtime_ui" where
  "if_mounted f u = (if rt_mounted u then f u else u)"

fun rt_handle :: "runtime_ui \<Rightarrow> runtime_input \<Rightarrow> runtime_ui" where
  "rt_handle u (InitOk s evs) =
     if_mounted (\<lambda>u. u\<lparr>rt_state := Some s, rt_events := mergeEvents (rt_events u) evs, rt_error := None\<rparr>)
       (u\<lparr>rt_initial := False\<rparr>)"
| "rt_handle u (InitFail e) =
     if_mounted (\<lambda>u. u\<lparr>rt_error := Some (failure_text e), rt_state := None, rt_events := []\<rparr>)
       (u\<lparr>rt_initial := False\<rparr>)"
| "rt_handle u (SseMessage ev) =
     if_mounted (\<lambda>u. u\<lparr>rt_events := mergeEvents (rt_events u) [ev], rt_error := None\<rparr>) u"
| "rt_handle u SseGarbage = if_mounted (\<lambda>u. u\<lparr>rt_error := Some ''event stream parse failed''\<rparr>) u"
| "rt_handle u SseError = if_mounted (\<lambda>u. u\<lparr>rt_error := Some ''event stream disconnected''\<rparr>) u"
| "rt_handle u Tick = u\<lparr>rt_refreshes := Suc (rt_refreshes u)\<rparr>"
| "rt_handle u (RefreshOk s) =
     if_mounted (\<lambda>u. u\<lparr>rt_state := Some s, rt_error := None\<rparr>) (u\<lparr>rt_refreshes := rt_refreshes u - 1\<rparr>)"
| "rt_handle u (RefreshFail e) =
     if_mounted (\<lambda>u. u\<lparr>rt_error := Some (failure_text e), rt_state := None\<rparr>)
       (u\<lparr>rt_refreshes := rt_refreshes u - 1\<rparr>)"
| "rt_handle u Unmount = u\<lparr>rt_es := False, rt_timer := False, rt_mounted := False\<rparr>"

inductive rt_step :: "runtime_ui \<Rightarrow> runtime_input \<Rightarrow> runtime_ui \<Rightarrow> bool" where
  rt_stepI: "rt_enabled u i \<Longrightarrow> rt_step u i (rt_handle u i)"

inductive_simps rt_step_iff: "rt_step u i v"

inductive rt_reach :: "runtime_input list \<Rightarrow> runtime_ui \<Rightarrow> bool" where
  rt_start: "rt_reach [] (rt_mount rt_initial_ui)"
| rt_more: "rt_reach is u \<Longrightarrow> rt_step u i v \<Longrightarrow> rt_reach (is @ [i]) v"

section \<open>Lemmas: the merge\<close>

text \<open>The abstract merge: of the entries with one key, the first.\<close>

fun first_by :: "('a \<Rightarrow> 'k) \<Rightarrow> 'a list \<Rightarrow> 'a list" where
  "first_by key [] = []"
| "first_by key (x # xs) = x # filter (\<lambda>y. key y \<noteq> key x) (first_by key xs)"

lemma set_first_by: "x \<in> set (first_by key xs) \<Longrightarrow> x \<in> set xs"
  by (induction xs) auto

lemma key_image_filter: "key ` set (filter (\<lambda>y. key y \<noteq> k) ys) = key ` set ys - {k}"
  by auto

lemma keys_first_by: "key ` set (first_by key xs) = key ` set xs"
  by (induction xs) (auto simp: key_image_filter simp del: set_filter)

lemma distinct_first_by: "distinct (map key (first_by key xs))"
  by (induction xs) (auto simp: distinct_map_filter)

lemma first_by_id: "distinct (map key xs) \<Longrightarrow> first_by key xs = xs"
proof (induction xs)
  case Nil
  show ?case by simp
next
  case (Cons x xs)
  from Cons.prems have "\<forall>y \<in> set xs. key y \<noteq> key x" by (auto simp: image_iff)
  with Cons show ?case by simp
qed

lemma map_has_iff: "map_has m k \<longleftrightarrow> k \<in> set (map fst m)"
  by (simp add: map_has_def map_get_def map_of_eq_None_iff)

text \<open>The map filled by the loop holds the first event of each key, in order of arrival.\<close>

lemma fold_add_event:
  "map snd (fold add_event xs m) =
     map snd m @ filter (\<lambda>e. event_key e \<notin> set (map fst m)) (first_by event_key xs)"
proof (induction xs arbitrary: m)
  case Nil
  show ?case by simp
next
  case (Cons x xs)
  show ?case
  proof (cases "map_has m (event_key x)")
    case True
    then have "event_key x \<in> set (map fst m)" by (simp add: map_has_iff)
    moreover have "filter (\<lambda>e. event_key e \<notin> set (map fst m)) (first_by event_key xs) =
        filter (\<lambda>e. event_key e \<notin> set (map fst m))
          (filter (\<lambda>y. event_key y \<noteq> event_key x) (first_by event_key xs))"
      using calculation by (simp add: filter_filter) (metis (mono_tags, lifting))
    ultimately show ?thesis using Cons.IH [of m] True by (simp add: add_event_def Let_def)
  next
    case False
    then have "event_key x \<notin> set (map fst m)" by (simp add: map_has_iff)
    with Cons.IH [of "map_set (event_key x) x m"] False show ?thesis
      by (simp add: add_event_def Let_def map_set_new conj_commute)
  qed
qed

lemma mergeEvents_eq:
  "mergeEvents prev incoming =
     take 120 (js_sort (desc_by ev_timestamp) (first_by event_key (incoming @ prev)))"
  using fold_add_event [of "incoming @ prev" "[]"] by (simp add: mergeEvents_def Let_def del: fold_append)

text \<open>A timeline as the merge produces it.\<close>

definition timeline_ok :: "runtime_event list \<Rightarrow> bool" where
  "timeline_ok evs \<longleftrightarrow>
     length evs \<le> 120 \<and> distinct (map event_key evs) \<and>
     sorted_wrt (\<lambda>a b. ev_timestamp b \<le> ev_timestamp a) evs"

lemma timeline_ok_Nil [simp]: "timeline_ok []"
  by (simp add: timeline_ok_def)

lemma distinct_map_mset: "mset xs = mset ys \<Longrightarrow> distinct (map f xs) = distinct (map f ys)"
  by (metis mset_eq_imp_distinct_iff mset_map)

lemma distinct_map_take: "distinct (map f xs) \<Longrightarrow> distinct (map f (take n xs))"
  by (simp add: take_map [symmetric] distinct_take)

lemma sorted_wrt_takeI: "sorted_wrt P xs \<Longrightarrow> sorted_wrt P (take n xs)"
  by (metis append_take_drop_id sorted_wrt_append)

lemma timeline_ok_merge: "timeline_ok (mergeEvents prev incoming)"
proof -
  let ?d = "first_by event_key (incoming @ prev)"
  have "distinct (map event_key (js_sort (desc_by ev_timestamp) ?d))"
    by (subst distinct_map_mset [OF mset_js_sort]) (rule distinct_first_by)
  moreover have "sorted_wrt (\<lambda>a b. ev_timestamp b \<le> ev_timestamp a) (js_sort (desc_by ev_timestamp) ?d)"
    by (rule sorted_desc)
  ultimately show ?thesis
    by (simp add: timeline_ok_def mergeEvents_eq distinct_map_take sorted_wrt_takeI)
qed

lemma merge_nothing: "timeline_ok evs \<Longrightarrow> mergeEvents evs [] = evs"
  by (simp add: mergeEvents_eq timeline_ok_def first_by_id js_sort_sorted_id desc_by_def)

text \<open>Every step of the component keeps the timeline in order and its stream and timer with it.\<close>

definition rt_inv :: "runtime_ui \<Rightarrow> bool" where
  "rt_inv u \<longleftrightarrow> timeline_ok (rt_events u) \<and> rt_es u = rt_mounted u \<and> rt_timer u = rt_mounted u"

lemma rt_inv_start: "rt_inv (rt_mount rt_initial_ui)"
  by (simp add: rt_inv_def rt_mount_def rt_initial_ui_def)

lemma rt_inv_handle: "rt_inv u \<Longrightarrow> rt_inv (rt_handle u i)"
  by (cases i) (auto simp: rt_inv_def if_mounted_def timeline_ok_merge)

lemma rt_reach_inv: "rt_reach is u \<Longrightarrow> rt_inv u"
  by (induction rule: rt_reach.induct) (auto simp: rt_inv_start rt_step_iff rt_inv_handle)

text \<open>
  The last answer of the runtime before the component went away: the snapshot of the
  latest load that succeeded, nothing if the latest load failed or none has finished.
\<close>

fun load_result :: "runtime_input \<Rightarrow> runtime_snapshot option option" where
  "load_result (InitOk s evs) = Some (Some s)"
| "load_result (InitFail e) = Some None"
| "load_result (RefreshOk s) = Some (Some s)"
| "load_result (RefreshFail e) = Some None"
| "load_result _ = None"

definition last_load :: "runtime_input list \<Rightarrow> runtime_snapshot option" where
  "last_load is =
     fold (\<lambda>i st. case load_result i of None \<Rightarrow> st | Some r \<Rightarrow> r) (takeWhile (\<lambda>i. i \<noteq> Unmount) is) None"

lemma takeWhile_snoc: "takeWhile P (xs @ [x]) = (if \<forall>y \<in> set xs. P y then xs @ (if P x then [x] else []) else takeWhile P xs)"
  by (induction xs) auto

lemma rt_reach_mounted: "rt_reach is u \<Longrightarrow> rt_mounted u \<longleftrightarrow> Unmount \<notin> set is"
proof (induction rule: rt_reach.induct)
  case rt_start
  show ?case by (simp add: rt_mount_def)
next
  case (rt_more "is" u i v)
  then show ?case by (cases i) (auto simp: rt_step_iff if_mounted_def)
qed

lemma rt_reach_state: "rt_reach is u \<Longrightarrow> rt_state u = last_load is"
proof (induction rule: rt_reach.induct)
  case rt_start
  show ?case by (simp add: rt_mount_def rt_initial_ui_def last_load_def)
next
  case (rt_more "is" u i v)
  from rt_more have v: "v = rt_handle u i" by (simp add: rt_step_iff)
  have m: "rt_mounted u \<longleftrightarrow> Unmount \<notin> set is" by (rule rt_reach_mounted) (rule rt_more)
  have tw: "Unmount \<notin> set is \<Longrightarrow> takeWhile (\<lambda>i. i \<noteq> Unmount) is = is"
    by (auto simp: takeWhile_eq_all_conv)
  show ?case
  proof (cases "Unmount \<in> set is")
    case True
    then have "last_load (is @ [i]) = last_load is"
      by (auto simp: last_load_def takeWhile_snoc)
    moreover have "rt_state v = rt_state u"
      using True m by (cases i) (simp_all add: v if_mounted_def)
    ultimately show ?thesis using rt_more.IH by simp
  next
    case False
    then have "last_load (is @ [i]) = (case load_result i of None \<Rightarrow> last_load is | Some r \<Rightarrow> r)"
      by (cases "load_result i") (auto simp: last_load_def takeWhile_snoc tw)
    moreover have "rt_state v = (case load_result i of None \<Rightarrow> rt_state u | Some r \<Rightarrow> r)"
      using False m by (cases i) (simp_all add: v if_mounted_def)
    ultimately show ?thesis using rt_more.IH by (cases "load_result i") simp_all
  qed
qed

section \<open>Lemmas: event keys\<close>

lemma split_at_first:
  "d \<notin> set a \<Longrightarrow> d \<notin> set b \<Longrightarrow> a @ d # u = b @ d # v \<Longrightarrow> a = b \<and> u = v"
proof (induction a arbitrary: b)
  case Nil
  then show ?case by (cases b) auto
next
  case (Cons x a)
  then show ?case by (cases b) auto
qed

lemma show_int_nonneg: "0 \<le> i \<Longrightarrow> show_int i = show_nat (nat i)"
  by (simp add: show_int_def)

text \<open>Without a dash in the type, the key determines time, type and message.\<close>

lemma event_key_inject:
  assumes "event_key a = event_key b" and "0 \<le> ev_timestamp a" and "0 \<le> ev_timestamp b"
    and "CHR ''-'' \<notin> set (ev_type a)" and "CHR ''-'' \<notin> set (ev_type b)"
  shows "ev_timestamp a = ev_timestamp b \<and> ev_type a = ev_type b \<and> ev_message a = ev_message b"
proof -
  have k: "event_key e = show_nat (nat (ev_timestamp e)) @ CHR ''-'' # (ev_type e @ CHR ''-'' # ev_message e)"
    if "0 \<le> ev_timestamp e" for e :: runtime_event
    using that by (simp add: event_key_def show_int_nonneg)
  have *: "show_nat (nat (ev_timestamp a)) = show_nat (nat (ev_timestamp b)) \<and>
      ev_type a @ CHR ''-'' # ev_message a = ev_type b @ CHR ''-'' # ev_message b"
    using assms(1) unfolding k [OF assms(2)] k [OF assms(3)]
    by (intro split_at_first) (simp_all add: show_nat_no_dash)
  moreover have "ev_type a = ev_type b \<and> ev_message a = ev_message b"
    using * assms(4,5) by (intro split_at_first [of "CHR ''-''"]) simp_all
  ultimately show ?thesis using assms(2,3) by simp
qed

lemma sorted_take_complete:
  assumes "sorted_wrt P xs" and "x \<in> set xs" and "x \<notin> set (take n xs)"
  shows "length (take n xs) = n \<and> (\<forall>y \<in> set (take n xs). P y x)"
proof -
  from assms(2,3) have x: "x \<in> set (drop n xs)"
    by (metis Un_iff append_take_drop_id set_append)
  then have "n < length xs" by (metis drop_eq_Nil2 empty_iff empty_set leI)
  moreover have "\<forall>y \<in> set (take n xs). P y x"
    using assms(1) x by (metis append_take_drop_id sorted_wrt_append)
  ultimately show ?thesis by simp
qed

section \<open>Properties\<close>

definition ev :: "int \<Rightarrow> string \<Rightarrow> string \<Rightarrow> runtime_event" where
  "ev t ty msg = \<lparr>ev_timestamp = t, ev_type = ty, ev_message = msg, ev_metadata = None\<rparr>"

text \<open>C9: the merged timeline has at most 120 events, newest first, no two with the same key, all of them
  among the given ones; and for every given event its key is in the timeline unless the timeline
  is full with 120 events at least as new, so merging never drops a recent event.\<close>

theorem mergeEvents_correct:
  "timeline_ok (mergeEvents prev incoming) \<and>
   set (mergeEvents prev incoming) \<subseteq> set incoming \<union> set prev \<and>
   (\<forall>e \<in> set (first_by event_key (incoming @ prev)).
      e \<in> set (mergeEvents prev incoming) \<or>
      (length (mergeEvents prev incoming) = 120 \<and>
       (\<forall>x \<in> set (mergeEvents prev incoming). ev_timestamp e \<le> ev_timestamp x)))"
proof (intro conjI ballI)
  let ?d = "first_by event_key (incoming @ prev)"
  let ?s = "js_sort (desc_by ev_timestamp) ?d"
  show "timeline_ok (mergeEvents prev incoming)" by (rule timeline_ok_merge)
  show "set (mergeEvents prev incoming) \<subseteq> set incoming \<union> set prev"
    using in_set_takeD [of _ 120 ?s] set_first_by [of _ event_key "incoming @ prev"]
    by (auto simp: mergeEvents_eq)
  fix e assume e: "e \<in> set ?d"
  show "e \<in> set (mergeEvents prev incoming) \<or>
      (length (mergeEvents prev incoming) = 120 \<and>
       (\<forall>x \<in> set (mergeEvents prev incoming). ev_timestamp e \<le> ev_timestamp x))"
    using sorted_take_complete [OF sorted_desc [of ev_timestamp ?d], of e 120] e
    by (auto simp: mergeEvents_eq)
qed

theorem mergeEvents_correct_witness:
  "timeline_ok (mergeEvents [ev 5 ''A'' ''x''] [ev 7 ''B'' ''y''])"
  using mergeEvents_correct [of "[ev 5 ''A'' ''x'']" "[ev 7 ''B'' ''y'']"] by blast

text \<open>Two different events of one second, an event of type a with message b-c and one of type a-b
  with message c, have the same key, so the merge keeps only the first: the key does not
  determine the event when a type contains a dash.\<close>

theorem mergeEvents_key_collision:
  "mergeEvents [] [ev 1 ''a'' ''b-c'', ev 1 ''a-b'' ''c''] = [ev 1 ''a'' ''b-c''] \<and>
   ev 1 ''a'' ''b-c'' \<noteq> ev 1 ''a-b'' ''c''"
proof -
  have "event_key (ev 1 ''a-b'' ''c'') = event_key (ev 1 ''a'' ''b-c'')"
    by (simp add: event_key_def ev_def)
  then show ?thesis by (simp add: mergeEvents_eq js_sort_Cons) (simp add: ev_def)
qed


lemma rt_reach_snocI: "rt_reach is u \<Longrightarrow> rt_enabled u i \<Longrightarrow> rt_reach (is @ [i]) (rt_handle u i)"
  by (rule rt_reach.rt_more) (simp_all add: rt_step_iff)

lemma rt_reach_example:
  "rt_reach [SseMessage (ev 3 ''A'' ''m''), Unmount]
     (rt_handle (rt_handle (rt_mount rt_initial_ui) (SseMessage (ev 3 ''A'' ''m''))) Unmount)"
  using rt_reach_snocI [OF rt_reach_snocI [OF rt_start, of "SseMessage (ev 3 ''A'' ''m'')"], of Unmount]
  by (simp add: rt_mount_def if_mounted_def)


text \<open>C11: the page says secure only on the strength of the latest answer of the runtime: in every
  reachable state the secure text is shown exactly when the last load that finished while the
  component was mounted succeeded and reported, up to blanks and letter case, connected. After a
  failed load it is never shown.\<close>

theorem secure_badge_truthful:
  assumes "rt_reach is u" and "sc_secure copy \<noteq> sc_notSecure copy"
  shows "securityStatusText copy (uiStatus (rt_state u)) = sc_secure copy \<longleftrightarrow>
    (\<exists>s. last_load is = Some s \<and> to_lower (trim (rs_status s)) = ''connected'')"
proof -
  have "trim ''disconnected'' = ''disconnected''" "to_lower ''disconnected'' = ''disconnected''"
    by code_simp+
  then have "uiStatus None = DISCONNECTED"
    by (simp add: uiStatus_def mapStatus_def)
  moreover have "uiStatus (Some s) = CONNECTED \<longleftrightarrow> to_lower (trim (rs_status s)) = ''connected''" for s
    by (simp add: uiStatus_def mapStatus_def Let_def)
  ultimately show ?thesis
    using assms(2) rt_reach_state [OF assms(1)]
    by (cases "last_load is") (auto simp: securityStatusText_def)
qed

definition sample_copy :: status_copy where
  "sample_copy = \<lparr>sc_connected = ''Connected'', sc_connecting = ''Connecting'', sc_disconnected = ''Disconnected'',
     sc_secure = ''Secure'', sc_notSecure = ''Not secure''\<rparr>"

theorem secure_badge_truthful_witness:
  "\<exists>is u. rt_reach is u \<and> sc_secure sample_copy \<noteq> sc_notSecure sample_copy \<and>
     securityStatusText sample_copy (uiStatus (rt_state u)) \<noteq> sc_secure sample_copy"
proof -
  have n: "sc_secure sample_copy \<noteq> sc_notSecure sample_copy" by (simp add: sample_copy_def)
  have "last_load [SseMessage (ev 3 ''A'' ''m''), Unmount] = None" by (simp add: last_load_def)
  then have "securityStatusText sample_copy (uiStatus (rt_state
      (rt_handle (rt_handle (rt_mount rt_initial_ui) (SseMessage (ev 3 ''A'' ''m''))) Unmount)))
      \<noteq> sc_secure sample_copy"
    unfolding secure_badge_truthful [OF rt_reach_example n] by simp
  with n rt_reach_example show ?thesis by blast
qed

text \<open>The latest decision or failure that the debug panel shows is an event of one of the asked
  types, no other event of these types is newer, and none is shown only if there is none.\<close>

theorem latestByType_correct:
  fixes types
  defines "wanted \<equiv> \<lambda>e. to_upper (trim (ev_type e)) \<in> set (map (\<lambda>t. to_upper (trim t)) types)"
  shows "case latestByType events types of
      None \<Rightarrow> \<forall>e \<in> set events. \<not> wanted e
    | Some b \<Rightarrow> b \<in> set events \<and> wanted b \<and> (\<forall>e \<in> set events. wanted e \<longrightarrow> ev_timestamp e \<le> ev_timestamp b)"
proof (induction events rule: rev_induct)
  case Nil
  show ?case by (simp add: latestByType_def)
next
  case (snoc e es)
  have step: "latestByType (es @ [e]) types =
      (if \<not> wanted e then latestByType es types
       else (case latestByType es types of None \<Rightarrow> Some e
         | Some b \<Rightarrow> if ev_timestamp b < ev_timestamp e then Some e else latestByType es types))"
    by (simp add: latestByType_def wanted_def Let_def split: option.split)
  show ?case
    using snoc by (fastforce simp: step split: option.splits)
qed

theorem latestByType_correct_witness:
  "latestByType [ev 1 ''a'' ''x''] [''A''] \<noteq> None"
proof
  assume "latestByType [ev 1 ''a'' ''x''] [''A''] = None"
  with latestByType_correct [of "[ev 1 ''a'' ''x'']" "[''A'']"]
  have "to_upper (trim ''a'') \<noteq> to_upper (trim ''A'')" by (simp add: ev_def)
  then show False by code_simp
qed

end
