(* ===== verification/Live_Dashboard.thy ===== *)
theory Live_Dashboard
  imports Privacy_Filter Dashboard_Format
begin

text \<open>
  The state machine of the public dashboard (\<open>components/dashboard/LiveDashboard.tsx\<close>
  with the filters of \<open>DashboardFilters.tsx\<close>): the React state, the three refs
  (abort controller, event source, poll timer), the requests, streams and intervals that
  are alive in the browser, and every callback that changes them.

  A step is one input (a promise that settles, a stream message, a timer tick, a click)
  handled to the end, then React's re-render: when the dependencies of the effect have
  changed, its cleanup and body run, and again until they are stable (\<open>settle\<close>; two
  rounds are always enough). Requests, streams and intervals are numbered by a counter;
  a request that was aborted can only reject.
\<close>

section \<open>State\<close>

datatype live_mode = LAuto | LPoll | LOff

record filters_state =
  fl_privacyMode :: bool
  fl_showHelpers :: bool
  fl_showFlows :: bool
  fl_liveMode :: live_mode
  fl_timeWindow :: time_window
  fl_protocol :: "protocol_id option"
  fl_severity :: "activity_severity option"

datatype feed_mode = MPoll | MSse | MOff

record pending_fetch =
  pf_id :: nat
  pf_reason :: string
  pf_threshold :: real
  pf_aborted :: bool

record live_cfg =
  lc_view :: dashboard_view
  lc_stream :: bool       \<comment> \<open>\<open>canUseStream\<close>\<close>
  lc_snapshotUrl :: bool  \<comment> \<open>\<open>canUseSnapshotUrl\<close>\<close>
  lc_streamInit :: bool   \<comment> \<open>opening the stream does not throw\<close>

record live_ui =
  lv_filters :: filters_state
  lv_snapshot :: "dashboard_snapshot option"
  lv_status :: "feed_mode \<times> string"
  lv_error :: "string option"
  lv_selected :: "string option"
  lv_abortRef :: "nat option"
  lv_sseRef :: "nat option"
  lv_timerRef :: "nat option"
  lv_deps :: "(live_mode \<times> real) option"  \<comment> \<open>dependencies of the installed effect\<close>
  lv_mounted :: bool
  lv_fetches :: "pending_fetch list"
  lv_streams :: "nat list"
  lv_intervals :: "nat list"
  lv_next :: nat

definition initial_filters :: "dashboard_view \<Rightarrow> filters_state" where
  "initial_filters view =
     \<lparr>fl_privacyMode = True, fl_showHelpers = True, fl_showFlows = (view \<noteq> ViewIran),
      fl_liveMode = LAuto, fl_timeWindow = W1h, fl_protocol = None, fl_severity = None\<rparr>"

definition initial_ui :: "live_cfg \<Rightarrow> live_ui" where
  "initial_ui cfg =
     \<lparr>lv_filters = initial_filters (lc_view cfg), lv_snapshot = None, lv_status = (MOff, ''not connected''),
      lv_error = None, lv_selected = None, lv_abortRef = None, lv_sseRef = None, lv_timerRef = None,
      lv_deps = None, lv_mounted = True, lv_fetches = [], lv_streams = [], lv_intervals = [], lv_next = 0\<rparr>"

definition privacyThreshold :: "live_ui \<Rightarrow> real" where
  "privacyThreshold u = (case lv_snapshot u of None \<Rightarrow> 20 | Some s \<Rightarrow> s_privacyThreshold s)"

definition displaySnapshot :: "live_ui \<Rightarrow> dashboard_snapshot option" where
  "displaySnapshot u =
     map_option (\<lambda>snap. applyPrivacyFilter snap
        \<lparr>o_mode = (if fl_privacyMode (lv_filters u) then Public else Trusted),
         o_threshold = None, o_timeBucketSec = None\<rparr>) (lv_snapshot u)"

definition selectedRegion :: "live_ui \<Rightarrow> region_aggregate option" where
  "selectedRegion u =
     (case lv_selected u of
        None \<Rightarrow> None
      | Some name \<Rightarrow>
          if name = [] then None
          else Option.bind (displaySnapshot u) (\<lambda>d. find (\<lambda>r. r_countryName r = name) (s_regions d)))"

section \<open>The callbacks\<close>

definition abort_fetch :: "nat \<Rightarrow> pending_fetch list \<Rightarrow> pending_fetch list" where
  "abort_fetch i fs = map (\<lambda>f. if pf_id f = i then f\<lparr>pf_aborted := True\<rparr> else f) fs"

definition stopAll :: "live_ui \<Rightarrow> live_ui" where
  "stopAll u =
     (let u1 = (case lv_timerRef u of None \<Rightarrow> u
                | Some t \<Rightarrow> u\<lparr>lv_intervals := removeAll t (lv_intervals u), lv_timerRef := None\<rparr>);
          u2 = (case lv_abortRef u1 of None \<Rightarrow> u1
                | Some a \<Rightarrow> u1\<lparr>lv_fetches := abort_fetch a (lv_fetches u1), lv_abortRef := None\<rparr>)
      in case lv_sseRef u2 of None \<Rightarrow> u2
         | Some s \<Rightarrow> u2\<lparr>lv_streams := removeAll s (lv_streams u2), lv_sseRef := None\<rparr>)"

text \<open>\<open>loadOnce\<close> up to its first \<open>await\<close>; \<open>thr\<close> is the threshold of the closure.\<close>

definition loadOnce :: "live_cfg \<Rightarrow> real \<Rightarrow> string \<Rightarrow> live_ui \<Rightarrow> live_ui" where
  "loadOnce cfg thr reason u =
     (if \<not> lc_snapshotUrl cfg
      then u\<lparr>lv_error := Some ''snapshot url not configured'',
             lv_status := (MOff, ''no live feed configured''), lv_snapshot := None\<rparr>
      else let u1 = (case lv_abortRef u of None \<Rightarrow> u
                     | Some a \<Rightarrow> u\<lparr>lv_fetches := abort_fetch a (lv_fetches u)\<rparr>)
        in u1\<lparr>lv_abortRef := Some (lv_next u1),
              lv_fetches := lv_fetches u1 @
                [\<lparr>pf_id = lv_next u1, pf_reason = reason, pf_threshold = thr, pf_aborted = False\<rparr>],
              lv_next := Suc (lv_next u1)\<rparr>)"

definition startPoll :: "live_cfg \<Rightarrow> real \<Rightarrow> string \<Rightarrow> live_ui \<Rightarrow> live_ui" where
  "startPoll cfg thr reason u =
     (let u1 = loadOnce cfg thr reason u
      in u1\<lparr>lv_timerRef := Some (lv_next u1), lv_intervals := lv_intervals u1 @ [lv_next u1],
            lv_next := Suc (lv_next u1)\<rparr>)"

definition startSSE :: "live_cfg \<Rightarrow> real \<Rightarrow> string \<Rightarrow> live_ui \<Rightarrow> live_ui" where
  "startSSE cfg thr reason u =
     (if \<not> lc_stream cfg then startPoll cfg thr ''stream unavailable; polling'' u
      else if lc_streamInit cfg
      then u\<lparr>lv_sseRef := Some (lv_next u), lv_streams := lv_streams u @ [lv_next u],
             lv_next := Suc (lv_next u), lv_status := (MSse, reason)\<rparr>
      else startPoll cfg thr ''stream init failed; polling'' u)"

definition feed_effect :: "live_cfg \<Rightarrow> live_mode \<Rightarrow> real \<Rightarrow> live_ui \<Rightarrow> live_ui" where
  "feed_effect cfg mode thr u =
     (let u1 = (stopAll u)\<lparr>lv_error := None, lv_snapshot := None\<rparr> in
      case mode of
        LOff \<Rightarrow> u1\<lparr>lv_status := (MOff, ''live updates disabled'')\<rparr>
      | LPoll \<Rightarrow> startPoll cfg thr ''polling'' u1
      | LAuto \<Rightarrow>
          if lc_stream cfg then startSSE cfg thr ''streaming'' u1
          else if lc_snapshotUrl cfg then startPoll cfg thr ''polling'' u1
          else u1\<lparr>lv_status := (MOff, ''no live feed configured'')\<rparr>)"

text \<open>
  One commit of React: the effect of the last render with other dependencies is cleaned up
  (\<open>stopAll\<close>) and the new one runs.
\<close>

definition deps_of :: "live_ui \<Rightarrow> live_mode \<times> real" where
  "deps_of u = (fl_liveMode (lv_filters u), privacyThreshold u)"

definition commit :: "live_cfg \<Rightarrow> live_ui \<Rightarrow> live_ui" where
  "commit cfg u =
     (if lv_mounted u \<and> lv_deps u \<noteq> Some (deps_of u)
      then feed_effect cfg (fst (deps_of u)) (snd (deps_of u)) (stopAll (u\<lparr>lv_deps := Some (deps_of u)\<rparr>))
      else u)"

definition settle :: "live_cfg \<Rightarrow> live_ui \<Rightarrow> live_ui" where
  "settle cfg u = commit cfg (commit cfg u)"

datatype toggle = TPrivacy | THelpers | TFlows

fun toggleBool :: "toggle \<Rightarrow> filters_state \<Rightarrow> filters_state" where
  "toggleBool TPrivacy f = f\<lparr>fl_privacyMode := \<not> fl_privacyMode f\<rparr>"
| "toggleBool THelpers f = f\<lparr>fl_showHelpers := \<not> fl_showHelpers f\<rparr>"
| "toggleBool TFlows f = f\<lparr>fl_showFlows := \<not> fl_showFlows f\<rparr>"

datatype live_input =
    FetchOk nat dashboard_snapshot
  | FetchFail nat "string option"
  | StreamSnapshot nat dashboard_snapshot
  | StreamError nat
  | PollTick nat
  | Toggle toggle
  | SetTimeWindow time_window
  | SetProtocol "protocol_id option"
  | SetSeverity "activity_severity option"
  | SetLiveMode live_mode
  | SelectRegion string
  | LeavePage

definition set_filters :: "(filters_state \<Rightarrow> filters_state) \<Rightarrow> live_ui \<Rightarrow> live_ui" where
  "set_filters f u = u\<lparr>lv_filters := f (lv_filters u)\<rparr>"

definition drop_fetch :: "nat \<Rightarrow> live_ui \<Rightarrow> live_ui" where
  "drop_fetch i u = u\<lparr>lv_fetches := filter (\<lambda>f. pf_id f \<noteq> i) (lv_fetches u)\<rparr>"

definition fetch_reason :: "nat \<Rightarrow> live_ui \<Rightarrow> string" where
  "fetch_reason i u = (case find (\<lambda>f. pf_id f = i) (lv_fetches u) of None \<Rightarrow> [] | Some f \<Rightarrow> pf_reason f)"

definition when_mounted :: "(live_ui \<Rightarrow> live_ui) \<Rightarrow> live_ui \<Rightarrow> live_ui" where
  "when_mounted f u = (if lv_mounted u then f u else u)"

fun live_enabled :: "live_ui \<Rightarrow> live_input \<Rightarrow> bool" where
  "live_enabled u (FetchOk i _) \<longleftrightarrow> (\<exists>f \<in> set (lv_fetches u). pf_id f = i \<and> \<not> pf_aborted f)"
| "live_enabled u (FetchFail i _) \<longleftrightarrow> (\<exists>f \<in> set (lv_fetches u). pf_id f = i)"
| "live_enabled u (StreamSnapshot i _) \<longleftrightarrow> i \<in> set (lv_streams u)"
| "live_enabled u (StreamError i) \<longleftrightarrow> i \<in> set (lv_streams u)"
| "live_enabled u (PollTick i) \<longleftrightarrow> i \<in> set (lv_intervals u)"
| "live_enabled u _ \<longleftrightarrow> lv_mounted u"

definition effect_threshold :: "live_ui \<Rightarrow> real" where
  "effect_threshold u = (case lv_deps u of None \<Rightarrow> 20 | Some d \<Rightarrow> snd d)"

definition on_stream_error :: "live_cfg \<Rightarrow> live_ui \<Rightarrow> live_ui" where
  "on_stream_error cfg u =
     startPoll cfg (effect_threshold u) ''stream error; polling fallback''
       (case lv_sseRef u of None \<Rightarrow> u
        | Some s \<Rightarrow> u\<lparr>lv_streams := removeAll s (lv_streams u), lv_sseRef := None\<rparr>)"

fun live_handle :: "live_cfg \<Rightarrow> live_ui \<Rightarrow> live_input \<Rightarrow> live_ui" where
  "live_handle cfg u (FetchOk i snap) =
     when_mounted (\<lambda>v. v\<lparr>lv_snapshot := Some snap, lv_error := None,
       lv_status := (MPoll, fetch_reason i u)\<rparr>) (drop_fetch i u)"
| "live_handle cfg u (FetchFail i e) =
     when_mounted (\<lambda>v. v\<lparr>lv_error := Some (case e of None \<Rightarrow> ''snapshot fetch failed'' | Some m \<Rightarrow> m),
       lv_snapshot := None, lv_status := (MOff, ''live feed unavailable'')\<rparr>) (drop_fetch i u)"
| "live_handle cfg u (StreamSnapshot i snap) =
     when_mounted (\<lambda>v. v\<lparr>lv_snapshot := Some snap, lv_error := None\<rparr>) u"
| "live_handle cfg u (StreamError i) = on_stream_error cfg u"
| "live_handle cfg u (PollTick i) = loadOnce cfg (effect_threshold u) ''poll refresh'' u"
| "live_handle cfg u (Toggle k) = set_filters (toggleBool k) u"
| "live_handle cfg u (SetTimeWindow w) = set_filters (\<lambda>f. f\<lparr>fl_timeWindow := w\<rparr>) u"
| "live_handle cfg u (SetProtocol p) = set_filters (\<lambda>f. f\<lparr>fl_protocol := p\<rparr>) u"
| "live_handle cfg u (SetSeverity s) = set_filters (\<lambda>f. f\<lparr>fl_severity := s\<rparr>) u"
| "live_handle cfg u (SetLiveMode m) = set_filters (\<lambda>f. f\<lparr>fl_liveMode := m\<rparr>) u"
| "live_handle cfg u (SelectRegion name) = u\<lparr>lv_selected := Some name\<rparr>"
| "live_handle cfg u LeavePage = (stopAll u)\<lparr>lv_mounted := False\<rparr>"

inductive live_step :: "live_cfg \<Rightarrow> live_ui \<Rightarrow> live_input \<Rightarrow> live_ui \<Rightarrow> bool" where
  live_stepI: "live_enabled u i \<Longrightarrow> live_step cfg u i (settle cfg (live_handle cfg u i))"

inductive_simps live_step_iff: "live_step cfg u i v"

inductive live_reach :: "live_cfg \<Rightarrow> live_ui \<Rightarrow> bool" for cfg where
  live_start: "live_reach cfg (settle cfg (initial_ui cfg))"
| live_more: "live_reach cfg u \<Longrightarrow> live_step cfg u i v \<Longrightarrow> live_reach cfg v"

section \<open>Resources: what each callback keeps\<close>

definition opt_list :: "'a option \<Rightarrow> 'a list" where
  "opt_list x = (case x of None \<Rightarrow> [] | Some y \<Rightarrow> [y])"

lemma opt_list_simps [simp]: "opt_list None = []" "opt_list (Some y) = [y]"
  by (simp_all add: opt_list_def)

text \<open>
  The refs account for everything that is alive: the interval, the stream and the one
  request that is not aborted; an interval and a stream are never alive together.
\<close>

definition fetches_ok :: "nat option \<Rightarrow> nat \<Rightarrow> pending_fetch list \<Rightarrow> bool" where
  "fetches_ok a n fs \<longleftrightarrow>
     (\<forall>f \<in> set fs. (\<not> pf_aborted f \<longrightarrow> a = Some (pf_id f)) \<and> pf_id f < n) \<and>
     distinct (map pf_id fs) \<and> (\<forall>i. a = Some i \<longrightarrow> i < n)"

definition wired :: "live_ui \<Rightarrow> bool" where
  "wired u \<longleftrightarrow>
     lv_intervals u = opt_list (lv_timerRef u) \<and> lv_streams u = opt_list (lv_sseRef u) \<and>
     (lv_timerRef u = None \<or> lv_sseRef u = None) \<and>
     fetches_ok (lv_abortRef u) (lv_next u) (lv_fetches u)"

definition quiet :: "live_ui \<Rightarrow> bool" where
  "quiet u \<longleftrightarrow> lv_timerRef u = None \<and> lv_sseRef u = None \<and> lv_abortRef u = None"

lemma pf_id_abort [simp]: "map pf_id (abort_fetch i fs) = map pf_id fs"
  by (simp add: abort_fetch_def)

lemma fetches_ok_abort: "fetches_ok (Some i) n fs \<Longrightarrow> fetches_ok None n (abort_fetch i fs)"
  unfolding fetches_ok_def pf_id_abort by (auto simp: abort_fetch_def)

lemma fetches_ok_push:
  "fetches_ok None n fs \<Longrightarrow>
     fetches_ok (Some n) (Suc n) (fs @ [\<lparr>pf_id = n, pf_reason = r, pf_threshold = t, pf_aborted = False\<rparr>])"
  unfolding fetches_ok_def by (auto simp: less_Suc_eq)

lemma fetches_ok_mono: "fetches_ok a n fs \<Longrightarrow> n \<le> m \<Longrightarrow> fetches_ok a m fs"
  unfolding fetches_ok_def by force

lemma fetches_ok_drop: "fetches_ok a n fs \<Longrightarrow> fetches_ok a n (filter P fs)"
  unfolding fetches_ok_def by (auto simp: distinct_map_filter)

lemma stopAll_frame [simp]:
  "lv_filters (stopAll u) = lv_filters u" "lv_deps (stopAll u) = lv_deps u"
  "lv_mounted (stopAll u) = lv_mounted u" "lv_snapshot (stopAll u) = lv_snapshot u"
  "lv_next (stopAll u) = lv_next u" "lv_error (stopAll u) = lv_error u"
  by (simp_all add: stopAll_def Let_def split: option.splits)

lemma loadOnce_frame [simp]:
  "lv_filters (loadOnce cfg t r u) = lv_filters u" "lv_deps (loadOnce cfg t r u) = lv_deps u"
  "lv_mounted (loadOnce cfg t r u) = lv_mounted u" "lv_timerRef (loadOnce cfg t r u) = lv_timerRef u"
  "lv_sseRef (loadOnce cfg t r u) = lv_sseRef u" "lv_streams (loadOnce cfg t r u) = lv_streams u"
  "lv_intervals (loadOnce cfg t r u) = lv_intervals u"
  by (simp_all add: loadOnce_def Let_def split: option.splits)

lemma loadOnce_snapshot:
  "lv_snapshot (loadOnce cfg t r u) = (if lc_snapshotUrl cfg then lv_snapshot u else None)"
  by (simp add: loadOnce_def Let_def split: option.splits)

lemma startPoll_frame [simp]:
  "lv_filters (startPoll cfg t r u) = lv_filters u" "lv_deps (startPoll cfg t r u) = lv_deps u"
  "lv_mounted (startPoll cfg t r u) = lv_mounted u" "lv_sseRef (startPoll cfg t r u) = lv_sseRef u"
  "lv_snapshot (startPoll cfg t r u) = (if lc_snapshotUrl cfg then lv_snapshot u else None)"
  by (simp_all add: startPoll_def Let_def loadOnce_snapshot)

lemma startSSE_frame [simp]:
  "lv_filters (startSSE cfg t r u) = lv_filters u" "lv_deps (startSSE cfg t r u) = lv_deps u"
  "lv_mounted (startSSE cfg t r u) = lv_mounted u"
  by (simp_all add: startSSE_def)

lemma wired_stopAll:
  assumes "wired u"
  shows "wired (stopAll u) \<and> quiet (stopAll u)"
proof (cases "lv_abortRef u")
  case None
  with assms show ?thesis
    by (auto simp: wired_def quiet_def stopAll_def Let_def split: option.splits)
next
  case (Some i)
  then have "fetches_ok None (lv_next u) (abort_fetch i (lv_fetches u))"
    using assms by (intro fetches_ok_abort) (simp add: wired_def)
  with Some assms show ?thesis
    by (auto simp: wired_def quiet_def stopAll_def Let_def split: option.splits)
qed

lemma wired_loadOnce:
  assumes "wired u"
  shows "wired (loadOnce cfg t r u)"
proof (cases "lc_snapshotUrl cfg")
  case False
  with assms show ?thesis by (simp add: wired_def loadOnce_def)
next
  case True
  let ?fs = "case lv_abortRef u of None \<Rightarrow> lv_fetches u | Some a \<Rightarrow> abort_fetch a (lv_fetches u)"
  have "fetches_ok None (lv_next u) ?fs"
    using assms by (auto simp: wired_def split: option.split intro: fetches_ok_abort)
  from fetches_ok_push [OF this] True assms show ?thesis
    by (auto simp: wired_def loadOnce_def Let_def split: option.splits)
qed

lemma loadOnce_next: "lv_next u \<le> lv_next (loadOnce cfg t r u)"
  by (simp add: loadOnce_def Let_def split: option.split)

lemma wired_startPoll:
  assumes "wired u" and "lv_timerRef u = None" and "lv_sseRef u = None"
  shows "wired (startPoll cfg t r u)"
proof -
  have "wired (loadOnce cfg t r u)" by (rule wired_loadOnce) (rule assms(1))
  then have "fetches_ok (lv_abortRef (loadOnce cfg t r u)) (Suc (lv_next (loadOnce cfg t r u)))
      (lv_fetches (loadOnce cfg t r u))"
    by (auto simp: wired_def intro: fetches_ok_mono)
  with assms show ?thesis by (simp add: startPoll_def Let_def wired_def)
qed

lemma wired_startSSE:
  assumes "wired u" and "lv_timerRef u = None" and "lv_sseRef u = None"
  shows "wired (startSSE cfg t r u)"
proof -
  have "fetches_ok (lv_abortRef u) (Suc (lv_next u)) (lv_fetches u)"
    using assms(1) by (auto simp: wired_def intro: fetches_ok_mono)
  then have "lc_stream cfg \<Longrightarrow> lc_streamInit cfg \<Longrightarrow> ?thesis"
    using assms by (simp add: startSSE_def wired_def)
  moreover have "\<not> (lc_stream cfg \<and> lc_streamInit cfg) \<Longrightarrow> ?thesis"
    using wired_startPoll [OF assms] by (auto simp: startSSE_def)
  ultimately show ?thesis by blast
qed

lemma wired_update [simp]:
  "wired (u\<lparr>lv_error := e\<rparr>) = wired u" "wired (u\<lparr>lv_snapshot := s\<rparr>) = wired u"
  "wired (u\<lparr>lv_status := st\<rparr>) = wired u" "wired (u\<lparr>lv_deps := d\<rparr>) = wired u"
  "wired (u\<lparr>lv_mounted := b\<rparr>) = wired u" "wired (u\<lparr>lv_selected := n\<rparr>) = wired u"
  "wired (u\<lparr>lv_filters := f\<rparr>) = wired u"
  by (simp_all add: wired_def)

lemma quiet_update [simp]:
  "quiet (u\<lparr>lv_error := e\<rparr>) = quiet u" "quiet (u\<lparr>lv_snapshot := s\<rparr>) = quiet u"
  "quiet (u\<lparr>lv_status := st\<rparr>) = quiet u" "quiet (u\<lparr>lv_deps := d\<rparr>) = quiet u"
  "quiet (u\<lparr>lv_mounted := b\<rparr>) = quiet u"
  by (simp_all add: quiet_def)

lemma wired_feed_effect:
  assumes "wired u"
  shows "wired (feed_effect cfg m t u) \<and> (m = LOff \<longrightarrow> quiet (feed_effect cfg m t u))"
proof -
  let ?u = "(stopAll u)\<lparr>lv_error := None, lv_snapshot := None\<rparr>"
  have w: "wired ?u" and q: "quiet ?u" using wired_stopAll [OF assms] by simp_all
  then have n: "lv_timerRef ?u = None" "lv_sseRef ?u = None" by (simp_all add: quiet_def)
  show ?thesis
    using w q wired_startPoll [OF w n] wired_startSSE [OF w n]
    by (cases m) (simp_all add: feed_effect_def Let_def)
qed

lemma feed_effect_frame [simp]:
  "lv_filters (feed_effect cfg m t u) = lv_filters u" "lv_deps (feed_effect cfg m t u) = lv_deps u"
  "lv_mounted (feed_effect cfg m t u) = lv_mounted u" "lv_snapshot (feed_effect cfg m t u) = None"
  by (simp_all add: feed_effect_def Let_def startSSE_def split: live_mode.split)

section \<open>The effect settles\<close>

lemma commit_stable: "lv_deps u = Some (deps_of u) \<Longrightarrow> commit cfg u = u"
  by (simp add: commit_def)

lemma commit_unmounted: "\<not> lv_mounted u \<Longrightarrow> commit cfg u = u"
  by (simp add: commit_def)

lemma commit_frame [simp]:
  "lv_filters (commit cfg u) = lv_filters u" "lv_mounted (commit cfg u) = lv_mounted u"
  by (simp_all add: commit_def)

lemma commit_changed:
  assumes "lv_mounted u" and "lv_deps u \<noteq> Some (deps_of u)"
  shows "lv_snapshot (commit cfg u) = None \<and> lv_deps (commit cfg u) = Some (deps_of u) \<and>
    deps_of (commit cfg u) = (fl_liveMode (lv_filters u), 20)"
  using assms by (simp add: commit_def deps_of_def privacyThreshold_def)

text \<open>After two commits the dependencies are those of the installed effect.\<close>

lemma settle_stable:
  assumes "lv_mounted u"
  shows "lv_deps (settle cfg u) = Some (deps_of (settle cfg u))"
proof (cases "lv_deps u = Some (deps_of u)")
  case True
  then show ?thesis by (simp add: settle_def commit_stable)
next
  case False
  note c = commit_changed [OF assms False, of cfg]
  show ?thesis
  proof (cases "lv_deps (commit cfg u) = Some (deps_of (commit cfg u))")
    case True
    then show ?thesis by (simp add: settle_def commit_stable)
  next
    case f: False
    from assms have m: "lv_mounted (commit cfg u)" by simp
    from commit_changed [OF m f, of cfg] c show ?thesis by (simp add: settle_def)
  qed
qed

lemma settle_third_commit: "commit cfg (settle cfg u) = settle cfg u"
proof (cases "lv_mounted u")
  case True
  then show ?thesis by (intro commit_stable settle_stable)
next
  case False
  then show ?thesis by (simp add: settle_def commit_unmounted)
qed

text \<open>The thresholds the effect settles on: always the default.\<close>

lemma settle_threshold:
  assumes "lv_mounted u" and "lv_deps u = None \<or> (\<exists>m. lv_deps u = Some (m, 20))"
    and "lv_deps u = None \<longrightarrow> lv_snapshot u = None"
  shows "lv_deps (settle cfg u) = Some (fl_liveMode (lv_filters u), 20)"
proof (cases "lv_deps u = Some (deps_of u)")
  case True
  with assms show ?thesis by (auto simp: settle_def commit_stable deps_of_def)
next
  case False
  note c = commit_changed [OF assms(1) False, of cfg]
  show ?thesis
  proof (cases "lv_deps (commit cfg u) = Some (deps_of (commit cfg u))")
    case True
    with c show ?thesis by (auto simp: settle_def commit_stable)
  next
    case f: False
    from assms have m: "lv_mounted (commit cfg u)" by simp
    from commit_changed [OF m f, of cfg] c show ?thesis by (simp add: settle_def)
  qed
qed

lemma wired_commit: "wired u \<Longrightarrow> wired (commit cfg u)"
  using wired_feed_effect wired_stopAll by (simp add: commit_def)

lemma wired_settle: "wired u \<Longrightarrow> wired (settle cfg u)"
  by (simp add: settle_def wired_commit)

lemma settle_frame [simp]:
  "lv_filters (settle cfg u) = lv_filters u" "lv_mounted (settle cfg u) = lv_mounted u"
  by (simp_all add: settle_def)

section \<open>The invariant\<close>

text \<open>
  In a settled state the refs are in order, a mounted page runs the effect for its live
  mode and the default threshold, and a page that is off or left has nothing alive.
\<close>

definition live_inv :: "live_ui \<Rightarrow> bool" where
  "live_inv u \<longleftrightarrow>
     wired u \<and>
     (lv_mounted u \<longrightarrow> lv_deps u = Some (deps_of u) \<and> privacyThreshold u = 20) \<and>
     (\<not> lv_mounted u \<or> fl_liveMode (lv_filters u) = LOff \<longrightarrow> quiet u)"

lemma quiet_commit:
  assumes "wired u" and "fl_liveMode (lv_filters u) = LOff" and "lv_deps u = Some (deps_of u) \<longrightarrow> quiet u"
    and "lv_mounted u"
  shows "quiet (commit cfg u)"
  using assms wired_feed_effect wired_stopAll by (simp add: commit_def deps_of_def)

lemma live_inv_settle:
  assumes w: "wired u"
    and m: "lv_mounted u \<Longrightarrow> (lv_deps u = None \<and> lv_snapshot u = None) \<or> (\<exists>l. lv_deps u = Some (l, 20))"
    and q: "lv_mounted u \<Longrightarrow> fl_liveMode (lv_filters u) = LOff \<Longrightarrow> lv_deps u = Some (LOff, 20) \<Longrightarrow> quiet u"
    and n: "\<not> lv_mounted u \<Longrightarrow> quiet u"
  shows "live_inv (settle cfg u)"
proof (cases "lv_mounted u")
  case False
  then show ?thesis using w n by (simp add: live_inv_def settle_def commit_unmounted)
next
  case True
  have d: "lv_deps (settle cfg u) = Some (deps_of (settle cfg u))" using True by (rule settle_stable)
  have t: "lv_deps (settle cfg u) = Some (fl_liveMode (lv_filters u), 20)"
    using m [OF True] by (intro settle_threshold True) auto
  from d t have th: "privacyThreshold (settle cfg u) = 20" by (simp add: deps_of_def)
  have "quiet (settle cfg u)" if off: "fl_liveMode (lv_filters u) = LOff"
  proof -
    have "lv_deps u = Some (deps_of u) \<longrightarrow> quiet u"
      using q [OF True off] m [OF True] off by (auto simp: deps_of_def)
    then have q1: "quiet (commit cfg u)" using w off True by (intro quiet_commit)
    show ?thesis unfolding settle_def
      using wired_commit [OF w] off True q1 by (intro quiet_commit) simp_all
  qed
  with True wired_settle [OF w] d th show ?thesis by (simp add: live_inv_def)
qed

lemma live_inv_start: "live_inv (settle cfg (initial_ui cfg))"
  by (rule live_inv_settle) (simp_all add: initial_ui_def wired_def fetches_ok_def initial_filters_def)

lemma wired_drop_fetch: "wired u \<Longrightarrow> wired (drop_fetch i u)"
  by (simp add: wired_def drop_fetch_def fetches_ok_drop)

lemma wired_handle: "wired u \<Longrightarrow> live_enabled u i \<Longrightarrow> wired (live_handle cfg u i)"
proof (cases i)
  case (StreamError s)
  assume w: "wired u" and "live_enabled u i"
  with StreamError have s: "lv_sseRef u \<noteq> None"
    by (cases "lv_sseRef u") (auto simp: wired_def)
  with w have "wired (u\<lparr>lv_streams := removeAll (the (lv_sseRef u)) (lv_streams u), lv_sseRef := None\<rparr>)"
    by (auto simp: wired_def)
  with s w StreamError show ?thesis
    by (auto simp: on_stream_error_def wired_def [of u] intro!: wired_startPoll)
qed (auto simp: when_mounted_def wired_drop_fetch wired_loadOnce set_filters_def wired_stopAll)

lemma handle_frame:
  "lv_deps (live_handle cfg u i) = lv_deps u"
  "lv_mounted (live_handle cfg u i) = (lv_mounted u \<and> i \<noteq> LeavePage)"
  by (cases i; auto simp: when_mounted_def drop_fetch_def on_stream_error_def set_filters_def
      split: option.split)+

lemma live_inv_step:
  assumes inv: "live_inv u" and step: "live_step cfg u i v"
  shows "live_inv v"
proof -
  from step have v: "v = settle cfg (live_handle cfg u i)" and e: "live_enabled u i"
    by (simp_all add: live_step_iff)
  from inv have w: "wired u" by (simp add: live_inv_def)
  let ?h = "live_handle cfg u i"
  have un: "\<not> lv_mounted u \<Longrightarrow> quiet ?h"
    using inv e by (cases i)
      (auto simp: live_inv_def wired_def quiet_def fetches_ok_def when_mounted_def drop_fetch_def)
  show ?thesis unfolding v
  proof (rule live_inv_settle)
    show "wired ?h" using w e by (rule wired_handle)
    show "(lv_deps ?h = None \<and> lv_snapshot ?h = None) \<or> (\<exists>l. lv_deps ?h = Some (l, 20))" if "lv_mounted ?h"
      using inv that by (auto simp: live_inv_def handle_frame deps_of_def)
    show "quiet ?h" if "lv_mounted ?h" "fl_liveMode (lv_filters ?h) = LOff" "lv_deps ?h = Some (LOff, 20)"
    proof -
      from that inv have off: "fl_liveMode (lv_filters u) = LOff" "quiet u" "lv_mounted u"
        by (auto simp: live_inv_def handle_frame deps_of_def)
      with e w that show ?thesis
        by (cases i) (auto simp: wired_def quiet_def fetches_ok_def when_mounted_def drop_fetch_def set_filters_def)
    qed
    show "quiet ?h" if "\<not> lv_mounted ?h"
    proof (cases "lv_mounted u")
      case True
      with that have "i = LeavePage" by (simp add: handle_frame)
      then show ?thesis using wired_stopAll [OF w] by simp
    next
      case False
      then show ?thesis by (rule un)
    qed
  qed
qed

lemma live_reach_inv: "live_reach cfg u \<Longrightarrow> live_inv u"
  by (induction rule: live_reach.induct) (auto intro: live_inv_start live_inv_step)

section \<open>Example runs\<close>

definition poll_cfg :: live_cfg where
  "poll_cfg = \<lparr>lc_view = ViewGlobal, lc_stream = False, lc_snapshotUrl = True, lc_streamInit = True\<rparr>"

definition start_ui :: live_ui where
  "start_ui = settle poll_cfg (initial_ui poll_cfg)"

lemmas run_simps =
  settle_def commit_def feed_effect_def startPoll_def startSSE_def loadOnce_def stopAll_def
  deps_of_def privacyThreshold_def initial_ui_def initial_filters_def poll_cfg_def Let_def
  abort_fetch_def when_mounted_def drop_fetch_def set_filters_def fetch_reason_def

lemma start_reach: "live_reach poll_cfg start_ui"
  unfolding start_ui_def by (rule live_start)

lemma live_reach_inputI:
  "live_reach cfg u \<Longrightarrow> live_enabled u i \<Longrightarrow> live_reach cfg (settle cfg (live_handle cfg u i))"
  by (rule live_more) (simp_all add: live_step_iff)

lemma start_fetch: "lv_fetches start_ui =
    [\<lparr>pf_id = 0, pf_reason = ''polling'', pf_threshold = 20, pf_aborted = False\<rparr>]"
  by (simp add: start_ui_def run_simps)

lemma start_mounted: "lv_mounted start_ui"
  by (simp add: start_ui_def initial_ui_def)

definition shown_ui :: live_ui where
  "shown_ui = settle poll_cfg (live_handle poll_cfg start_ui (FetchOk 0 sample_snapshot))"

lemma shown_reach: "live_reach poll_cfg shown_ui"
  unfolding shown_ui_def by (rule live_reach_inputI) (simp_all add: start_reach start_fetch)

lemma shown_snapshot: "lv_snapshot shown_ui = Some sample_snapshot" "lv_mounted shown_ui"
    "lv_filters shown_ui = initial_filters ViewGlobal"
  by (simp_all add: shown_ui_def start_ui_def run_simps sample_snapshot_def)

section \<open>Properties\<close>

text \<open>C6: in every reachable state at most one feed is alive: at most one poll timer, at most one
  event stream, never both, and at most one request that is not aborted, the one the abort ref
  can still cancel; with live updates off, and after the page is left, none is.\<close>

theorem live_feed_exclusive:
  assumes "live_reach cfg u"
  shows "length (lv_intervals u) \<le> 1 \<and> length (lv_streams u) \<le> 1 \<and>
    (lv_intervals u = [] \<or> lv_streams u = []) \<and>
    (\<forall>f \<in> set (lv_fetches u). \<not> pf_aborted f \<longrightarrow> lv_abortRef u = Some (pf_id f)) \<and>
    (\<not> lv_mounted u \<or> fl_liveMode (lv_filters u) = LOff \<longrightarrow>
       lv_intervals u = [] \<and> lv_streams u = [] \<and> (\<forall>f \<in> set (lv_fetches u). pf_aborted f))"
proof -
  from live_reach_inv [OF assms] have inv: "live_inv u" .
  then have w: "wired u" by (simp add: live_inv_def)
  then have "length (lv_intervals u) \<le> 1" "length (lv_streams u) \<le> 1" "lv_intervals u = [] \<or> lv_streams u = []"
    by (auto simp: wired_def opt_list_def split: option.splits)
  moreover have "\<forall>f \<in> set (lv_fetches u). \<not> pf_aborted f \<longrightarrow> lv_abortRef u = Some (pf_id f)"
    using w by (simp add: wired_def fetches_ok_def)
  moreover have "lv_intervals u = [] \<and> lv_streams u = [] \<and> (\<forall>f \<in> set (lv_fetches u). pf_aborted f)"
    if "\<not> lv_mounted u \<or> fl_liveMode (lv_filters u) = LOff"
    using inv that calculation(4) by (auto simp: live_inv_def quiet_def wired_def)
  ultimately show ?thesis by blast
qed

theorem live_feed_exclusive_witness:
  "live_reach poll_cfg start_ui \<and> length (lv_intervals start_ui) \<le> 1 \<and> lv_fetches start_ui \<noteq> []"
  using start_reach live_feed_exclusive [OF start_reach] by (simp add: start_fetch)




text \<open>A request that was aborted still reports its rejection, so it overwrites the state of
  whatever replaced it: a page on which the visitor has just turned live updates off, with nothing
  alive any more, can end up showing the error of the aborted request and the note that the
  live feed is unavailable instead of live updates disabled.\<close>

theorem aborted_request_overwrites_status:
  "\<exists>u. live_reach poll_cfg u \<and> fl_liveMode (lv_filters u) = LOff \<and> lv_intervals u = [] \<and>
     lv_error u = Some ''The operation was aborted.'' \<and> lv_status u = (MOff, ''live feed unavailable'')"
proof -
  define off where "off = settle poll_cfg (live_handle poll_cfg start_ui (SetLiveMode LOff))"
  have off: "live_reach poll_cfg off"
    unfolding off_def by (rule live_reach_inputI) (simp_all add: start_reach start_mounted)
  have f: "\<exists>f \<in> set (lv_fetches off). pf_id f = 0"
    by (simp add: off_def start_ui_def run_simps)
  let ?i = "FetchFail 0 (Some ''The operation was aborted.'')"
  define w where "w = settle poll_cfg (live_handle poll_cfg off ?i)"
  have "live_reach poll_cfg w"
    unfolding w_def using off f by (intro live_reach_inputI) simp_all
  moreover have "fl_liveMode (lv_filters w) = LOff \<and> lv_intervals w = [] \<and>
     lv_error w = Some ''The operation was aborted.'' \<and> lv_status w = (MOff, ''live feed unavailable'')"
    by (simp add: w_def off_def start_ui_def run_simps)
  ultimately show ?thesis by blast
qed



end
