(* ===== verification/Elements.thy ===== *)
theory Elements
  imports Js_Prelude
begin

text \<open>
  The trees of elements that the components of the site return. An element has its tag,
  the attributes that depend on data or carry behaviour (links, identifiers, colours,
  styles, chosen classes) and its children; constant class names are left out, and a child
  that is \<open>null\<close> is no child. A non-ASCII character is the list of its UTF-8 bytes; white
  space that JSX collapses is collapsed. Handlers are the transitions of the state machines,
  not part of the tree. The reading functions \<open>hrefs\<close>, \<open>saves\<close> and
  \<open>anchor_ids\<close> collect what a visitor can follow.
\<close>

section \<open>Elements\<close>

datatype node = Elem string "(string \<times> string) list" "node list" | Text string

abbreviation dv :: "node list \<Rightarrow> node" where "dv cs \<equiv> Elem ''div'' [] cs"
abbreviation sp :: "node list \<Rightarrow> node" where "sp cs \<equiv> Elem ''span'' [] cs"

definition bullet :: string where "bullet = utf8 [32, 226, 128, 162, 32]"
definition dash :: string where "dash = utf8 [226, 128, 148]"
definition geq_sign :: string where "geq_sign = utf8 [226, 137, 165]"

definition labelled :: "string \<Rightarrow> string \<Rightarrow> node" where
  "labelled name value = dv [dv [Text name], dv [Text value]]"

definition coloured :: "string \<Rightarrow> string \<Rightarrow> node" where
  "coloured colour text = Elem ''div'' [(''style.color'', colour)] [Text text]"

definition dot :: "string \<Rightarrow> node" where
  "dot colour = Elem ''span'' [(''style.backgroundColor'', colour)] []"

definition when_some :: "('a \<Rightarrow> node) \<Rightarrow> 'a option \<Rightarrow> node list" where
  "when_some f x = (case x of None \<Rightarrow> [] | Some y \<Rightarrow> [f y])"

text \<open>Links of the router, plain anchors, and anchors that save what they point to.\<close>

definition route_link :: "string \<Rightarrow> node list \<Rightarrow> node" where
  "route_link href cs = Elem ''a'' [(''href'', href)] cs"

definition save_link :: "string \<Rightarrow> node list \<Rightarrow> node" where
  "save_link href cs = Elem ''a'' [(''href'', href), (''download'', [])] cs"

definition new_tab_link :: "string \<Rightarrow> string \<Rightarrow> node list \<Rightarrow> node" where
  "new_tab_link rel href cs = Elem ''a'' [(''href'', href), (''target'', ''_blank''), (''rel'', rel)] cs"

text \<open>\<open>{text ? <div>{text}</div> : null}\<close> for a text or a list of children.\<close>

definition when_filled :: "(node list \<Rightarrow> node) \<Rightarrow> node list \<Rightarrow> node list" where
  "when_filled f cs = (if cs = [] then [] else [f cs])"

definition text_of :: "string \<Rightarrow> node list" where
  "text_of s = (if s = [] then [] else [Text s])"

section \<open>Reading a tree\<close>

text \<open>All elements with their attributes, in document order.\<close>

fun elements :: "node \<Rightarrow> (string \<times> (string \<times> string) list) list" where
  "elements (Text s) = []"
| "elements (Elem tag attrs cs) = (tag, attrs) # concat (map elements cs)"

definition attr_values :: "string \<Rightarrow> node \<Rightarrow> string list" where
  "attr_values a n = List.map_filter (\<lambda>e. map_of (snd e) a) (elements n)"

definition hrefs :: "node \<Rightarrow> string list" where
  "hrefs n = attr_values ''href'' n"

definition anchor_ids :: "node \<Rightarrow> string list" where
  "anchor_ids n = attr_values ''id'' n"

definition saves :: "node \<Rightarrow> string list" where
  "saves n =
     List.map_filter (\<lambda>e. if map_of (snd e) ''download'' = None then None else map_of (snd e) ''href'') (elements n)"

definition all_hrefs :: "node list \<Rightarrow> string list" where
  "all_hrefs ns = concat (map hrefs ns)"

definition all_saves :: "node list \<Rightarrow> string list" where
  "all_saves ns = concat (map saves ns)"

definition all_ids :: "node list \<Rightarrow> string list" where
  "all_ids ns = concat (map anchor_ids ns)"

lemma attr_values_concat:
  "List.map_filter f (concat (map elements cs)) = concat (map (\<lambda>n. List.map_filter f (elements n)) cs)"
  by (induction cs) (simp_all add: map_filter_def)

lemma hrefs_simps [simp]:
  "hrefs (Text s) = []"
  "hrefs (Elem t a cs) = (case map_of a ''href'' of None \<Rightarrow> [] | Some h \<Rightarrow> [h]) @ all_hrefs cs"
  by (simp_all add: hrefs_def [abs_def] all_hrefs_def attr_values_def map_filter_simps attr_values_concat split: option.split)

lemma anchor_ids_simps [simp]:
  "anchor_ids (Text s) = []"
  "anchor_ids (Elem t a cs) = (case map_of a ''id'' of None \<Rightarrow> [] | Some h \<Rightarrow> [h]) @ all_ids cs"
  by (simp_all add: anchor_ids_def [abs_def] all_ids_def attr_values_def map_filter_simps attr_values_concat split: option.split)

lemma saves_simps [simp]:
  "saves (Text s) = []"
  "saves (Elem t a cs) =
     (if map_of a ''download'' = None then [] else case map_of a ''href'' of None \<Rightarrow> [] | Some h \<Rightarrow> [h]) @ all_saves cs"
  by (simp_all add: saves_def [abs_def] all_saves_def map_filter_simps attr_values_concat split: option.split)

lemma all_hrefs_simps [simp]:
  "all_hrefs [] = []" "all_hrefs (n # ns) = hrefs n @ all_hrefs ns" "all_hrefs (ns @ ms) = all_hrefs ns @ all_hrefs ms"
  by (simp_all add: all_hrefs_def)

lemma all_saves_simps [simp]:
  "all_saves [] = []" "all_saves (n # ns) = saves n @ all_saves ns"
  "all_saves (ns @ ms) = all_saves ns @ all_saves ms"
  by (simp_all add: all_saves_def)

lemma all_ids_simps [simp]:
  "all_ids [] = []" "all_ids (n # ns) = anchor_ids n @ all_ids ns" "all_ids (ns @ ms) = all_ids ns @ all_ids ms"
  by (simp_all add: all_ids_def)

lemma all_hrefs_map: "set (all_hrefs (map f xs)) = (\<Union>x \<in> set xs. set (hrefs (f x)))"
  by (auto simp: all_hrefs_def)

lemma all_saves_map: "set (all_saves (map f xs)) = (\<Union>x \<in> set xs. set (saves (f x)))"
  by (auto simp: all_saves_def)

lemma link_reads [simp]:
  "hrefs (route_link h cs) = h # all_hrefs cs" "hrefs (save_link h cs) = h # all_hrefs cs"
  "hrefs (new_tab_link r h cs) = h # all_hrefs cs"
  "saves (route_link h cs) = all_saves cs" "saves (save_link h cs) = h # all_saves cs"
  "saves (new_tab_link r h cs) = all_saves cs"
  "anchor_ids (route_link h cs) = all_ids cs" "anchor_ids (save_link h cs) = all_ids cs"
  "anchor_ids (new_tab_link r h cs) = all_ids cs"
  by (simp_all add: route_link_def save_link_def new_tab_link_def)

lemma when_filled_reads [simp]:
  "(\<And>cs. hrefs (f cs) = all_hrefs cs) \<Longrightarrow> all_hrefs (when_filled f cs) = all_hrefs cs"
  "(\<And>cs. saves (f cs) = all_saves cs) \<Longrightarrow> all_saves (when_filled f cs) = all_saves cs"
  "(\<And>cs. anchor_ids (f cs) = all_ids cs) \<Longrightarrow> all_ids (when_filled f cs) = all_ids cs"
  by (auto simp: when_filled_def)

lemma text_of_reads [simp]: "all_hrefs (text_of s) = []" "all_saves (text_of s) = []" "all_ids (text_of s) = []"
  by (simp_all add: text_of_def)

text \<open>Every link that saves is a link.\<close>

lemma saves_hrefs: "set (saves n) \<subseteq> set (hrefs n)"
proof
  fix h assume "h \<in> set (saves n)"
  then obtain e where "e \<in> set (elements n)" "map_of (snd e) ''href'' = Some h"
    by (auto simp: saves_def map_filter_def split: if_splits)
  then show "h \<in> set (hrefs n)" by (force simp: hrefs_def attr_values_def map_filter_def)
qed

lemma when_some_reads [simp]:
  "all_hrefs (when_some f x) = (case x of None \<Rightarrow> [] | Some y \<Rightarrow> hrefs (f y))"
  "all_saves (when_some f x) = (case x of None \<Rightarrow> [] | Some y \<Rightarrow> saves (f y))"
  "all_ids (when_some f x) = (case x of None \<Rightarrow> [] | Some y \<Rightarrow> anchor_ids (f y))"
  by (simp_all add: when_some_def split: option.split)

text \<open>Lists of elements of one kind that nobody can follow.\<close>

lemma inert_reads:
  "(\<And>x. hrefs (f x) = []) \<Longrightarrow> all_hrefs (map f xs) = []"
  "(\<And>x. saves (f x) = []) \<Longrightarrow> all_saves (map f xs) = []"
  "(\<And>x. anchor_ids (f x) = []) \<Longrightarrow> all_ids (map f xs) = []"
  by (simp_all add: all_hrefs_def all_saves_def all_ids_def)

end
