(* ===== verification/Dashboard_Views.thy ===== *)
theory Dashboard_Views
  imports Elements Live_Dashboard Runtime_Events
begin

text \<open>
  What the dashboard components render: for every component under \<open>components/dashboard\<close>
  the function from its props to the tree of elements (\<open>Elements\<close>) it returns. \<open>toLocaleString\<close> and
  \<open>JSON.stringify\<close> are the parameters \<open>loc\<close> and \<open>stringify\<close>; the clock is
  \<open>now\<close>. Handlers are the transitions of the state machines, not part of the tree.
\<close>

section \<open>Cards of the public dashboard\<close>

definition protocol_text :: "protocol_id \<Rightarrow> string" where
  "protocol_text p = protocol_key p"

definition summary_card :: "string \<Rightarrow> string \<Rightarrow> string \<Rightarrow> node" where
  "summary_card title value sub = dv [dv [Text title], dv [Text value], dv [Text sub]]"

definition SummaryCards :: "int \<Rightarrow> dashboard_snapshot \<Rightarrow> node" where
  "SummaryCards now snap =
     (let fresh = freshnessLabel now (s_generatedAtUnix snap) in
      dv [dv [dv [Text ''Freshness''],
              dv [Elem ''div'' [(''class'', snd fresh)] [Text (fst fresh)],
                  dv [Text (formatUnixAgo now (s_generatedAtUnix snap))]]],
          summary_card ''Network health''
            (show_int (js_round (in_protocolSurvivalRate (s_inside snap) * 100)) @ ''%'') ''aggregate survival rate'',
          summary_card ''Blocked regions'' (show_nat (blockedCount snap)) ''blocked + unstable'',
          summary_card ''Helper zones'' (show_nat (helperUp snap)) ''availability up'',
          summary_card ''Protocol leader'' (protocol_text (protocolLeader snap)) ''highest success rate''])"

definition activity_entry :: "int \<Rightarrow> activity_item \<Rightarrow> node" where
  "activity_entry now a =
     dv ([dv [dv [dot (severityColor (a_severity a)), dv [Text (a_message a)]],
              dv [Text (formatUnixAgo now (a_tsUnix a))]]] @
         (case a_regionLabel a of None \<Rightarrow> [] | Some l \<Rightarrow> if l = [] then [] else [dv [Text l]]))"

definition ActivityFeed :: "int \<Rightarrow> dashboard_snapshot \<Rightarrow> activity_severity option \<Rightarrow> time_window \<Rightarrow> node" where
  "ActivityFeed now snap severity win =
     (let items = activity_items now severity win (s_activity snap) in
      dv [dv [dv [Text ''Activity''], dv [Text (formatUnixAgo now (s_generatedAtUnix snap))]],
          dv (if items = [] then [dv [Text ''No activity.'']] else map (activity_entry now) items)])"

definition helper_entry :: "int \<Rightarrow> helper_node \<Rightarrow> node" where
  "helper_entry now n =
     dv [dv [dv [Text (hn_label n)], dv [Text (hn_regionLabel n)]],
         dv [dot (helperColor (hn_availability n)), sp [Text (formatUnixAgo now (hn_lastUpdateUnix n))]]]"

definition HelperNodePanel :: "int \<Rightarrow> dashboard_snapshot \<Rightarrow> node" where
  "HelperNodePanel now snap =
     dv [dv [dv [Text ''Helper Nodes''],
             dv [Text ''updated '', Text (formatUnixAgo now (out_lastUpdateUnix (s_outside snap)))]],
         dv [Text ''Markers are helper clusters or relay zones. No user locations.''],
         dv (if s_helperNodes snap = [] then [dv [Text ''No helper nodes.'']]
             else map (helper_entry now) (s_helperNodes snap))]"

definition MeshActivityCard :: "(real \<Rightarrow> string) \<Rightarrow> int \<Rightarrow> dashboard_snapshot \<Rightarrow> node" where
  "MeshActivityCard loc now snap =
     (let i = s_inside snap in
      dv [dv [dv [Text ''Inside Signals''], dv [Text ''updated '', Text (formatUnixAgo now (in_lastUpdateUnix i))]],
          dv [labelled ''Active'' (loc (in_activeInstallations i)),
              labelled ''Blackout'' (formatPercent (in_blackoutProbability i)),
              labelled ''Survival'' (formatPercent (in_protocolSurvivalRate i)),
              labelled ''Mesh'' (formatPercent (in_meshActivityScore i))],
          dv [dv [sp [Text ''Seed adoption''], sp [Text (formatPercent (in_seedAdoptionRate i))]],
              dv [Elem ''div'' [(''style.width'', show_int (js_round (in_seedAdoptionRate i * 100)) @ ''%'')] []]]])"

definition protocol_entry :: "protocol_health \<Rightarrow> node" where
  "protocol_entry p =
     dv [dv [dv [Text (protocolLabel (ph_protocol p))],
             coloured (tierColor (ph_recommendationTier p)) (tierLabel (ph_recommendationTier p))],
         dv [labelled ''Success'' (formatPercent (ph_successRate p)),
             dv [dv [Text ''Trend''],
                 dv [Text (if 0 < ph_failureTrend p then ''+'' else []), Text (to_fixed 2 (ph_failureTrend p))]],
             labelled ''Cooldown'' (formatPercent (ph_cooldownRate p))]]"

definition ProtocolHealthPanelInner :: "int \<Rightarrow> dashboard_snapshot \<Rightarrow> protocol_id option \<Rightarrow> node" where
  "ProtocolHealthPanelInner now snap protocol =
     (let items = (case protocol of None \<Rightarrow> s_protocols snap
                   | Some k \<Rightarrow> filter (\<lambda>p. ph_protocol p = k) (s_protocols snap)) in
      dv [dv [dv [Text ''Protocol Health''],
              dv [Text ''updated '', Text (formatUnixAgo now (s_generatedAtUnix snap))]],
          dv (map protocol_entry items)])"

definition ProtocolHealthPanel :: "int \<Rightarrow> dashboard_snapshot \<Rightarrow> node" where
  "ProtocolHealthPanel now snap = ProtocolHealthPanelInner now snap None"

definition platform_entry :: "string \<times> bool \<Rightarrow> node" where
  "platform_entry kv =
     dv [sp [Text (fst kv)],
         Elem ''span'' [(''class'', if snd kv then ''text-emerald-400'' else ''text-red-400'')]
           [Text (if snd kv then ''ok'' else ''missing'')]]"

definition platform_entries :: "platform_artifacts \<Rightarrow> (string \<times> bool) list" where
  "platform_entries p =
     [(''android'', pa_android p), (''linux'', pa_linux p), (''windows'', pa_windows p), (''macos'', pa_macos p)]"

definition ReleaseHealthCard :: "int \<Rightarrow> dashboard_snapshot \<Rightarrow> node" where
  "ReleaseHealthCard now snap =
     (let r = s_release snap in
      dv [dv [dv [Text ''Release Health''], dv [Text ''updated '', Text (formatUnixAgo now (rh_lastUpdateUnix r))]],
          dv [labelled ''Latest'' (rh_latestVersion r),
              labelled ''Signature'' (signature_name (rh_signatureStatus r)),
              labelled ''Manifest Age'' (show_int (js_round (rh_manifestFreshnessSec r / 60)) @ ''m''),
              labelled ''Downloads''
                (case rh_installerDownloads24h r of None \<Rightarrow> ''n/a'' | Some n \<Rightarrow> formatCompactNumber n)],
          dv [dv [Text ''Artifacts''], dv (map platform_entry (platform_entries (rh_platformArtifacts r)))]])"

definition mix_entry :: "protocol_id \<times> real \<Rightarrow> node" where
  "mix_entry m = sp [Text (protocol_key (fst m)), Text '':'', Text (formatPercent (snd m))]"

definition RegionDetailCard :: "int \<Rightarrow> region_aggregate option \<Rightarrow> node" where
  "RegionDetailCard now region =
     (case region of
        None \<Rightarrow> dv [dv [Text ''Region Details''],
                    dv [Text ''Select a region on the map to inspect aggregate metrics.'']]
      | Some r \<Rightarrow>
          let mix = top_mix 5 (r_protocolMix r) in
          dv [dv [dv [Text (r_countryName r)], coloured (status_color (r_status r)) (status_label (r_status r))],
              dv [labelled ''Config success'' (formatPercent (r_configSuccessRate r)),
                  labelled ''Change rate'' (formatPercent (r_recentChangeRate r))],
              dv [dv [Text ''Protocol mix''],
                  dv (if mix = [] then [sp [Text ''suppressed by privacy mode'']] else map mix_entry mix)],
              dv [sp [Text ''Last update''], sp [Text (formatUnixAgo now (r_lastUpdateUnix r))]],
              dv [Text ''Sample count is not shown here in public mode. Regions below the privacy threshold are redacted.'']])"

definition StatusLegend :: node where
  "StatusLegend =
     dv [dv [Text ''Status''],
         dv (map (\<lambda>s. dv [dot (status_color s), sp [Text (status_label s)]]) all_status),
         dv [Text ''Regions below privacy threshold are shown as Unknown.'']]"

section \<open>Filters\<close>

definition window_name :: "time_window \<Rightarrow> string" where
  "window_name w = (case w of W15m \<Rightarrow> ''15m'' | W1h \<Rightarrow> ''1h'' | W24h \<Rightarrow> ''24h'')"

definition live_mode_name :: "live_mode \<Rightarrow> string" where
  "live_mode_name m = (case m of LAuto \<Rightarrow> ''auto'' | LPoll \<Rightarrow> ''poll'' | LOff \<Rightarrow> ''off'')"

definition severity_name :: "activity_severity \<Rightarrow> string" where
  "severity_name s = (case s of SevInfo \<Rightarrow> ''info'' | SevWarn \<Rightarrow> ''warn'' | SevCrit \<Rightarrow> ''crit'')"

definition or_all :: "('a \<Rightarrow> string) \<Rightarrow> 'a option \<Rightarrow> string" where
  "or_all f x = (case x of None \<Rightarrow> ''all'' | Some y \<Rightarrow> f y)"

definition toggle_button :: "string \<Rightarrow> string \<times> string \<Rightarrow> string \<times> string \<Rightarrow> bool \<Rightarrow> node" where
  "toggle_button name on off v =
     Elem ''button'' []
       [sp [Text name], Elem ''span'' [(''class'', if v then snd on else snd off)] [Text (if v then fst on else fst off)]]"

definition select_box :: "string \<Rightarrow> string \<Rightarrow> string list \<Rightarrow> string \<Rightarrow> node" where
  "select_box name value options note =
     dv [dv [sp [Text name],
             Elem ''select'' [(''value'', value)] (map (\<lambda>v. Elem ''option'' [(''value'', v)] [Text v]) options)],
         dv [Text note]]"

definition DashboardFilters :: "filters_state \<Rightarrow> node" where
  "DashboardFilters f =
     dv [dv [Text ''Filters''],
         dv [toggle_button ''Privacy mode'' (''on'', ''text-emerald-400'') (''off'', ''text-red-400'') (fl_privacyMode f),
             toggle_button ''Helper markers'' (''shown'', ''text-emerald-400'') (''hidden'', ''text-muted-foreground'')
               (fl_showHelpers f),
             toggle_button ''Distribution flows'' (''shown'', ''text-emerald-400'') (''hidden'', ''text-muted-foreground'')
               (fl_showFlows f),
             select_box ''Time window'' (window_name (fl_timeWindow f)) [''15m'', ''1h'', ''24h'']
               ''Applied to activity and trend summaries.'',
             select_box ''Protocol'' (or_all protocol_key (fl_protocol f))
               [''all'', ''reality'', ''hysteria2'', ''tuic'', ''shadowtls'', ''dns_tunnel'']
               ''Filters protocol table focus.'',
             select_box ''Severity'' (or_all severity_name (fl_severity f)) [''all'', ''info'', ''warn'', ''crit'']
               ''Filters activity feed.'',
             select_box ''Live updates'' (live_mode_name (fl_liveMode f)) [''auto'', ''poll'', ''off'']
               ''Static builds can use demo mode or poll an external feed.'']]"

end
