(* ===== verification/Network_Map.thy ===== *)
theory Network_Map
  imports Dashboard_Views
begin

text \<open>
  The network map (\<open>components/dashboard/NetworkMap.tsx\<close>, \<open>RegionTooltip.tsx\<close>,
  \<open>ConnectionFlowLayer.tsx\<close>): which region of the snapshot a country of the atlas shows,
  the tooltip, the clicks. The atlas and the projection are a package: the countries are the
  argument \<open>geos\<close>.
\<close>

section \<open>Regions of the atlas\<close>

record geo_feature =
  geo_key :: string
  geo_name :: "string option"

definition centerForView :: "dashboard_view \<Rightarrow> real \<times> real" where
  "centerForView view = (if view = ViewIran then (537 / 10, 32) else (10, 20))"

definition zoomForView :: "dashboard_view \<Rightarrow> real" where
  "zoomForView view = (if view = ViewIran then 34 / 10 else 1)"

definition getRegion :: "bool \<Rightarrow> dashboard_snapshot \<Rightarrow> geo_feature \<Rightarrow> region_aggregate option" where
  "getRegion privacyMode snap geo =
     (case geo_name geo of
        None \<Rightarrow> None
      | Some name \<Rightarrow>
          if name = [] then None
          else (case map_get (buildRegionIndex (s_regions snap)) (to_lower name) of
              None \<Rightarrow> None
            | Some hit \<Rightarrow>
                if privacyMode \<and> r_sampleCount hit < s_privacyThreshold snap
                then Some (hit\<lparr>r_status := Unknown\<rparr>)
                else Some hit))"

section \<open>Tooltip and clicks\<close>

record tooltip_state =
  tt_visible :: bool
  tt_x :: real
  tt_y :: real
  tt_region :: "region_aggregate option"

definition no_tooltip :: tooltip_state where
  "no_tooltip = \<lparr>tt_visible = False, tt_x = 0, tt_y = 0, tt_region = None\<rparr>"

datatype map_event =
    MouseEnter geo_feature real real
  | MouseMove geo_feature real real
  | MouseLeave
  | MapClick geo_feature
  | KeyDown string geo_feature

definition show_tooltip ::
  "bool \<Rightarrow> dashboard_snapshot \<Rightarrow> geo_feature \<Rightarrow> real \<Rightarrow> real \<Rightarrow> tooltip_state \<Rightarrow> tooltip_state" where
  "show_tooltip privacyMode snap geo x y t =
     (case getRegion privacyMode snap geo of
        None \<Rightarrow> t
      | Some r \<Rightarrow> \<lparr>tt_visible = True, tt_x = x, tt_y = y, tt_region = Some r\<rparr>)"

text \<open>The new tooltip and the region that \<open>onSelectRegion\<close> is called with, if it is.\<close>

fun map_handle ::
  "bool \<Rightarrow> dashboard_snapshot \<Rightarrow> tooltip_state \<Rightarrow> map_event \<Rightarrow> tooltip_state \<times> region_aggregate option" where
  "map_handle pm snap t (MouseEnter geo x y) = (show_tooltip pm snap geo x y t, None)"
| "map_handle pm snap t (MouseMove geo x y) = (show_tooltip pm snap geo x y t, None)"
| "map_handle pm snap t MouseLeave = (no_tooltip, None)"
| "map_handle pm snap t (MapClick geo) = (t, getRegion pm snap geo)"
| "map_handle pm snap t (KeyDown key geo) =
     (t, if key = ''Enter'' \<or> key = '' '' then getRegion pm snap geo else None)"

text \<open>The component's tooltip after a sequence of events on one snapshot.\<close>

definition tooltip_after :: "bool \<Rightarrow> dashboard_snapshot \<Rightarrow> map_event list \<Rightarrow> tooltip_state" where
  "tooltip_after pm snap evs = fold (\<lambda>e t. fst (map_handle pm snap t e)) evs no_tooltip"

section \<open>Views\<close>

definition RegionTooltip :: "(real \<Rightarrow> string) \<Rightarrow> int \<Rightarrow> tooltip_state \<Rightarrow> node list" where
  "RegionTooltip num now st =
     (if \<not> tt_visible st then []
      else case tt_region st of
        None \<Rightarrow> []
      | Some r \<Rightarrow>
          [Elem ''div'' [(''style.left'', num (tt_x st + 14)), (''style.top'', num (tt_y st + 14))]
            [dv [dv [Text (r_countryName r)], coloured (status_color (r_status r)) (status_label (r_status r))],
             dv [labelled ''Config'' (formatPercent (r_configSuccessRate r)),
                 labelled ''Changes'' (formatPercent (r_recentChangeRate r))],
             dv [dv [Text ''Protocol Mix''], dv (map mix_entry (top_mix 3 (r_protocolMix r)))],
             dv [sp [Text ''Last update''], sp [Text (formatUnixAgo now (r_lastUpdateUnix r))]]]])"

definition show_point :: "(real \<Rightarrow> string) \<Rightarrow> real \<times> real \<Rightarrow> string" where
  "show_point num p = num (fst p) @ '','' @ num (snd p)"

definition ConnectionFlowLayer :: "(real \<Rightarrow> string) \<Rightarrow> connection_flow list \<Rightarrow> bool \<Rightarrow> node list" where
  "ConnectionFlowLayer num flows enabled =
     (if \<not> enabled then []
      else map (\<lambda>f. Elem ''Line''
             [(''from'', show_point num (f_from f)), (''to'', show_point num (f_to f)),
              (''strokeWidth'', show_int (1 + js_round (f_intensity f * 2)))] []) flows)"

definition geography_view :: "bool \<Rightarrow> dashboard_snapshot \<Rightarrow> geo_feature \<Rightarrow> node" where
  "geography_view pm snap geo =
     (let status = (case getRegion pm snap geo of None \<Rightarrow> Unknown | Some r \<Rightarrow> r_status r)
      in Elem ''Geography'' [(''key'', geo_key geo), (''fill'', status_color status)] [])"

definition helper_marker :: "(real \<Rightarrow> string) \<Rightarrow> helper_node \<Rightarrow> node" where
  "helper_marker num n =
     Elem ''Marker'' [(''coordinates'', show_point num (hn_coords n))]
       [Elem ''circle'' [(''r'', ''4.5''), (''fill'', helperColor (hn_availability n))] [],
        Elem ''circle'' [(''r'', ''10''), (''fill'', helperColor (hn_availability n))] []]"

definition NetworkMap ::
  "(real \<Rightarrow> string) \<Rightarrow> int \<Rightarrow> geo_feature list \<Rightarrow> dashboard_snapshot \<Rightarrow> filters_state \<Rightarrow> tooltip_state \<Rightarrow> node" where
  "NetworkMap num now geos snap f tip =
     dv ([dv [dv [Text ''Network Map''],
              dv [Text (if fl_privacyMode f then ''privacy'' @ geq_sign @ num (s_privacyThreshold snap)
                        else ''privacy: off''),
                  Text (bullet @ ''view:''), Text (view_name (s_view snap))]],
          dv [Elem ''ComposableMap'' []
               [Elem ''ZoomableGroup''
                  [(''center'', show_point num (centerForView (s_view snap))),
                   (''zoom'', num (zoomForView (s_view snap)))]
                  (ConnectionFlowLayer num (s_flows snap) (fl_showFlows f) @
                   map (geography_view (fl_privacyMode f) snap) geos @
                   (if fl_showHelpers f then map (helper_marker num) (s_helperNodes snap) else []))]]] @
         RegionTooltip num now tip)"

section \<open>Lemmas\<close>

lemma getRegion_SomeD:
  assumes "getRegion pm snap geo = Some r"
  shows "\<exists>hit name. geo_name geo = Some name \<and> name \<noteq> [] \<and> hit \<in> set (s_regions snap) \<and>
    to_lower (r_countryName hit) = to_lower name \<and> r_countryName r = r_countryName hit \<and>
    (r = hit \<or> (pm \<and> r_sampleCount hit < s_privacyThreshold snap \<and> r = hit\<lparr>r_status := Unknown\<rparr>))"
proof -
  from assms obtain name hit where n: "geo_name geo = Some name" "name \<noteq> []"
    and h: "map_get (buildRegionIndex (s_regions snap)) (to_lower name) = Some hit"
    and r: "r = (if pm \<and> r_sampleCount hit < s_privacyThreshold snap then hit\<lparr>r_status := Unknown\<rparr> else hit)"
    by (auto simp: getRegion_def split: option.splits if_splits)
  have "find (\<lambda>r. to_lower (r_countryName r) = to_lower name) (rev (s_regions snap)) = Some hit"
    using h region_index_find by simp
  then have "hit \<in> set (s_regions snap)" "to_lower (r_countryName hit) = to_lower name"
    using find_SomeD by fastforce+
  with n r show ?thesis by auto
qed

lemma to_lower_Nil [simp]: "to_lower s = [] \<longleftrightarrow> s = []"
  by (simp add: to_lower_def)

text \<open>With one region per name, looking a region up by its exact name finds it again.\<close>

lemma find_by_name:
  "distinct (map region_key rs) \<Longrightarrow> r \<in> set rs \<Longrightarrow>
     find (\<lambda>x. r_countryName x = r_countryName r) rs = Some r"
proof (induction rs)
  case Nil
  then show ?case by simp
next
  case (Cons x rs)
  show ?case
  proof (cases "x = r")
    case False
    with Cons.prems have "r \<in> set rs" by simp
    then have "region_key r \<in> set (map region_key rs)" by simp
    with Cons.prems have "region_key x \<noteq> region_key r" by auto
    then have "r_countryName x \<noteq> r_countryName r" by (auto simp: region_key_def)
    with Cons \<open>r \<in> set rs\<close> show ?thesis by simp
  qed simp
qed

end
