(* ===== verification/Dashboard_Pages.thy ===== *)
theory Dashboard_Pages
  imports Network_Map
begin

text \<open>
  The two dashboards as pages: the public one (\<open>LiveDashboard.tsx\<close>) over the state of
  \<open>Live_Dashboard\<close>, the local runtime one (\<open>RuntimeDashboard.tsx\<close> with
  \<open>EventTimeline.tsx\<close> and \<open>DebugPanel.tsx\<close>) over the state of \<open>Runtime_Events\<close>,
  and what a visitor can learn from them.
\<close>

section \<open>The public dashboard\<close>

definition viewTitle :: "dashboard_view \<Rightarrow> string" where
  "viewTitle v =
     (case v of
        ViewGlobal \<Rightarrow> ''Global View'' | ViewIran \<Rightarrow> ''Iran Focus''
      | ViewProtocols \<Rightarrow> ''Protocols'' | ViewReleases \<Rightarrow> ''Releases'')"

definition feed_mode_name :: "feed_mode \<Rightarrow> string" where
  "feed_mode_name m = (case m of MPoll \<Rightarrow> ''poll'' | MSse \<Rightarrow> ''sse'' | MOff \<Rightarrow> ''off'')"

definition error_line :: "string \<Rightarrow> string option \<Rightarrow> node list" where
  "error_line intro e = (case e of None \<Rightarrow> [] | Some m \<Rightarrow> if m = [] then [] else [dv [Text intro, Text m]])"

text \<open>What the environment gives to rendering: number and locale printing, the atlas, the tooltip.\<close>

record render_env =
  re_num :: "real \<Rightarrow> string"
  re_locale :: "real \<Rightarrow> string"
  re_geos :: "geo_feature list"
  re_tooltip :: tooltip_state

definition live_header :: "dashboard_view \<Rightarrow> int \<Rightarrow> live_ui \<Rightarrow> node" where
  "live_header view now u =
     dv [dv ([dv [Text ''Mode''],
          dv [dv [Text (viewTitle view)],
              dv [Text (feed_mode_name (fst (lv_status u))), Text bullet, Text (snd (lv_status u))],
              dv [Text ''updated '',
                  Text (case lv_snapshot u of None \<Rightarrow> dash | Some s \<Rightarrow> formatUnixAgo now (s_generatedAtUnix s))]],
          dv [Text ''All values are coarse, bucketed, privacy-thresholded, and safe for public viewing by default.'']] @
         error_line ''live feed unavailable: '' (lv_error u))]"

definition live_main :: "render_env \<Rightarrow> dashboard_view \<Rightarrow> int \<Rightarrow> filters_state \<Rightarrow> dashboard_snapshot option \<Rightarrow> node" where
  "live_main env view now f display =
     (case display of
        None \<Rightarrow> dv [Text (''No live dashboard feed detected. Configure NEXT_PUBLIC_SHADOWNET_DASHBOARD_SNAPSHOT_URL or '' @
          ''NEXT_PUBLIC_SHADOWNET_DASHBOARD_STREAM_URL to enable operator snapshots.'')]
      | Some d \<Rightarrow>
          if view = ViewProtocols then dv [ProtocolHealthPanelInner now d (fl_protocol f), ReleaseHealthCard now d]
          else if view = ViewReleases then dv [ReleaseHealthCard now d, ProtocolHealthPanelInner now d (fl_protocol f)]
          else NetworkMap (re_num env) now (re_geos env) d f (re_tooltip env))"

definition LivePage :: "render_env \<Rightarrow> dashboard_view \<Rightarrow> int \<Rightarrow> live_ui \<Rightarrow> node" where
  "LivePage env view now u =
     (let display = displaySnapshot u; f = lv_filters u in
      dv ([live_header view now u] @ when_some (SummaryCards now) display @
          [dv [dv ([DashboardFilters f, StatusLegend, RegionDetailCard now (selectedRegion u)] @
                   when_some (HelperNodePanel now) display),
               dv (live_main env view now f display #
                   when_some (\<lambda>d. dv [MeshActivityCard (re_locale env) now d,
                                      ActivityFeed now d (fl_severity f) (fl_timeWindow f)]) display)]]))"

section \<open>The runtime dashboard\<close>

definition meta_text :: "(json \<Rightarrow> string) \<Rightarrow> json option \<Rightarrow> string" where
  "meta_text stringify m =
     (case m of None \<Rightarrow> []
      | Some v \<Rightarrow> if truthy (Some v) \<and> (case js_keys v of [] \<Rightarrow> False | _ \<Rightarrow> True) then stringify v else [])"

definition timeline_entry :: "(json \<Rightarrow> string) \<Rightarrow> int \<Rightarrow> runtime_event \<Rightarrow> node" where
  "timeline_entry stringify now e =
     (let meta = meta_text stringify (ev_metadata e) in
      Elem ''div'' [(''key'', event_key e)]
        [dv [Text (formatUnixAgo now (of_int (ev_timestamp e)))],
         Elem ''div'' [(''class'', typeClass (ev_type e))] [Text (ev_type e)],
         dv (dv [Text (ev_message e)] # (if meta = [] then [] else [dv [Text meta]]))])"

definition EventTimeline :: "(json \<Rightarrow> string) \<Rightarrow> int \<Rightarrow> nat \<Rightarrow> runtime_event list \<Rightarrow> node" where
  "EventTimeline stringify now limit events =
     (let recent = timeline_recent limit events in
      dv [dv [Text ''Event Timeline''],
          dv (if recent = [] then [dv [Text ''No events yet.'']] else map (timeline_entry stringify now) recent)])"

definition debug_box :: "(json \<Rightarrow> string) \<Rightarrow> string \<Rightarrow> runtime_event option \<Rightarrow> node" where
  "debug_box stringify title e =
     dv ([dv [Text title],
          dv [Text (case e of None \<Rightarrow> dash | Some v \<Rightarrow> ev_type v)],
          dv [Text (case e of None \<Rightarrow> [] | Some v \<Rightarrow> ev_message v)]] @
         (case Option.bind e ev_metadata of None \<Rightarrow> []
          | Some m \<Rightarrow> if truthy (Some m) then [Elem ''pre'' [] [Text (stringify m)]] else []))"

definition DebugPanel ::
  "(json \<Rightarrow> string) \<Rightarrow> (runtime_snapshot \<Rightarrow> string) \<Rightarrow> runtime_snapshot option \<Rightarrow> runtime_event list \<Rightarrow> node" where
  "DebugPanel stringify stringify_snapshot snapshot events =
     dv [dv [Text ''Debug Panel''],
         dv [debug_box stringify ''Last Decision'' (latestByType events [''ORCHESTRATOR_DECISION'', ''POLICY_DECISION'']),
             debug_box stringify ''Last Error''
               (latestByType events [''CONNECTION_FAIL'', ''SINGBOX_START_FAILED'', ''PROBE_FAILED'']),
             dv [dv [Text ''Snapshot''],
                 (case snapshot of None \<Rightarrow> dv [Text dash]
                  | Some s \<Rightarrow> Elem ''pre'' [] [Text (stringify_snapshot s)])]]]"

definition or_dash :: "string \<Rightarrow> string" where
  "or_dash s = (if s = [] then dash else s)"

definition RuntimePage :: "status_copy \<Rightarrow> (json \<Rightarrow> string) \<Rightarrow> int \<Rightarrow> runtime_ui \<Rightarrow> node" where
  "RuntimePage copy stringify now u =
     (let st = uiStatus (rt_state u) in
      dv [dv [dv ([dv [Text ''SunLionet Dashboard''],
                dv [dv [Text ''SunLionet Inside''],
                    Elem ''div'' [(''data-testid'', ''runtime-status-badge''), (''class'', badgeClass st)]
                      [Text (uiStatusText copy st)],
                    Elem ''div''
                      [(''class'', if st = CONNECTED then ''border-emerald-400/40 text-emerald-300 bg-emerald-950/30''
                                   else ''border-red-400/40 text-red-300 bg-red-950/30'')]
                      [Text (securityStatusText copy st)],
                    dv [Text ''updated '',
                        Text (case rt_state u of None \<Rightarrow> dash
                              | Some s \<Rightarrow> formatUnixAgo now (of_int (rs_lastUpdated s)))]],
                dv [Text (''Live view of the local runtime on this machine (no internet required). '' @
                  ''Streaming events in real time.'')]] @
               error_line ''runtime unavailable: '' (rt_error u))],
          (case rt_state u of
             None \<Rightarrow>
               dv [dv [Text ''No active SunLionet runtime detected''],
                   dv [Text ''Start SunLionet Inside locally with the runtime API enabled, then refresh this page.''],
                   dv [Text ''sunlionet-inside --runtime-api-addr 127.0.0.1:8080 --runtime-api-keepalive ...'']]
           | Some s \<Rightarrow>
               dv [labelled ''Active Profile'' (or_dash (rs_activeProfile s)),
                   labelled ''Latency'' (if st = CONNECTED then show_int (rs_latencyMs s) @ '' ms'' else dash),
                   labelled ''Mode'' (or_dash (rs_mode s)),
                   labelled ''Last Event''
                     (case rt_events u of [] \<Rightarrow> dash
                      | e # _ \<Rightarrow> formatUnixAgo now (of_int (ev_timestamp e)) @ bullet @ ev_message e)]),
          Elem ''details'' [] [Elem ''summary'' [] [Text ''Show activity''],
            dv [EventTimeline stringify now 100 (rt_events u)]]])"

section \<open>Lemmas\<close>

lemma displaySnapshot_public:
  "fl_privacyMode (lv_filters u) \<Longrightarrow> displaySnapshot u = map_option (\<lambda>s. applyPrivacyFilter s public_opts) (lv_snapshot u)"
  by (simp add: displaySnapshot_def public_opts_def)

lemma filtered_region_unknown:
  assumes "r \<in> set (s_regions (applyPrivacyFilter s opts))" and "o_mode opts = Public"
    and "r_sampleCount r < s_privacyThreshold (applyPrivacyFilter s opts)"
  shows "r_status r = Unknown"
  using assms
  by (auto simp: applyPrivacyFilter_def Let_def filter_region_def stripLowVolumeRegion_def split: if_splits)

text \<open>On a displayed snapshot the map's own redaction changes nothing.\<close>

lemma getRegion_displayed:
  assumes "displaySnapshot u = Some d" and "getRegion (fl_privacyMode (lv_filters u)) d geo = Some r"
  shows "r \<in> set (s_regions d) \<and> r_countryName r \<noteq> [] \<and>
    to_lower (r_countryName r) = to_lower (the (geo_name geo))"
proof -
  from getRegion_SomeD [OF assms(2)] obtain hit name where h: "geo_name geo = Some name" "name \<noteq> []"
    "hit \<in> set (s_regions d)" "to_lower (r_countryName hit) = to_lower name" and
    r: "r = hit \<or> (fl_privacyMode (lv_filters u) \<and> r_sampleCount hit < s_privacyThreshold d \<and>
      r = hit\<lparr>r_status := Unknown\<rparr>)" by blast
  have "r = hit"
    using r
  proof (elim disjE conjE)
    assume p: "fl_privacyMode (lv_filters u)" and c: "r_sampleCount hit < s_privacyThreshold d"
      and e: "r = hit\<lparr>r_status := Unknown\<rparr>"
    from assms(1) p obtain s where "d = applyPrivacyFilter s public_opts" by (auto simp: displaySnapshot_public)
    then have "r_status hit = Unknown" using filtered_region_unknown h(3) c by (simp add: public_opts_def)
    with e show ?thesis by simp
  qed
  moreover have "r_countryName hit \<noteq> []" using h(2,4) to_lower_Nil by metis
  ultimately show ?thesis using h by simp
qed

section \<open>Properties\<close>


definition public_ui :: live_ui where
  "public_ui = (initial_ui \<lparr>lc_view = ViewGlobal, lc_stream = False, lc_snapshotUrl = True, lc_streamInit = False\<rparr>)
     \<lparr>lv_snapshot := Some sample_snapshot\<rparr>"

definition plain_env :: render_env where
  "plain_env = \<lparr>re_num = (\<lambda>x. show_int (js_round x)), re_locale = (\<lambda>x. show_int (js_round x)),
     re_geos = [\<lparr>geo_key = ''ir'', geo_name = Some ''Iran''\<rparr>], re_tooltip = no_tooltip\<rparr>"


text \<open>The map and the detail card agree: when the displayed regions have different names, clicking a
  country that shows a region selects exactly that region, so that the card shows the figures of
  the tooltip, in privacy mode too.\<close>

theorem map_click_selects:
  assumes "displaySnapshot u = Some d" and "distinct (map region_key (s_regions d))"
    and "map_handle (fl_privacyMode (lv_filters u)) d tip (MapClick geo) = (tip', Some r)"
  shows "selectedRegion (live_handle cfg u (SelectRegion (r_countryName r))) = Some r \<and>
    to_lower (r_countryName r) = to_lower (the (geo_name geo))"
proof -
  from assms(3) have "getRegion (fl_privacyMode (lv_filters u)) d geo = Some r" by simp
  note g = getRegion_displayed [OF assms(1) this]
  let ?u = "live_handle cfg u (SelectRegion (r_countryName r))"
  have "displaySnapshot ?u = Some d" using assms(1) by (simp add: displaySnapshot_def)
  moreover have "find (\<lambda>x. r_countryName x = r_countryName r) (s_regions d) = Some r"
    using find_by_name assms(2) g by blast
  ultimately show ?thesis using g by (simp add: selectedRegion_def)
qed

theorem map_click_selects_witness:
  "\<exists>d r. displaySnapshot public_ui = Some d \<and>
     selectedRegion (live_handle poll_cfg public_ui (SelectRegion ''Iran'')) = Some r \<and> r_countryName r = ''Iran''"
proof -
  let ?d = "applyPrivacyFilter sample_snapshot public_opts"
  let ?geo = "\<lparr>geo_key = ''ir'', geo_name = Some ''IRAN''\<rparr>"
  have "fl_privacyMode (lv_filters public_ui)" "lv_snapshot public_ui = Some sample_snapshot"
    by (simp_all add: public_ui_def initial_ui_def initial_filters_def)
  then have d: "displaySnapshot public_ui = Some ?d" by (simp add: displaySnapshot_public)
  have low: "to_lower ''Iran'' = ''iran''" "to_lower ''Chad'' = ''chad''" "to_lower ''IRAN'' = ''iran''" by code_simp+
  have names: "map r_countryName (s_regions ?d) = [''Iran'', ''Chad'']"
    by (simp add: applyPrivacyFilter_def Let_def sample_snapshot_def sample_region_def filter_region_def
        stripLowVolumeRegion_def)
  then have "map region_key (s_regions ?d) = map to_lower [''Iran'', ''Chad'']"
    by (metis (no_types, lifting) list.map_comp map_eq_conv o_apply region_key_def)
  then have dist: "distinct (map region_key (s_regions ?d))" by (simp add: low)
  from names obtain a b where ab: "s_regions ?d = [a, b]" "r_countryName a = ''Iran''" "r_countryName b = ''Chad''"
    by auto
  have "getRegion (fl_privacyMode (lv_filters public_ui)) ?d ?geo \<noteq> None"
    by (simp add: getRegion_def region_index_find ab low)
  then obtain r where "getRegion (fl_privacyMode (lv_filters public_ui)) ?d ?geo = Some r" by blast
  then have m: "map_handle (fl_privacyMode (lv_filters public_ui)) ?d no_tooltip (MapClick ?geo) = (no_tooltip, Some r)"
    by simp
  note sel = map_click_selects [OF d dist m, of poll_cfg]
  from getRegion_displayed [OF d \<open>getRegion _ _ _ = Some r\<close>] have "r \<in> {a, b}" by (simp add: ab)
  with sel ab low have "r_countryName r = ''Iran''" by auto
  with sel d show ?thesis by auto
qed

end
