(* ===== verification/Demo_Snapshot.thy ===== *)
theory Demo_Snapshot
  imports Dashboard_Types
begin

text \<open>
  The synthetic snapshot (\<open>lib/dashboard/demo.ts\<close>, \<open>snapshot.ts\<close>,
  \<open>mock-data.ts\<close>). The clock is \<open>t\<close>, in whole seconds; \<open>Math.sin\<close> is the parameter
  \<open>sine\<close>, of which nothing is assumed.
\<close>

definition clamp01 :: "real \<Rightarrow> real" where
  "clamp01 v = max 0 (min 1 v)"

definition jitter :: "(real \<Rightarrow> real) \<Rightarrow> real \<Rightarrow> real \<Rightarrow> real \<Rightarrow> real" where
  "jitter sine base spread seed =
     (let x = sine (seed * 9999) * 10000; r = x - of_int \<lfloor>x\<rfloor> in base + (r - 1 / 2) * spread * 2)"

definition statusByPressure :: "real \<Rightarrow> region_status" where
  "statusByPressure pressure =
     (if 85 / 100 \<le> pressure then Blocked
      else if 65 / 100 \<le> pressure then Unstable
      else if 4 / 10 \<le> pressure then Degraded
      else if 2 / 10 \<le> pressure then Healthy
      else Unknown)"

definition demo_base :: "(string \<times> real \<times> real) list" where
  "demo_base =
     [(''Iran'', 78 / 100, 2200), (''Iraq'', 36 / 100, 160), (''Turkey'', 28 / 100, 280),
      (''Afghanistan'', 58 / 100, 75), (''Pakistan'', 33 / 100, 120), (''Armenia'', 18 / 100, 45),
      (''Azerbaijan'', 31 / 100, 55), (''United Arab Emirates'', 12 / 100, 70), (''Germany'', 6 / 100, 900),
      (''France'', 8 / 100, 640), (''United Kingdom'', 7 / 100, 500),
      (''United States of America'', 5 / 100, 1200), (''Canada'', 6 / 100, 400), (''Sweden'', 7 / 100, 250),
      (''Netherlands'', 7 / 100, 260), (''Romania'', 9 / 100, 180), (''Finland'', 8 / 100, 140)]"

definition demo_mix :: "(real \<Rightarrow> real) \<Rightarrow> real \<Rightarrow> (protocol_id \<times> real) list" where
  "demo_mix sine seed =
     (let reality = clamp01 (jitter sine (38 / 100) (12 / 100) (seed + 1));
          h2 = clamp01 (jitter sine (24 / 100) (1 / 10) (seed + 2));
          tuic = clamp01 (jitter sine (18 / 100) (8 / 100) (seed + 3));
          shadowtls = clamp01 (jitter sine (12 / 100) (6 / 100) (seed + 4));
          dns = clamp01 (1 - (reality + h2 + tuic + shadowtls));
          mixSum = reality + h2 + tuic + shadowtls + dns
      in [(Reality, reality / mixSum), (Hysteria2, h2 / mixSum), (Tuic, tuic / mixSum),
          (Shadowtls, shadowtls / mixSum), (DnsTunnel, dns / mixSum)])"

definition demo_region :: "(real \<Rightarrow> real) \<Rightarrow> int \<Rightarrow> nat \<Rightarrow> string \<times> real \<times> real \<Rightarrow> region_aggregate" where
  "demo_region sine t idx r =
     (let (name, pressure, samples) = r; seed = real idx + of_int t / 60
      in \<lparr>r_countryName = name, r_status = statusByPressure pressure, r_protocolMix = demo_mix sine seed,
          r_configSuccessRate = clamp01 (jitter sine (1 - pressure) (8 / 100) seed),
          r_recentChangeRate = clamp01 (jitter sine pressure (6 / 100) (seed + 13)),
          r_lastUpdateUnix = of_int t - real (idx mod 7 * 60), r_sampleCount = samples\<rparr>)"

definition demoRegions :: "(real \<Rightarrow> real) \<Rightarrow> int \<Rightarrow> region_aggregate list" where
  "demoRegions sine t = map (\<lambda>(idx, r). demo_region sine t idx r) (enumerate 0 demo_base)"

definition demo_helper :: "int \<Rightarrow> string \<Rightarrow> string \<Rightarrow> string \<Rightarrow> real \<times> real \<Rightarrow> helper_availability \<Rightarrow> int \<Rightarrow> helper_node" where
  "demo_helper t i label region coords avail age =
     \<lparr>hn_id = i, hn_label = label, hn_regionLabel = region, hn_coords = coords,
      hn_availability = avail, hn_lastUpdateUnix = of_int (t - age)\<rparr>"

definition demoHelperNodes :: "int \<Rightarrow> helper_node list" where
  "demoHelperNodes t =
     [demo_helper t ''de-1'' ''EU Helper Cluster'' ''Central Europe'' (104 / 10, 511 / 10) Up 20,
      demo_helper t ''nl-1'' ''NL Relays'' ''Western Europe'' (53 / 10, 521 / 10) Up 35,
      demo_helper t ''se-1'' ''Nordic Nodes'' ''Northern Europe'' (152 / 10, 601 / 10) HelperDegraded 60,
      demo_helper t ''us-1'' ''US West Helpers'' ''North America'' (- 1217 / 10, 373 / 10) Up 40]"

definition demo_protocols :: "(protocol_id \<times> real \<times> real \<times> real \<times> recommendation_tier) list" where
  "demo_protocols =
     [(Reality, 86 / 100, - 3 / 100, 8 / 100, Primary), (Hysteria2, 74 / 100, - 6 / 100, 16 / 100, Secondary),
      (Tuic, 62 / 100, - 2 / 100, 22 / 100, Secondary), (Shadowtls, 58 / 100, - 1 / 100, 19 / 100, Fallback),
      (DnsTunnel, 33 / 100, 2 / 100, 5 / 100, Avoid)]"

definition demo_protocol ::
  "(real \<Rightarrow> real) \<Rightarrow> int \<Rightarrow> nat \<Rightarrow> protocol_id \<times> real \<times> real \<times> real \<times> recommendation_tier \<Rightarrow> protocol_health" where
  "demo_protocol sine t idx p =
     (let (protocol, success, trend, cooldown, tier) = p
      in \<lparr>ph_protocol = protocol,
          ph_successRate = clamp01 (jitter sine success (4 / 100) (real idx + of_int t / 120)),
          ph_failureTrend = max (- 1) (min 1 (jitter sine trend (3 / 100) (real idx + 7 + of_int t / 180))),
          ph_cooldownRate = clamp01 (jitter sine cooldown (4 / 100) (real idx + 17 + of_int t / 180)),
          ph_recommendationTier = tier,
          ph_lastUpdateUnix = of_int t - 15 - real idx * 4\<rparr>)"

definition demoProtocolHealth :: "(real \<Rightarrow> real) \<Rightarrow> int \<Rightarrow> protocol_health list" where
  "demoProtocolHealth sine t = map (\<lambda>(idx, p). demo_protocol sine t idx p) (enumerate 0 demo_protocols)"

definition demo_activity :: "int \<Rightarrow> string \<Rightarrow> int \<Rightarrow> activity_severity \<Rightarrow> activity_type \<Rightarrow> string \<Rightarrow> string \<Rightarrow> activity_item" where
  "demo_activity t i age sev ty msg region =
     \<lparr>a_id = i, a_tsUnix = of_int (t - age), a_severity = sev, a_type = ty, a_message = msg,
      a_regionLabel = Some region\<rparr>"

definition buildDemoSnapshot :: "(real \<Rightarrow> real) \<Rightarrow> int \<Rightarrow> dashboard_view \<Rightarrow> real \<Rightarrow> dashboard_snapshot" where
  "buildDemoSnapshot sine t view privacyThreshold =
     \<lparr>s_version = 1, s_view = view, s_generatedAtUnix = of_int t, s_privacyThreshold = privacyThreshold,
      s_regions = demoRegions sine t,
      s_inside = \<lparr>in_activeInstallations = (if view = ViewIran then 6800 else 11000),
        in_protocolSurvivalRate = 77 / 100, in_blackoutProbability = (if view = ViewIran then 61 / 100 else 34 / 100),
        in_meshActivityScore = (if view = ViewIran then 42 / 100 else 18 / 100),
        in_seedAdoptionRate = 64 / 100, in_lastUpdateUnix = of_int (t - 10)\<rparr>,
      s_outside = \<lparr>out_activeHelperRegions = [''Central Europe'', ''Western Europe'', ''North America''],
        out_bundlesGenerated24h = 146, out_successfulDistributions24h = 88, out_profileFreshnessHours = 65 / 10,
        out_helperAvailabilityScore = 83 / 100, out_lastUpdateUnix = of_int (t - 12)\<rparr>,
      s_protocols = demoProtocolHealth sine t,
      s_release = \<lparr>rh_latestVersion = ''v0.1.0'', rh_installerDownloads24h = None,
        rh_manifestFreshnessSec = 2 * 60 * 60, rh_signatureStatus = SigOk,
        rh_platformArtifacts = \<lparr>pa_android = True, pa_linux = True, pa_windows = True, pa_macos = True\<rparr>,
        rh_lastUpdateUnix = of_int (t - 90)\<rparr>,
      s_helperNodes = demoHelperNodes t,
      s_flows =
        [\<lparr>f_id = ''flow-eu-ir'', f_from = (104 / 10, 511 / 10), f_to = (537 / 10, 32), f_intensity = 7 / 10,
          f_label = Some ''Bundles'', f_tsUnix = of_int (t - 30)\<rparr>,
         \<lparr>f_id = ''flow-us-ir'', f_from = (- 1217 / 10, 373 / 10), f_to = (537 / 10, 32), f_intensity = 35 / 100,
          f_label = Some ''Relays'', f_tsUnix = of_int (t - 55)\<rparr>],
      s_activity =
        [demo_activity t ''a1'' 18 SevWarn ActDpiShift ''SNI reset rate rose in Iran Focus view'' ''Iran'',
         demo_activity t ''a2'' 42 SevInfo ActBundleGenerated ''Signed bundle created by EU helper cluster'' ''Central Europe'',
         demo_activity t ''a3'' 76 SevInfo ActBundleImported ''Aggregate imports increased (privacy-thresholded)'' ''Iran'',
         demo_activity t ''a4'' 104 SevWarn ActProtocolCooldown ''Hysteria2 cooldowns trending upward (aggregate)'' ''Iran'',
         demo_activity t ''a5'' 165 SevInfo ActSnapshot ''Snapshot refreshed'' (to_upper (view_name view))]\<rparr>"

definition resolveSnapshot ::
  "(real \<Rightarrow> real) \<Rightarrow> int \<Rightarrow> dashboard_view \<Rightarrow> real option \<Rightarrow> dashboard_snapshot" where
  "resolveSnapshot sine t view privacyThreshold =
     buildDemoSnapshot sine t view (case privacyThreshold of None \<Rightarrow> 20 | Some p \<Rightarrow> p)"

definition buildMockSnapshot ::
  "(real \<Rightarrow> real) \<Rightarrow> int \<Rightarrow> dashboard_view \<Rightarrow> real \<Rightarrow> dashboard_snapshot" where
  "buildMockSnapshot sine t view privacyThreshold = buildDemoSnapshot sine t view privacyThreshold"

section \<open>Lemmas\<close>

lemma clamp01_bounds [simp]: "0 \<le> clamp01 v" "clamp01 v \<le> 1"
  by (simp_all add: clamp01_def)

text \<open>The shares add up to at least one before they are normalised, whatever the noise.\<close>

lemma clamp01_rest: "0 \<le> s \<Longrightarrow> 1 \<le> s + clamp01 (1 - s)"
  by (auto simp: clamp01_def)

lemma demo_mix_distribution:
  "sum_list (map snd (demo_mix sine seed)) = 1 \<and> (\<forall>m \<in> set (demo_mix sine seed). 0 \<le> snd m \<and> snd m \<le> 1)"
proof -
  let ?c = "\<lambda>b s k. clamp01 (jitter sine b s (seed + k))"
  define a where "a = ?c (38 / 100) (12 / 100) 1"
  define b where "b = ?c (24 / 100) (1 / 10) 2"
  define c where "c = ?c (18 / 100) (8 / 100) 3"
  define d where "d = ?c (12 / 100) (6 / 100) 4"
  define e where "e = clamp01 (1 - (a + b + c + d))"
  define n where "n = a + b + c + d + e"
  have pos: "0 \<le> a" "0 \<le> b" "0 \<le> c" "0 \<le> d" "0 \<le> e" by (simp_all add: a_def b_def c_def d_def e_def)
  have "1 \<le> n" using clamp01_rest [of "a + b + c + d"] pos by (simp add: n_def e_def)
  moreover have m: "demo_mix sine seed =
      [(Reality, a / n), (Hysteria2, b / n), (Tuic, c / n), (Shadowtls, d / n), (DnsTunnel, e / n)]"
    by (simp add: demo_mix_def Let_def a_def b_def c_def d_def e_def n_def)
  moreover have "a / n + (b / n + (c / n + (d / n + e / n))) = (a + b + c + d + e) / n"
    by (simp add: add_divide_distrib)
  ultimately show ?thesis using pos by (simp add: n_def)
qed

lemma demo_regions_eq: "map f (demoRegions sine t) = map (\<lambda>(idx, r). f (demo_region sine t idx r)) (enumerate 0 demo_base)"
  by (simp add: demoRegions_def comp_def case_prod_beta)

lemma demo_region_name: "r_countryName (demo_region sine t idx r) = fst r"
  by (cases r) (simp add: demo_region_def Let_def)

lemma demo_names: "map r_countryName (demoRegions sine t) = map fst demo_base"
proof -
  have "map (\<lambda>(idx, r). r_countryName (demo_region sine t idx r)) (enumerate n rs) = map fst rs" for n rs
    by (induction rs arbitrary: n) (auto simp: demo_region_name)
  then show ?thesis by (simp add: demo_regions_eq)
qed

lemma demo_region_cases:
  assumes "r \<in> set (demoRegions sine t)"
  shows "\<exists>idx b. b \<in> set demo_base \<and> r = demo_region sine t idx b"
proof -
  from assms obtain p where p: "p \<in> set (enumerate 0 demo_base)" "r = demo_region sine t (fst p) (snd p)"
    by (auto simp: demoRegions_def)
  from p(1) have "fst p < length demo_base" "demo_base ! fst p = snd p" by (simp_all add: in_set_enumerate_eq)
  then have "snd p \<in> set demo_base" by (metis nth_mem)
  with p(2) show ?thesis by blast
qed

lemma demo_samples: "\<forall>b \<in> set demo_base. 45 \<le> snd (snd b)"
  by (simp add: demo_base_def)

lemma demo_region_plausible:
  assumes "b \<in> set demo_base" and "r = demo_region sine t idx b"
  shows "sum_list (map snd (r_protocolMix r)) = 1 \<and> (\<forall>m \<in> set (r_protocolMix r). 0 \<le> snd m \<and> snd m \<le> 1) \<and>
    0 \<le> r_configSuccessRate r \<and> r_configSuccessRate r \<le> 1 \<and>
    0 \<le> r_recentChangeRate r \<and> r_recentChangeRate r \<le> 1 \<and> 45 \<le> r_sampleCount r"
proof -
  obtain name pressure samples where b: "b = (name, pressure, samples)" by (cases b)
  then have "45 \<le> samples" using assms(1) demo_samples by force
  then show ?thesis using demo_mix_distribution by (simp add: assms(2) b demo_region_def Let_def)
qed

section \<open>Properties\<close>

text \<open>The synthetic snapshot is a possible one: every region has a protocol mix that is a
  distribution (shares between 0 and 1 that add up to 1), rates between 0 and 1 and at least 45
  samples, so none is below the default threshold of 20; no two regions have the same name; every
  protocol has rates between 0 and 1 and a trend between -1 and 1.\<close>

theorem demo_snapshot_plausible:
  fixes sine t view p
  defines "snap \<equiv> buildDemoSnapshot sine t view p"
  shows "(\<forall>r \<in> set (s_regions snap).
       sum_list (map snd (r_protocolMix r)) = 1 \<and> (\<forall>m \<in> set (r_protocolMix r). 0 \<le> snd m \<and> snd m \<le> 1) \<and>
       0 \<le> r_configSuccessRate r \<and> r_configSuccessRate r \<le> 1 \<and>
       0 \<le> r_recentChangeRate r \<and> r_recentChangeRate r \<le> 1 \<and> 45 \<le> r_sampleCount r) \<and>
     distinct (map (\<lambda>r. to_lower (r_countryName r)) (s_regions snap)) \<and>
     (\<forall>q \<in> set (s_protocols snap). 0 \<le> ph_successRate q \<and> ph_successRate q \<le> 1 \<and>
       0 \<le> ph_cooldownRate q \<and> ph_cooldownRate q \<le> 1 \<and> - 1 \<le> ph_failureTrend q \<and> ph_failureTrend q \<le> 1)"
proof (intro conjI)
  have s: "s_regions snap = demoRegions sine t" by (simp add: snap_def buildDemoSnapshot_def)
  show "\<forall>r \<in> set (s_regions snap).
       sum_list (map snd (r_protocolMix r)) = 1 \<and> (\<forall>m \<in> set (r_protocolMix r). 0 \<le> snd m \<and> snd m \<le> 1) \<and>
       0 \<le> r_configSuccessRate r \<and> r_configSuccessRate r \<le> 1 \<and>
       0 \<le> r_recentChangeRate r \<and> r_recentChangeRate r \<le> 1 \<and> 45 \<le> r_sampleCount r"
    unfolding s using demo_region_cases demo_region_plausible by blast
next
  have "map (\<lambda>r. to_lower (r_countryName r)) (s_regions snap) = map to_lower (map fst demo_base)"
    using arg_cong [OF demo_names, of "map to_lower" sine t] by (simp add: snap_def buildDemoSnapshot_def comp_def)
  moreover have "distinct (map to_lower (map fst demo_base))" by code_simp
  ultimately show "distinct (map (\<lambda>r. to_lower (r_countryName r)) (s_regions snap))" by simp
next
  show "\<forall>q \<in> set (s_protocols snap). 0 \<le> ph_successRate q \<and> ph_successRate q \<le> 1 \<and>
      0 \<le> ph_cooldownRate q \<and> ph_cooldownRate q \<le> 1 \<and> - 1 \<le> ph_failureTrend q \<and> ph_failureTrend q \<le> 1"
  proof
    fix q assume "q \<in> set (s_protocols snap)"
    then obtain idx b where q: "q = demo_protocol sine t idx b"
      by (auto simp: snap_def buildDemoSnapshot_def demoProtocolHealth_def)
    then show "0 \<le> ph_successRate q \<and> ph_successRate q \<le> 1 \<and> 0 \<le> ph_cooldownRate q \<and> ph_cooldownRate q \<le> 1 \<and>
        - 1 \<le> ph_failureTrend q \<and> ph_failureTrend q \<le> 1"
      by (cases b) (simp add: demo_protocol_def Let_def)
  qed
qed

theorem demo_snapshot_plausible_witness:
  "\<forall>r \<in> set (s_regions (buildDemoSnapshot (\<lambda>_. 0) 0 ViewIran 20)). 20 \<le> r_sampleCount r"
  using demo_snapshot_plausible [of "\<lambda>_. 0" 0 ViewIran 20] by force

end
