(* ===== verification/Markdown_Inline.thy ===== *)
theory Markdown_Inline
  imports Js_Prelude
begin

text \<open>
  The inline half of the site's markdown renderer (\<open>lib/docs/markdown.tsx\<close>): anchors
  (\<open>slugify\<close>), the tokenizer of code spans, bold text and links (\<open>splitInline\<close>)
  and the resolution of links between documents (\<open>resolveHref\<close>). Each regular
  expression is the function that decides it; \<open>normalize("NFKD")\<close> is the identity
  on ASCII, and characters from 128 upwards count as letters.
\<close>

section \<open>Anchors\<close>

definition is_slug_char :: "char \<Rightarrow> bool" where
  "is_slug_char c \<longleftrightarrow> is_digit c \<or> is_upper c \<or> is_lower c \<or> 128 \<le> code_of c"

definition is_slug_removed :: "char \<Rightarrow> bool" where
  "is_slug_removed c \<longleftrightarrow> code_of c \<in> {96, 34, 39, 40, 41, 91, 93, 123, 125}"

text \<open>\<open>replace(/[^\p{L}\p{N}]+/gu, "-")\<close>: every maximal run of other characters becomes one dash.\<close>

fun dash_runs :: "string \<Rightarrow> string" where
  "dash_runs [] = []"
| "dash_runs [c] = (if is_slug_char c then [c] else ''-'')"
| "dash_runs (c # d # s) =
     (if is_slug_char c then c # dash_runs (d # s)
      else if is_slug_char d then CHR ''-'' # dash_runs (d # s)
      else dash_runs (d # s))"

definition strip_dashes :: "string \<Rightarrow> string" where
  "strip_dashes s =
     (let is_dash = (\<lambda>c. c = CHR ''-'') in rev (dropWhile is_dash (rev (dropWhile is_dash s))))"

definition slugify :: "string \<Rightarrow> string" where
  "slugify text = strip_dashes (dash_runs (filter (\<lambda>c. \<not> is_slug_removed c) (trim (to_lower text))))"

section \<open>Tokens\<close>

datatype token = TText string | TCode string | TStrong string | TLink string string

text \<open>Each alternative of the regular expression at the start of the text: the token and the rest.\<close>

definition match_code :: "string \<Rightarrow> (token \<times> string) option" where
  "match_code s =
     (case s of
        [] \<Rightarrow> None
      | c # r \<Rightarrow>
          if c \<noteq> CHR ''`'' then None
          else let body = takeWhile (\<lambda>x. x \<noteq> CHR ''`'') r; rest = dropWhile (\<lambda>x. x \<noteq> CHR ''`'') r
            in if body = [] \<or> rest = [] then None else Some (TCode body, tl rest))"

definition match_strong :: "string \<Rightarrow> (token \<times> string) option" where
  "match_strong s =
     (if \<not> starts_with ''**'' s then None
      else let r = drop 2 s;
             body = takeWhile (\<lambda>x. x \<noteq> CHR ''*'') r; rest = dropWhile (\<lambda>x. x \<noteq> CHR ''*'') r
        in if body = [] \<or> \<not> starts_with ''**'' rest then None else Some (TStrong body, drop 2 rest))"

definition match_link :: "string \<Rightarrow> (token \<times> string) option" where
  "match_link s =
     (case s of
        [] \<Rightarrow> None
      | c # r \<Rightarrow>
          if c \<noteq> CHR ''['' then None
          else let label = takeWhile (\<lambda>x. x \<noteq> CHR '']'') r; r1 = dropWhile (\<lambda>x. x \<noteq> CHR '']'') r
            in if label = [] \<or> \<not> starts_with ''](''  r1 then None
               else let r2 = drop 2 r1;
                      href = takeWhile (\<lambda>x. x \<noteq> CHR '')'') r2; r3 = dropWhile (\<lambda>x. x \<noteq> CHR '')'') r2
                 in if href = [] \<or> r3 = [] then None else Some (TLink label href, tl r3))"

definition match_token :: "string \<Rightarrow> (token \<times> string) option" where
  "match_token s =
     (case match_code s of
        Some t \<Rightarrow> Some t
      | None \<Rightarrow> (case match_strong s of Some t \<Rightarrow> Some t | None \<Rightarrow> match_link s))"

text \<open>The source text of a token.\<close>

fun token_source :: "token \<Rightarrow> string" where
  "token_source (TText s) = s"
| "token_source (TCode s) = ''`'' @ s @ ''`''"
| "token_source (TStrong s) = ''**'' @ s @ ''**''"
| "token_source (TLink l h) = ''['' @ l @ '']('' @ h @ '')''"

lemma hd_dropWhile_not: "dropWhile (\<lambda>x. x \<noteq> d) r \<noteq> [] \<Longrightarrow> r = takeWhile (\<lambda>x. x \<noteq> d) r @ d # tl (dropWhile (\<lambda>x. x \<noteq> d) r)"
  by (induction r) auto

lemma takeWhile_dropWhile_eq: "dropWhile P r = y \<Longrightarrow> r = takeWhile P r @ y"
  by (metis takeWhile_dropWhile_id)

lemma match_code_source: "match_code s = Some (t, rest) \<Longrightarrow> s = token_source t @ rest"
  using hd_dropWhile_not [of "CHR ''`''" "tl s"]
  by (auto simp: match_code_def Let_def split: list.splits if_splits)

lemma match_strong_source: "match_strong s = Some (t, rest) \<Longrightarrow> s = token_source t @ rest"
  by (auto simp: match_strong_def Let_def starts_with_iff split: if_splits intro: takeWhile_dropWhile_eq)

lemma match_link_source: "match_link s = Some (t, rest) \<Longrightarrow> s = token_source t @ rest"
proof -
  assume m: "match_link s = Some (t, rest)"
  then obtain r where s: "s = CHR ''['' # r"
    by (auto simp: match_link_def split: list.splits if_splits)
  let ?r1 = "dropWhile (\<lambda>x. x \<noteq> CHR '']'') r"
  from m s obtain u where u: "?r1 = ''](''  @ u"
    by (auto simp: match_link_def Let_def starts_with_iff split: if_splits)
  have "r = takeWhile (\<lambda>x. x \<noteq> CHR '']'') r @ ?r1" by simp
  with u have "r = takeWhile (\<lambda>x. x \<noteq> CHR '']'') r @ ''](''  @ u" by simp
  moreover from m s u have "dropWhile (\<lambda>x. x \<noteq> CHR '')'') u \<noteq> []"
    by (auto simp: match_link_def Let_def split: if_splits)
  ultimately show ?thesis
    using m s u hd_dropWhile_not [of "CHR '')''" u]
    by (auto simp: match_link_def Let_def split: if_splits)
qed

lemma match_token_source: "match_token s = Some (t, rest) \<Longrightarrow> s = token_source t @ rest"
  by (auto simp: match_token_def dest: match_code_source match_strong_source match_link_source split: option.splits)

lemma match_token_kind: "match_token s = Some (t, rest) \<Longrightarrow> token_source t \<noteq> [] \<and> (\<forall>x. t \<noteq> TText x)"
  by (auto simp: match_token_def match_code_def match_strong_def match_link_def Let_def
      split: option.splits list.splits if_splits)

lemma match_token_shorter: "match_token s = Some (t, rest) \<Longrightarrow> length rest < length s"
  using match_token_source [of s t rest] match_token_kind [of s t rest] by (cases "token_source t") auto

text \<open>
  The scanning loop of \<open>splitInline\<close>: \<open>idx\<close> is the position in the text, \<open>pend\<close>
  the plain text since the last token. Every token carries the position it starts at.
\<close>

definition flush :: "nat \<Rightarrow> string \<Rightarrow> (nat \<times> token) list" where
  "flush idx pend = (if pend = [] then [] else [(idx - length pend, TText pend)])"

function scan :: "nat \<Rightarrow> string \<Rightarrow> string \<Rightarrow> (nat \<times> token) list" where
  "scan idx pend [] = flush idx pend"
| "scan idx pend (c # s) =
     (case match_token (c # s) of
        None \<Rightarrow> scan (Suc idx) (pend @ [c]) s
      | Some (t, rest) \<Rightarrow> flush idx pend @ (idx, t) # scan (idx + length (token_source t)) [] rest)"
  by pat_completeness auto
termination
  by (relation "measure (\<lambda>(i, p, s). length s)") (auto dest: match_token_shorter)

definition tokenize :: "string \<Rightarrow> (nat \<times> token) list" where
  "tokenize text = scan 0 [] text"

section \<open>Links\<close>

definition strip_md :: "string \<Rightarrow> string" where
  "strip_md s = (if ends_with ''.md'' (to_lower s) then drop_last 3 s else s)"

text \<open>The reducer that normalises a path.\<close>

definition push_segment :: "string list \<Rightarrow> string \<Rightarrow> string list" where
  "push_segment acc seg =
     (if seg = ''.'' \<or> seg = [] then acc
      else if seg = ''..'' then butlast acc
      else acc @ [seg])"

definition normal_segments :: "string list \<Rightarrow> string list" where
  "normal_segments segs = foldl push_segment [] segs"

definition back_to_slash :: "string \<Rightarrow> string" where
  "back_to_slash s = map (\<lambda>c. if c = char_of (92 :: nat) then CHR ''/'' else c) s"

record link_opts =
  lo_baseSlug :: "string list"
  lo_basePrefix :: "string option"
  lo_routeBase :: "string option"

definition non_blank :: "string option \<Rightarrow> bool" where
  "non_blank s \<longleftrightarrow> (case s of None \<Rightarrow> False | Some t \<Rightarrow> trim t \<noteq> [])"

definition link_prefix :: "link_opts \<Rightarrow> string" where
  "link_prefix o1 = (if non_blank (lo_basePrefix o1) then the (lo_basePrefix o1) else [])"

definition link_base :: "link_opts \<Rightarrow> string" where
  "link_base o1 =
     (if non_blank (lo_routeBase o1) then dropWhile (\<lambda>c. c = CHR ''/'') (trim (the (lo_routeBase o1)))
      else ''docs'')"

definition md_path :: "link_opts \<Rightarrow> string \<Rightarrow> string list" where
  "md_path o1 withoutHash =
     (let rel = back_to_slash withoutHash;
          baseDir = join ''/'' (butlast (lo_baseSlug o1));
          joined = (if baseDir = [] then [] else baseDir @ ''/'') @ rel
      in normal_segments (split_on (CHR ''/'') joined))"

definition resolveHref :: "link_opts \<Rightarrow> string \<Rightarrow> string" where
  "resolveHref o1 href =
     (let trimmed = trim href in
      if starts_with ''http://'' trimmed \<or> starts_with ''https://'' trimmed then trimmed
      else if starts_with ''#'' trimmed then trimmed
      else if starts_with ''/'' trimmed then trimmed
      else
        let withoutHash = hd (split_on (CHR ''#'') trimmed);
            hash = (if CHR ''#'' \<in> set trimmed then ''#'' @ join ''#'' (tl (split_on (CHR ''#'') trimmed)) else [])
        in if ends_with ''.md'' (to_lower withoutHash)
           then
             let withoutExt = strip_md (join ''/'' (md_path o1 withoutHash));
                 root = link_prefix o1 @ ''/'' @ link_base o1
             in if withoutExt = ''index'' then root @ hash
                else if ends_with ''/index'' withoutExt
                  then root @ ''/'' @ drop_last 6 withoutExt @ hash
                else root @ ''/'' @ withoutExt @ hash
           else trimmed)"

text \<open>The rendered parts of a text: \<open>key\<close> position, kind, and the resolved link.\<close>

datatype part = PText string | PCode nat string | PStrong nat string | PLink nat string string

fun render_token :: "link_opts \<Rightarrow> nat \<times> token \<Rightarrow> part" where
  "render_token o1 (i, TText s) = PText s"
| "render_token o1 (i, TCode s) = PCode i s"
| "render_token o1 (i, TStrong s) = PStrong i s"
| "render_token o1 (i, TLink l h) = PLink i (resolveHref o1 h) l"

definition splitInline :: "link_opts \<Rightarrow> string \<Rightarrow> part list" where
  "splitInline o1 text = map (render_token o1) (tokenize text)"

section \<open>Lemmas\<close>

lemma flush_source: "concat (map (\<lambda>x. token_source (snd x)) (flush i p)) = p"
  by (simp add: flush_def)

lemma scan_source: "concat (map (\<lambda>x. token_source (snd x)) (scan idx pend s)) = pend @ s"
proof (induction idx pend s rule: scan.induct)
  case (1 idx pend)
  show ?case by (simp add: flush_source)
next
  case (2 idx pend c s)
  show ?case
  proof (cases "match_token (c # s)")
    case None
    with 2 show ?thesis by simp
  next
    case (Some tr)
    obtain t rest where tr: "tr = (t, rest)" by (cases tr)
    with Some have "c # s = token_source t @ rest" by (auto intro: match_token_source)
    moreover have "scan idx pend (c # s) = flush idx pend @ (idx, t) # scan (idx + length (token_source t)) [] rest"
      using Some tr by simp
    ultimately show ?thesis using 2(2) [OF Some tr [symmetric]] by (simp add: flush_source)
  qed
qed

lemma scan_positions:
  "length pend \<le> idx \<Longrightarrow> (i, t) \<in> set (scan idx pend s) \<Longrightarrow>
     idx - length pend \<le> i \<and> starts_with (token_source t) (drop (i - (idx - length pend)) (pend @ s))"
proof (induction idx pend s rule: scan.induct)
  case (1 idx pend)
  then show ?case by (auto simp: flush_def split: if_splits)
next
  case (2 idx pend c s)
  show ?case
  proof (cases "match_token (c # s)")
    case None
    with 2 show ?thesis by (auto simp: Suc_diff_le)
  next
    case (Some tr)
    obtain tk rest where tr: "tr = (tk, rest)" by (cases tr)
    with Some have src: "c # s = token_source tk @ rest" by (auto intro: match_token_source)
    from 2(3,4) Some tr consider
        (f) "(i, t) \<in> set (flush idx pend)" | (k) "i = idx" "t = tk"
      | (r) "(i, t) \<in> set (scan (idx + length (token_source tk)) [] rest)"
      by auto
    then show ?thesis
    proof cases
      case f
      then show ?thesis using 2(3) by (auto simp: flush_def split: if_splits)
    next
      case k
      then show ?thesis using 2(3) src by simp
    next
      case r
      from 2(2) [OF Some tr [symmetric] _ r] have i: "idx + length (token_source tk) \<le> i"
        "starts_with (token_source t) (drop (i - (idx + length (token_source tk))) rest)" by simp_all
      have "drop (i - (idx - length pend)) (pend @ token_source tk @ rest) =
          drop (i - (idx + length (token_source tk))) rest"
        using i(1) 2(3) by (simp add: drop_append)
      then show ?thesis using i src 2(3) by simp
    qed
  qed
qed

lemma dash_runs_chars: "c \<in> set (dash_runs s) \<Longrightarrow> is_slug_char c \<or> c = CHR ''-''"
  by (induction s rule: dash_runs.induct) (auto split: if_splits)

lemma set_strip_dashes: "c \<in> set (strip_dashes s) \<Longrightarrow> c \<in> set s"
  unfolding strip_dashes_def Let_def by (metis set_dropWhileD set_rev)

lemma hd_rev_dropWhile:
  assumes "dropWhile P (rev t) \<noteq> []"
  shows "hd (rev (dropWhile P (rev t))) = hd t"
proof -
  obtain a r where a: "rev t = a @ r" and r: "dropWhile P (rev t) = r"
    by (metis takeWhile_dropWhile_id)
  from a have "t = rev r @ rev a" by (metis rev_append rev_rev_ident)
  moreover from assms have "r \<noteq> []" unfolding r .
  ultimately show ?thesis unfolding r by simp
qed

lemma strip_ends:
  assumes "rev (dropWhile P (rev (dropWhile P s))) \<noteq> []"
  shows "\<not> P (hd (rev (dropWhile P (rev (dropWhile P s)))))" "\<not> P (last (rev (dropWhile P (rev (dropWhile P s)))))"
proof -
  let ?t = "dropWhile P s"
  from assms have r: "dropWhile P (rev ?t) \<noteq> []" unfolding rev_is_Nil_conv .
  then have t: "?t \<noteq> []" by (rule contrapos_nn) (simp only: rev.simps dropWhile.simps)
  show "\<not> P (hd (rev (dropWhile P (rev ?t))))"
    unfolding hd_rev_dropWhile [OF r] using t by (rule hd_dropWhile)
  show "\<not> P (last (rev (dropWhile P (rev ?t))))"
    unfolding last_rev using r by (rule hd_dropWhile)
qed

lemma hd_strip_dashes: "strip_dashes s \<noteq> [] \<Longrightarrow> hd (strip_dashes s) \<noteq> CHR ''-'' \<and> last (strip_dashes s) \<noteq> CHR ''-''"
  unfolding strip_dashes_def Let_def by (rule conjI) (erule strip_ends [where P = "\<lambda>c. c = CHR ''-''"])+

lemma foldl_push_inv:
  "(\<forall>w \<in> set acc. w \<notin> {'''', ''.'', ''..''}) \<Longrightarrow>
     \<forall>w \<in> set (foldl push_segment acc segs). w \<notin> {'''', ''.'', ''..''}"
proof (induction segs arbitrary: acc)
  case Nil
  then show ?case by simp
next
  case (Cons s segs)
  have "\<forall>w \<in> set (push_segment acc s). w \<notin> {'''', ''.'', ''..''}"
    using Cons.prems by (auto simp: push_segment_def dest: in_set_butlastD)
  from Cons.IH [OF this] show ?case by simp
qed

lemma normal_segments_clean: "w \<in> set (normal_segments segs) \<Longrightarrow> w \<notin> {'''', ''.'', ''..''}"
  using foldl_push_inv [of "[]" segs] by (simp add: normal_segments_def)

lemma normal_segments_id:
  "(\<forall>w \<in> set segs. w \<notin> {'''', ''.'', ''..''}) \<Longrightarrow> normal_segments segs = segs"
proof -
  have "(\<forall>w \<in> set segs. w \<notin> {'''', ''.'', ''..''}) \<Longrightarrow> foldl push_segment acc segs = acc @ segs" for acc
    by (induction segs arbitrary: acc) (auto simp: push_segment_def)
  then show "(\<forall>w \<in> set segs. w \<notin> {'''', ''.'', ''..''}) \<Longrightarrow> normal_segments segs = segs"
    by (simp add: normal_segments_def)
qed

lemma dash_runs_slug: "is_slug_char d \<Longrightarrow> \<exists>r. dash_runs (d # s) = d # r"
  by (cases s) auto

lemma slug_char_not_dash: "is_slug_char c \<Longrightarrow> c \<noteq> CHR ''-''"
  by (auto simp: is_slug_char_def is_digit_def is_upper_def is_lower_def code_of_def)

lemma dash_runs_single: "\<not> str_includes ''--'' (dash_runs s)"
proof (induction s rule: dash_runs.induct)
  case 1
  show ?case by simp
next
  case (2 c)
  show ?case by (auto dest: slug_char_not_dash)
next
  case (3 c d s)
  have "\<not> str_includes ''--'' (x # dash_runs (d # s))"
    if "\<not> str_includes ''--'' (dash_runs (d # s))" "x \<noteq> CHR ''-'' \<or> is_slug_char d" for x
    using that dash_runs_slug [of d s] slug_char_not_dash [of d] by auto
  then show ?case using 3 slug_char_not_dash [of c] by auto
qed

lemma strip_dashes_infix: "\<exists>u v. s = u @ strip_dashes s @ v"
proof -
  let ?d = "\<lambda>c. c = CHR ''-''"
  obtain u t where s: "s = u @ t" and t: "dropWhile ?d s = t" by (metis takeWhile_dropWhile_id)
  obtain v r where "rev t = v @ r" and r: "dropWhile ?d (rev t) = r" by (metis takeWhile_dropWhile_id)
  then have "t = rev r @ rev v" by (metis rev_append rev_rev_ident)
  with s have "s = u @ rev r @ rev v" by simp
  then show ?thesis unfolding strip_dashes_def Let_def t r by blast
qed

lemma not_upper_lower_char: "\<not> is_upper (lower_char c)"
  by (auto simp: lower_char_def is_upper_def)

lemma set_trim: "c \<in> set (trim s) \<Longrightarrow> c \<in> set s"
  unfolding trim_def trim_end_def trim_start_def by (metis set_dropWhileD set_rev)

lemma dash_runs_from: "c \<in> set (dash_runs s) \<Longrightarrow> c \<in> set s \<or> c = CHR ''-''"
  by (induction s rule: dash_runs.induct) (auto split: if_splits)

section \<open>Properties\<close>

text \<open>C18: no text is lost or invented by the inline tokenizer: the sources of the tokens, in order,
  concatenate to the text; every token is found in the text at the position it carries.\<close>

theorem tokenize_roundtrip:
  "concat (map (\<lambda>x. token_source (snd x)) (tokenize text)) = text \<and>
   (\<forall>(i, t) \<in> set (tokenize text). starts_with (token_source t) (drop i text))"
  using scan_source [of 0 "[]" "text"] scan_positions [of "[]" 0 _ _ "text"] by (auto simp: tokenize_def)

theorem tokenize_roundtrip_witness:
  "concat (map (\<lambda>x. token_source (snd x)) (tokenize ''a `b` [c](d.md)'')) = ''a `b` [c](d.md)''"
  using tokenize_roundtrip [of "''a `b` [c](d.md)''"] by blast

text \<open>C22: an anchor contains only letters that are not upper case, digits and dashes, never starts or
  ends with a dash and never has two dashes in a row.\<close>

theorem slugify_wellformed:
  "(\<forall>c \<in> set (slugify text). (is_slug_char c \<and> \<not> is_upper c) \<or> c = CHR ''-'') \<and>
   \<not> str_includes ''--'' (slugify text) \<and>
   (slugify text \<noteq> [] \<longrightarrow> hd (slugify text) \<noteq> CHR ''-'' \<and> last (slugify text) \<noteq> CHR ''-'')"
proof -
  let ?s = "filter (\<lambda>c. \<not> is_slug_removed c) (trim (to_lower text))"
  have up: "\<not> is_upper c" if "c \<in> set ?s" for c
    using that set_trim [of c "to_lower text"] by (auto simp: to_lower_def not_upper_lower_char)
  have "(is_slug_char c \<and> \<not> is_upper c) \<or> c = CHR ''-''" if "c \<in> set (slugify text)" for c
    using that up [of c] set_strip_dashes [of c "dash_runs ?s"] dash_runs_chars [of c ?s]
      dash_runs_from [of c ?s]
    unfolding slugify_def by blast
  moreover obtain u v where "dash_runs ?s = u @ slugify text @ v"
    using strip_dashes_infix [of "dash_runs ?s"] unfolding slugify_def by blast
  then have "\<not> str_includes ''--'' (slugify text)"
    using dash_runs_single [of ?s] unfolding str_includes_iff by (metis append.assoc)
  ultimately show ?thesis using hd_strip_dashes [of "dash_runs ?s"] unfolding slugify_def by blast
qed

theorem slugify_wellformed_witness:
  "slugify ''Hi There'' \<noteq> [] \<and> hd (slugify ''Hi There'') \<noteq> CHR ''-''"
proof -
  have "slugify ''Hi There'' \<noteq> []" by code_simp
  with slugify_wellformed [of "''Hi There''"] show ?thesis by blast
qed

text \<open>A relative link to another document, as the renderer recognises it.\<close>

definition is_md_link :: "string \<Rightarrow> bool" where
  "is_md_link href \<longleftrightarrow>
     (let t = trim href in
      \<not> starts_with ''http://'' t \<and> \<not> starts_with ''https://'' t \<and> \<not> starts_with ''#'' t \<and>
      \<not> starts_with ''/'' t \<and> ends_with ''.md'' (to_lower (hd (split_on (CHR ''#'') t))))"

text \<open>A link that is not a relative document link is passed through unchanged but for
  surrounding blanks; a relative document link always leads below the documentation root of the
  page (prefix and route base), and the path it is resolved to has no empty, dot or dot-dot
  segment before its extension is removed.\<close>

theorem resolveHref_cases:
  "(\<not> is_md_link href \<longrightarrow> resolveHref o1 href = trim href) \<and>
   (is_md_link href \<longrightarrow>
     (\<exists>tail. resolveHref o1 href = link_prefix o1 @ ''/'' @ link_base o1 @ tail) \<and>
     (\<forall>w \<in> set (md_path o1 (hd (split_on (CHR ''#'') (trim href)))). w \<notin> {[], ''.'', ''..''}))"
  using normal_segments_clean
  by (auto simp: is_md_link_def resolveHref_def md_path_def Let_def)

definition plain_opts :: link_opts where
  "plain_opts = \<lparr>lo_baseSlug = [''install'', ''linux''], lo_basePrefix = None, lo_routeBase = None\<rparr>"

theorem resolveHref_cases_witness:
  "is_md_link ''../index.md#top'' \<and> (\<exists>tail. resolveHref plain_opts ''../index.md#top'' =
     link_prefix plain_opts @ ''/'' @ link_base plain_opts @ tail)"
proof -
  have "is_md_link ''../index.md#top''" by code_simp
  with resolveHref_cases [of "''../index.md#top''" plain_opts] show ?thesis by blast
qed

text \<open>The extension is removed after the path is normalised, so a document name made of dots
  escapes the check: the link ...md resolves to the dot-dot segment below the root.\<close>

theorem resolveHref_dots_escape:
  "resolveHref \<lparr>lo_baseSlug = [''index''], lo_basePrefix = None, lo_routeBase = None\<rparr> ''...md'' = ''/docs/..''"
  by code_simp

end
