(* ===== verification/Markdown_Blocks.thy ===== *)
theory Markdown_Blocks
  imports Markdown_Inline
begin

text \<open>
  The block half of the markdown renderer (\<open>renderMarkdown\<close> of
  \<open>lib/docs/markdown.tsx\<close>): one iteration of its loop over the lines (\<open>md_step\<close>),
  the loop itself as a partial function, since it does not stop on every input, heading
  anchors with their counters, and tables. An inner loop that collects lines while a
  condition holds is \<open>takeWhile\<close> and \<open>dropWhile\<close>; \<open>m_i\<close> is the line index
  that the keys of the nodes are made of.
\<close>

section \<open>Line patterns\<close>

definition is_fence :: "string \<Rightarrow> bool" where
  "is_fence l \<longleftrightarrow> starts_with ''```'' l"

definition is_blank :: "string \<Rightarrow> bool" where
  "is_blank l \<longleftrightarrow> list_all is_ws l"

definition is_quote :: "string \<Rightarrow> bool" where
  "is_quote l \<longleftrightarrow> starts_with ''>'' l"

definition strip_quote :: "string \<Rightarrow> string" where
  "strip_quote l = (case tl l of [] \<Rightarrow> [] | c # r \<Rightarrow> if is_ws c then r else c # r)"

definition is_bullet :: "string \<Rightarrow> bool" where
  "is_bullet l \<longleftrightarrow>
     (case l of c # d # _ \<Rightarrow> (c = CHR ''*'' \<or> c = CHR ''-'') \<and> is_ws d | _ \<Rightarrow> False)"

definition strip_bullet :: "string \<Rightarrow> string" where
  "strip_bullet l = dropWhile is_ws (tl l)"

definition is_ordered :: "string \<Rightarrow> bool" where
  "is_ordered l \<longleftrightarrow>
     takeWhile is_digit l \<noteq> [] \<and>
     (case dropWhile is_digit l of c # d # _ \<Rightarrow> c = CHR ''.'' \<and> is_ws d | _ \<Rightarrow> False)"

definition strip_ordered :: "string \<Rightarrow> string" where
  "strip_ordered l = dropWhile is_ws (tl (dropWhile is_digit l))"

definition is_rule :: "string \<Rightarrow> bool" where
  "is_rule l \<longleftrightarrow>
     (let t = trim l in 3 \<le> length t \<and>
       (list_all (\<lambda>c. c = CHR ''-'') t \<or> list_all (\<lambda>c. c = CHR ''*'') t \<or> list_all (\<lambda>c. c = CHR ''_'') t))"

text \<open>\<open>/^(#{1,4})\s+/\<close>: one to four hashes, then a blank.\<close>

definition heading_hashes :: "string \<Rightarrow> nat" where
  "heading_hashes l = length (takeWhile (\<lambda>c. c = CHR ''#'') l)"

definition has_heading_mark :: "string \<Rightarrow> bool" where
  "has_heading_mark l \<longleftrightarrow>
     1 \<le> heading_hashes l \<and> heading_hashes l \<le> 4 \<and>
     (case drop (heading_hashes l) l of [] \<Rightarrow> False | c # _ \<Rightarrow> is_ws c)"

text \<open>
  \<open>/^(#{1,4})\s+(.+)$/\<close>: level and text. When only blanks follow the hashes the match
  backtracks and the text is the last of at least two blanks; the dot never matches a
  carriage return.
\<close>

definition heading_match :: "string \<Rightarrow> (nat \<times> string) option" where
  "heading_match l =
     (if \<not> has_heading_mark l then None
      else let after = drop (heading_hashes l) l;
               body = dropWhile is_ws after;
               found = (if body \<noteq> [] then body else if 2 \<le> length after then [last after] else [])
        in if found = [] \<or> char_of (13 :: nat) \<in> set found then None
           else Some (heading_hashes l, found))"

definition is_table_row :: "string \<Rightarrow> bool" where
  "is_table_row l \<longleftrightarrow> CHR ''|'' \<in> set l \<and> \<not> starts_with ''```'' (trim_start l)"

text \<open>\<open>l.trim().replace(/^\|/, "").replace(/\|$/, "").split("|").map(c => c.trim())\<close>.\<close>

definition splitCells :: "string \<Rightarrow> string list" where
  "splitCells l =
     (let t = trim l;
          t1 = (if starts_with ''|'' t then tl t else t);
          t2 = (if ends_with ''|'' t1 then butlast t1 else t1)
      in map trim (split_on (CHR ''|'') t2))"

text \<open>A cell of a separator row: \<open>:?-{3,}:?\<close>; the row has at least two of them.\<close>

definition is_sep_cell :: "string \<Rightarrow> bool" where
  "is_sep_cell c \<longleftrightarrow>
     (let c1 = (if starts_with '':'' c then tl c else c);
          c2 = (if ends_with '':'' c1 then butlast c1 else c1)
      in 3 \<le> length c2 \<and> list_all (\<lambda>x. x = CHR ''-'') c2)"

definition is_table_sep :: "string \<Rightarrow> bool" where
  "is_table_sep l \<longleftrightarrow> 2 \<le> length (splitCells l) \<and> list_all is_sep_cell (splitCells l)"

datatype text_align = ALeft | ACenter | ARight

definition cell_align :: "string \<Rightarrow> text_align" where
  "cell_align c =
     (let left = starts_with '':'' c; right = ends_with '':'' c
      in if left \<and> right then ACenter else if right then ARight else ALeft)"

section \<open>State and nodes\<close>

datatype block =
    Heading nat string "part list"          \<comment> \<open>level, id\<close>
  | CodeBlock nat string "string option"    \<comment> \<open>key index, code, language\<close>
  | Quote nat "part list list"
  | Bullets nat "part list list"
  | Numbered nat "part list list"
  | Rule nat
  | Table nat "text_align list" "part list list" "part list list list"
  | Paragraph nat nat "part list"           \<comment> \<open>key index and length\<close>

record toc_item =
  t_id :: string
  t_text :: string
  t_level :: nat

record md_state =
  m_i :: nat
  m_rest :: "string list"
  m_nodes :: "block list"
  m_toc :: "toc_item list"
  m_seen :: "(string, nat) js_map"

text \<open>\<open>nextId\<close>: the anchor and the updated counters.\<close>

definition id_base :: "string \<Rightarrow> string" where
  "id_base text = (if slugify text = [] then ''section'' else slugify text)"

definition nextId :: "(string, nat) js_map \<Rightarrow> string \<Rightarrow> string \<times> (string, nat) js_map" where
  "nextId seen text =
     (let base = id_base text;
          n = (case map_get seen base of None \<Rightarrow> 0 | Some k \<Rightarrow> k)
      in (if n = 0 then base else base @ ''-'' @ show_nat (n + 1), map_set base (n + 1) seen))"

definition breaks_paragraph :: "string \<Rightarrow> bool" where
  "breaks_paragraph l \<longleftrightarrow>
     is_blank l \<or> is_fence l \<or> has_heading_mark l \<or> is_quote l \<or> is_bullet l \<or> is_ordered l"

text \<open>Collecting lines: those collected, the rest, the index after them.\<close>

definition push_block :: "block \<Rightarrow> nat \<Rightarrow> string list \<Rightarrow> md_state \<Rightarrow> md_state" where
  "push_block b i rest st = st\<lparr>m_i := i, m_rest := rest, m_nodes := m_nodes st @ [b]\<rparr>"

definition step_fence :: "string \<Rightarrow> string list \<Rightarrow> md_state \<Rightarrow> md_state" where
  "step_fence line ls st =
     (let lang = (let t = trim (drop 3 line) in if t = [] then None else Some t);
          codeLines = takeWhile (\<lambda>l. \<not> is_fence l) ls;
          i = m_i st + 1 + length codeLines + 1
      in push_block (CodeBlock i (trim_end (join newline codeLines)) lang) i
           (drop 1 (dropWhile (\<lambda>l. \<not> is_fence l) ls)) st)"

definition step_heading :: "link_opts \<Rightarrow> nat \<times> string \<Rightarrow> string list \<Rightarrow> md_state \<Rightarrow> md_state" where
  "step_heading o1 lt ls st =
     (let level = fst lt; text = trim (snd lt);
          (hid, seen) = nextId (m_seen st) text;
          st1 = st\<lparr>m_seen := seen,
                   m_toc := (if 2 \<le> level then m_toc st @ [\<lparr>t_id = hid, t_text = text, t_level = level\<rparr>]
                             else m_toc st)\<rparr>
      in push_block (Heading level hid (splitInline o1 text)) (m_i st + 1) ls st1)"

definition step_lines ::
  "(string \<Rightarrow> bool) \<Rightarrow> (string \<Rightarrow> string) \<Rightarrow> (nat \<Rightarrow> part list list \<Rightarrow> block) \<Rightarrow> link_opts \<Rightarrow> md_state \<Rightarrow> md_state" where
  "step_lines is_line strip mk o1 st =
     (let items = map strip (takeWhile is_line (m_rest st)); i = m_i st + length items
      in push_block (mk i (map (splitInline o1) items)) i (dropWhile is_line (m_rest st)) st)"

definition step_table :: "link_opts \<Rightarrow> string \<Rightarrow> string \<Rightarrow> string list \<Rightarrow> md_state \<Rightarrow> md_state" where
  "step_table o1 headerLine sepLine ls st =
     (let is_body = (\<lambda>l. l \<noteq> [] \<and> is_table_row l);
          rows = takeWhile is_body ls; i = m_i st + 2 + length rows
      in push_block
           (Table i (map cell_align (splitCells sepLine)) (map (splitInline o1) (splitCells headerLine))
              (map (\<lambda>r. map (splitInline o1) (splitCells r)) rows))
           i (dropWhile is_body ls) st)"

definition step_paragraph :: "link_opts \<Rightarrow> md_state \<Rightarrow> md_state" where
  "step_paragraph o1 st =
     (let paraLines = takeWhile (\<lambda>l. \<not> breaks_paragraph l) (m_rest st);
          para = trim (join '' '' paraLines); i = m_i st + length paraLines
      in push_block (Paragraph i (length para) (splitInline o1 para)) i
           (dropWhile (\<lambda>l. \<not> breaks_paragraph l) (m_rest st)) st)"

text \<open>One iteration of the loop; the order of the tests is the source's.\<close>

definition md_step :: "link_opts \<Rightarrow> md_state \<Rightarrow> md_state" where
  "md_step o1 st =
     (case m_rest st of
        [] \<Rightarrow> st
      | line # ls \<Rightarrow>
          if is_fence line then step_fence line ls st
          else (case heading_match line of
              Some lt \<Rightarrow> step_heading o1 lt ls st
            | None \<Rightarrow>
                if is_blank line then st\<lparr>m_i := m_i st + 1, m_rest := ls\<rparr>
                else if is_quote line then step_lines is_quote strip_quote Quote o1 st
                else if is_bullet line then step_lines is_bullet strip_bullet Bullets o1 st
                else if is_ordered line then step_lines is_ordered strip_ordered Numbered o1 st
                else if is_rule line then push_block (Rule (m_i st)) (m_i st + 1) ls st
                else if is_table_row line \<and> (case ls of [] \<Rightarrow> False | l2 # _ \<Rightarrow> is_table_sep l2)
                  then step_table o1 line (hd ls) (tl ls) st
                else step_paragraph o1 st))"

partial_function (option) md_loop :: "link_opts \<Rightarrow> md_state \<Rightarrow> md_state option" where
  "md_loop o1 st = (if m_rest st = [] then Some st else md_loop o1 (md_step o1 st))"

declare md_loop.simps [code]

definition md_start :: "string list \<Rightarrow> md_state" where
  "md_start lines = \<lparr>m_i = 0, m_rest = lines, m_nodes = [], m_toc = [], m_seen = []\<rparr>"

definition renderMarkdown :: "link_opts \<Rightarrow> string \<Rightarrow> (block list \<times> toc_item list) option" where
  "renderMarkdown o1 md =
     map_option (\<lambda>st. (m_nodes st, m_toc st)) (md_loop o1 (md_start (split_lines md)))"

text \<open>
  A line on which the renderer is stuck when it starts a block there: it ends every
  paragraph as a heading would, but is not a heading. Such a line is one to four hashes
  and a single blank.
\<close>

definition stuck_line :: "string \<Rightarrow> bool" where
  "stuck_line l \<longleftrightarrow> has_heading_mark l \<and> heading_match l = None"

section \<open>Lemmas: progress\<close>

lemma push_block_simps [simp]:
  "m_rest (push_block b i r st) = r" "m_nodes (push_block b i r st) = m_nodes st @ [b]"
  "m_toc (push_block b i r st) = m_toc st" "m_seen (push_block b i r st) = m_seen st"
  by (simp_all add: push_block_def)

lemma length_dropWhile_less: "P x \<Longrightarrow> length (dropWhile P (x # xs)) < Suc (length xs)"
  using length_dropWhile_le [of P xs] by simp

lemma m_rest_step_lines:
  "m_rest (step_lines P f mk o1 st) = dropWhile P (m_rest st)"
  by (simp add: step_lines_def Let_def)

lemma m_rest_step_fence: "m_rest (step_fence l ls st) = drop 1 (dropWhile (\<lambda>l. \<not> is_fence l) ls)"
  by (simp add: step_fence_def Let_def)

lemma m_rest_step_heading: "m_rest (step_heading o1 lt ls st) = ls"
  by (simp add: step_heading_def Let_def split: prod.split)

lemma m_rest_step_table:
  "m_rest (step_table o1 h s ls st) = dropWhile (\<lambda>l. l \<noteq> [] \<and> is_table_row l) ls"
  by (simp add: step_table_def Let_def)

lemma m_rest_step_paragraph: "m_rest (step_paragraph o1 st) = dropWhile (\<lambda>l. \<not> breaks_paragraph l) (m_rest st)"
  by (simp add: step_paragraph_def Let_def)

lemmas m_rest_steps =
  m_rest_step_lines m_rest_step_fence m_rest_step_heading m_rest_step_table m_rest_step_paragraph

text \<open>Every iteration but one on a stuck line consumes a line; none adds any.\<close>

lemma md_step_consumes:
  assumes "m_rest st = line # ls" and "\<not> stuck_line line"
  shows "length (m_rest (md_step o1 st)) < length (m_rest st)"
proof -
  have le: "length (dropWhile P xs) \<le> length xs" for P and xs :: "string list"
    by (rule length_dropWhile_le)
  have drop1: "length (drop 1 (dropWhile P ls)) < Suc (length ls)" for P
    using le [of P ls] by simp
  have table: "length (dropWhile P (tl ls)) < Suc (length ls)" for P
    using le [of P "tl ls"] by (cases ls) auto
  have para: "heading_match line = None \<Longrightarrow> \<not> is_fence line \<Longrightarrow> \<not> is_blank line \<Longrightarrow> \<not> is_quote line \<Longrightarrow>
      \<not> is_bullet line \<Longrightarrow> \<not> is_ordered line \<Longrightarrow> \<not> breaks_paragraph line"
    using assms(2) by (simp add: breaks_paragraph_def stuck_line_def)
  show ?thesis
    using assms(1) drop1 table para
    by (auto simp: md_step_def m_rest_steps length_dropWhile_less le_imp_less_Suc le
        simp del: dropWhile.simps split: option.split)
qed

lemma set_md_step: "set (m_rest (md_step o1 st)) \<subseteq> set (m_rest st)"
proof (cases "m_rest st")
  case Nil
  then show ?thesis by (simp add: md_step_def)
next
  case (Cons line ls)
  have dw: "set (dropWhile P xs) \<subseteq> set xs" for P and xs :: "string list"
    by (auto dest: set_dropWhileD)
  have d1: "set (drop 1 (dropWhile P xs)) \<subseteq> set xs" for P and xs :: "string list"
    using dw [of P xs] by (auto dest: in_set_dropD)
  have tlw: "set (dropWhile P (tl xs)) \<subseteq> set xs" for P and xs :: "string list"
    using dw [of P "tl xs"] by (cases xs) auto
  show ?thesis
    using Cons d1 [of _ ls] tlw [of _ ls] dw [of _ "line # ls"]
    by (auto simp: md_step_def m_rest_steps subset_iff simp del: dropWhile.simps split: option.split)
qed

lemma md_loop_terminates:
  "(\<forall>l \<in> set (m_rest st). \<not> stuck_line l) \<Longrightarrow> \<exists>st'. md_loop o1 st = Some st'"
proof (induction "length (m_rest st)" arbitrary: st rule: less_induct)
  case less
  show ?case
  proof (cases "m_rest st")
    case Nil
    then show ?thesis by (simp add: md_loop.simps)
  next
    case (Cons line ls)
    with less.prems have "\<not> stuck_line line" by simp
    then have "length (m_rest (md_step o1 st)) < length (m_rest st)" by (rule md_step_consumes [OF Cons])
    moreover have "\<forall>l \<in> set (m_rest (md_step o1 st)). \<not> stuck_line l"
      using set_md_step [of o1 st] less.prems by blast
    ultimately obtain st' where "md_loop o1 (md_step o1 st) = Some st'" using less.hyps by blast
    with Cons show ?thesis by (subst md_loop.simps) simp
  qed
qed

text \<open>On a stuck line an iteration leaves the lines as they are, so the loop never returns.\<close>

lemma md_step_stuck:
  assumes "m_rest st = l # ls" and "stuck_line l" and "\<not> is_table_row l"
  shows "m_rest (md_step o1 st) = l # ls"
proof -
  from assms(2) have m: "has_heading_mark l" "heading_match l = None" by (simp_all add: stuck_line_def)
  then obtain r where l: "l = CHR ''#'' # r"
    by (cases l) (auto simp: has_heading_mark_def heading_hashes_def split: if_splits)
  have "\<not> is_fence l" "\<not> is_quote l" "\<not> is_bullet l"
    by (auto simp: is_fence_def is_quote_def is_bullet_def l split: list.split)
  moreover have "\<not> is_blank l" "\<not> is_ordered l"
    by (simp_all add: is_blank_def is_ordered_def l is_ws_def is_digit_def code_of_def)
  moreover have "\<not> is_rule l"
  proof -
    have "trim_start l = l" by (simp add: trim_start_def l is_ws_def code_of_def)
    moreover have "trim_end l = [] \<or> hd (trim_end l) = CHR ''#''"
    proof -
      obtain a b where "rev l = a @ b" and b: "dropWhile is_ws (rev l) = b" by (metis takeWhile_dropWhile_id)
      then have "l = rev b @ rev a" by (metis rev_append rev_rev_ident)
      then show ?thesis using l unfolding trim_end_def b by (cases "rev b") auto
    qed
    ultimately have "trim l = [] \<or> hd (trim l) = CHR ''#''" by (simp add: trim_def)
    then show ?thesis by (cases "trim l") (auto simp: is_rule_def Let_def)
  qed
  ultimately show ?thesis
    using assms(1,3) m by (simp add: md_step_def m_rest_steps breaks_paragraph_def)
qed

lemma md_loop_stuck:
  assumes "m_rest st = l # ls" and "stuck_line l" and "\<not> is_table_row l"
  shows "md_loop o1 st = None"
proof (rule ccontr)
  assume "md_loop o1 st \<noteq> None"
  then obtain r where r: "md_loop o1 st = Some r" by blast
  have "m_rest st \<noteq> l # ls"
  proof (rule md_loop.raw_induct [where P = "\<lambda>o1 st r. m_rest st \<noteq> l # ls", OF _ r])
    fix f o1 st r
    assume IH: "\<And>o1 st r. f o1 st = Some r \<Longrightarrow> m_rest st \<noteq> l # ls"
      and eq: "(if m_rest st = [] then Some st else f o1 (md_step o1 st)) = Some r"
    show "m_rest st \<noteq> l # ls"
    proof
      assume s: "m_rest st = l # ls"
      with eq have "f o1 (md_step o1 st) = Some r" by simp
      from IH [OF this] md_step_stuck [OF s assms(2,3), of o1] show False by simp
    qed
  qed
  with assms(1) show False by blast
qed

text \<open>The lines outside code fences; an unclosed fence extends to the end.\<close>

function unfenced :: "string list \<Rightarrow> string list" where
  "unfenced [] = []"
| "unfenced (l # ls) =
     (if is_fence l then unfenced (drop 1 (dropWhile (\<lambda>x. \<not> is_fence x) ls)) else l # unfenced ls)"
  by pat_completeness auto
termination
  by (relation "measure length") (simp_all add: less_Suc_eq_le length_dropWhile_le le_diff_conv le_SucI)

lemma unfenced_dropWhile:
  "(\<And>x. P x \<Longrightarrow> \<not> is_fence x) \<Longrightarrow> unfenced xs = takeWhile P xs @ unfenced (dropWhile P xs)"
  by (induction xs) auto

lemma stuck_hash: "stuck_line l \<Longrightarrow> \<exists>r. l = CHR ''#'' # r"
  by (cases l) (auto simp: stuck_line_def has_heading_mark_def heading_hashes_def split: if_splits)

lemma fence_hd: "is_fence l \<Longrightarrow> \<exists>r. l = CHR ''`'' # r"
  by (cases l) (auto simp: is_fence_def starts_with_def)

lemma quote_hd: "is_quote l \<Longrightarrow> \<exists>r. l = CHR ''>'' # r"
  by (cases l) (auto simp: is_quote_def starts_with_def)

lemma bullet_hd: "is_bullet l \<Longrightarrow> \<exists>c r. l = c # r \<and> c \<in> {CHR ''*'', CHR ''-''}"
  by (auto simp: is_bullet_def split: list.splits)

lemma ordered_hd: "is_ordered l \<Longrightarrow> \<exists>c r. l = c # r \<and> is_digit c"
  by (cases l) (auto simp: is_ordered_def split: if_splits)

lemma not_stuck [simp]:
  "is_fence l \<Longrightarrow> \<not> stuck_line l" "is_quote l \<Longrightarrow> \<not> stuck_line l" "is_bullet l \<Longrightarrow> \<not> stuck_line l"
  "is_ordered l \<Longrightarrow> \<not> stuck_line l"
  by (auto simp: is_digit_def code_of_def dest!: stuck_hash fence_hd quote_hd bullet_hd ordered_hd)

lemma paragraph_plain: "\<not> breaks_paragraph l \<Longrightarrow> \<not> stuck_line l \<and> \<not> is_fence l"
  by (simp add: breaks_paragraph_def stuck_line_def)

lemma not_fence [simp]:
  "is_quote l \<Longrightarrow> \<not> is_fence l" "is_bullet l \<Longrightarrow> \<not> is_fence l" "is_ordered l \<Longrightarrow> \<not> is_fence l"
  by (auto simp: is_digit_def code_of_def dest!: fence_hd quote_hd bullet_hd ordered_hd)

lemma stuck_not_row: "stuck_line l \<Longrightarrow> char_of (13 :: nat) \<notin> set l \<Longrightarrow> \<not> is_table_row l"
proof -
  assume s: "stuck_line l" and cr: "char_of (13 :: nat) \<notin> set l"
  let ?n = "heading_hashes l" and ?after = "drop (heading_hashes l) l"
  have m: "has_heading_mark l" "heading_match l = None" using s by (simp_all add: stuck_line_def)
  have sub: "set ?after \<subseteq> set l" by (rule set_drop_subset)
  have "char_of (13 :: nat) \<notin> set (dropWhile is_ws ?after)" using cr sub by (auto dest: set_dropWhileD)
  moreover have "last l \<noteq> char_of (13 :: nat)" using cr stuck_hash [OF s] last_in_set [of l] by force
  ultimately have "dropWhile is_ws ?after = []" "length ?after < 2" using m
    by (auto simp: heading_match_def Let_def split: if_splits)
  then have ws: "\<forall>c \<in> set ?after. is_ws c" by (simp add: dropWhile_eq_Nil_conv)
  have "set (take ?n l) \<subseteq> {CHR ''#''}"
    unfolding heading_hashes_def takeWhile_eq_take [symmetric] by (auto dest: set_takeWhileD)
  then have "CHR ''|'' \<notin> set (take ?n l)" by auto
  moreover have "CHR ''|'' \<notin> set ?after" using ws by (auto simp: is_ws_def code_of_def)
  ultimately have "CHR ''|'' \<notin> set (take ?n l @ ?after)" by (metis Un_iff set_append)
  then show ?thesis by (simp add: is_table_row_def)
qed

text \<open>An iteration that consumes lines consumes unfenced ones, none of them stuck, or a whole fence.\<close>

lemma unfenced_consume:
  assumes "\<And>x. P x \<Longrightarrow> \<not> is_fence x" and "\<And>x. x \<in> set xs \<Longrightarrow> P x \<Longrightarrow> \<not> stuck_line x"
  shows "(\<exists>l \<in> set (unfenced xs). stuck_line l) \<longleftrightarrow> (\<exists>l \<in> set (unfenced (dropWhile P xs)). stuck_line l)"
proof -
  have "\<forall>x \<in> set (takeWhile P xs). \<not> stuck_line x" using assms(2) by (auto dest: set_takeWhileD)
  with unfenced_dropWhile [OF assms(1), of P xs] show ?thesis by auto
qed

lemma row_not_fence: "is_table_row l \<Longrightarrow> \<not> is_fence l"
proof
  assume r: "is_table_row l" and f: "is_fence l"
  obtain s where l: "l = CHR ''`'' # s" using fence_hd [OF f] by blast
  then have "trim_start l = l" by (simp add: trim_start_def is_ws_def code_of_def)
  with r f show False by (simp add: is_table_row_def is_fence_def)
qed

lemma set_trim_keeps: "c \<in> set s \<Longrightarrow> \<not> is_ws c \<Longrightarrow> c \<in> set (trim s)"
proof -
  have keep: "c \<in> set s \<Longrightarrow> \<not> is_ws c \<Longrightarrow> c \<in> set (dropWhile is_ws s)" for s by (induction s) auto
  show "c \<in> set s \<Longrightarrow> \<not> is_ws c \<Longrightarrow> c \<in> set (trim s)"
    using keep [of s] keep [of "rev (trim_start s)"] by (simp add: trim_def trim_start_def trim_end_def)
qed

lemma split_on_covers: "c \<in> set s \<Longrightarrow> c \<noteq> d \<Longrightarrow> \<exists>w \<in> set (split_on d s). c \<in> set w"
  by (induction s) (auto split: list.split)

lemma set_strip_start: "c \<in> set s \<Longrightarrow> c \<noteq> d \<Longrightarrow> c \<in> set (if starts_with [d] s then tl s else s)"
  by (cases s) (auto simp: starts_with_def)

lemma set_strip_end: "c \<in> set s \<Longrightarrow> c \<noteq> d \<Longrightarrow> c \<in> set (if ends_with [d] s then butlast s else s)"
  by (cases s rule: rev_cases) (auto simp: ends_with_def starts_with_def)

lemmas set_strip_ends = set_strip_start set_strip_end

lemma sep_cell_chars: "is_sep_cell w \<Longrightarrow> c \<in> set w \<Longrightarrow> c = CHR '':'' \<or> c = CHR ''-''"
proof (rule ccontr)
  assume w: "is_sep_cell w" and c: "c \<in> set w" "\<not> (c = CHR '':'' \<or> c = CHR ''-'')"
  then have "c \<in> set (if starts_with '':'' w then tl w else w)" by (intro set_strip_ends) simp_all
  then have "c \<in> set (if ends_with '':'' (if starts_with '':'' w then tl w else w)
      then butlast (if starts_with '':'' w then tl w else w) else if starts_with '':'' w then tl w else w)"
    using c by (intro set_strip_ends) simp_all
  with w c show False unfolding is_sep_cell_def Let_def list_all_iff by blast
qed

lemma table_sep_chars:
  assumes "is_table_sep l" and "c \<in> set l" and "\<not> is_ws c"
  shows "c = CHR ''|'' \<or> c = CHR '':'' \<or> c = CHR ''-''"
proof (rule ccontr)
  assume c: "\<not> (c = CHR ''|'' \<or> c = CHR '':'' \<or> c = CHR ''-'')"
  define t1 where "t1 = (if starts_with ''|'' (trim l) then tl (trim l) else trim l)"
  define t2 where "t2 = (if ends_with ''|'' t1 then butlast t1 else t1)"
  have "c \<in> set (trim l)" using assms by (simp add: set_trim_keeps)
  then have "c \<in> set t1" using c unfolding t1_def by (intro set_strip_ends) simp_all
  then have "c \<in> set t2" using c unfolding t2_def by (intro set_strip_ends) simp_all
  then obtain w where w: "w \<in> set (split_on (CHR ''|'') t2)" "c \<in> set w"
    using c split_on_covers [of c t2 "CHR ''|''"] by blast
  moreover have "splitCells l = map trim (split_on (CHR ''|'') t2)"
    unfolding splitCells_def Let_def t1_def t2_def by (rule refl)
  ultimately have "trim w \<in> set (splitCells l)" by simp
  then have "is_sep_cell (trim w)" using assms(1) by (simp add: is_table_sep_def list_all_iff)
  from sep_cell_chars [OF this set_trim_keeps [OF w(2) assms(3)]] c show False by blast
qed

lemma table_sep_plain: "is_table_sep l \<Longrightarrow> \<not> is_fence l \<and> \<not> stuck_line l"
proof -
  assume s: "is_table_sep l"
  have "hd l \<notin> {CHR ''`'', CHR ''#''} \<or> l = []"
    using table_sep_chars [OF s, of "hd l"] by (cases l) (auto simp: is_ws_def code_of_def)
  then show ?thesis by (cases l) (auto dest!: stuck_hash fence_hd)
qed

lemma unfenced_step:
  assumes "m_rest st = line # ls" and "\<not> stuck_line line"
    and row: "\<forall>l \<in> set (line # ls). stuck_line l \<longrightarrow> \<not> is_table_row l"
  shows "(\<exists>l \<in> set (unfenced (m_rest (md_step o1 st))). stuck_line l) \<longleftrightarrow>
    (\<exists>l \<in> set (unfenced (m_rest st)). stuck_line l)"
proof (cases "is_fence line")
  case True
  with assms(1) show ?thesis by (simp add: md_step_def m_rest_steps)
next
  case nofence: False
  have cons: "(\<exists>l \<in> set (unfenced (dropWhile P (line # ls))). stuck_line l) \<longleftrightarrow>
      (\<exists>l \<in> set (unfenced (line # ls)). stuck_line l)"
    if "\<And>x. P x \<Longrightarrow> \<not> is_fence x" "\<And>x. P x \<Longrightarrow> \<not> stuck_line x" for P
    using unfenced_consume [of P "line # ls"] that by blast
  have one: "(\<exists>l \<in> set (unfenced ls). stuck_line l) \<longleftrightarrow> (\<exists>l \<in> set (unfenced (line # ls)). stuck_line l)"
    using nofence assms(2) by simp
  have table: "(\<exists>l \<in> set (unfenced (dropWhile (\<lambda>l. l \<noteq> [] \<and> is_table_row l) ls2)). stuck_line l) \<longleftrightarrow>
      (\<exists>l \<in> set (unfenced (line # ls)). stuck_line l)" if "ls = l2 # ls2" "is_table_sep l2" for l2 ls2
  proof -
    have "(\<exists>l \<in> set (unfenced ls2). stuck_line l) \<longleftrightarrow>
        (\<exists>l \<in> set (unfenced (dropWhile (\<lambda>l. l \<noteq> [] \<and> is_table_row l) ls2)). stuck_line l)"
      using row that(1) by (intro unfenced_consume) (auto simp: row_not_fence)
    with one that table_sep_plain [OF that(2)] show ?thesis by simp
  qed
  show ?thesis
    using assms(1) nofence one cons [of is_quote] cons [of is_bullet] cons [of is_ordered]
      cons [of "\<lambda>l. \<not> breaks_paragraph l"] table paragraph_plain
    by (auto simp: md_step_def m_rest_steps simp del: dropWhile.simps unfenced.simps split: option.splits list.splits)
qed

lemma md_loop_returns_iff:
  "(\<forall>l \<in> set (m_rest st). stuck_line l \<longrightarrow> \<not> is_table_row l) \<Longrightarrow>
   (\<exists>st'. md_loop o1 st = Some st') \<longleftrightarrow> \<not> (\<exists>l \<in> set (unfenced (m_rest st)). stuck_line l)"
proof (induction "length (m_rest st)" arbitrary: st rule: less_induct)
  case less
  show ?case
  proof (cases "m_rest st")
    case Nil
    then show ?thesis by (simp add: md_loop.simps)
  next
    case (Cons line ls)
    show ?thesis
    proof (cases "stuck_line line")
      case True
      then have "\<not> is_fence line" using not_stuck(1) by blast
      with True Cons md_loop_stuck [OF Cons True] less.prems show ?thesis by simp
    next
      case False
      then have "length (m_rest (md_step o1 st)) < length (m_rest st)" by (rule md_step_consumes [OF Cons])
      moreover have "\<forall>l \<in> set (m_rest (md_step o1 st)). stuck_line l \<longrightarrow> \<not> is_table_row l"
        using set_md_step [of o1 st] less.prems by blast
      ultimately have "(\<exists>st'. md_loop o1 (md_step o1 st) = Some st') \<longleftrightarrow>
          \<not> (\<exists>l \<in> set (unfenced (m_rest (md_step o1 st))). stuck_line l)" by (rule less.hyps)
      moreover have "md_loop o1 st = md_loop o1 (md_step o1 st)" using Cons by (subst md_loop.simps) simp
      ultimately show ?thesis using unfenced_step [OF Cons False] less.prems Cons by simp
    qed
  qed
qed

section \<open>Lemmas: invariants of the loop\<close>

lemma md_loop_invariant:
  assumes step: "\<And>st. I st \<Longrightarrow> m_rest st \<noteq> [] \<Longrightarrow> I (md_step o1 st)"
    and start: "I st" and run: "md_loop o1 st = Some st'"
  shows "I st'"
proof -
  have "o2 = o1 \<longrightarrow> I st \<longrightarrow> I st'" if "md_loop o2 st = Some st'" for o2 st st'
  proof (rule md_loop.raw_induct [where P = "\<lambda>o2 st r. o2 = o1 \<longrightarrow> I st \<longrightarrow> I r", OF _ that])
    fix f o2 st r
    assume IH: "\<And>o2 st r. f o2 st = Some r \<Longrightarrow> o2 = o1 \<longrightarrow> I st \<longrightarrow> I r"
      and eq: "(if m_rest st = [] then Some st else f o2 (md_step o2 st)) = Some r"
    show "o2 = o1 \<longrightarrow> I st \<longrightarrow> I r"
      using eq IH [of o2 "md_step o2 st" r] step [of st] by (auto split: if_splits)
  qed
  with start run show ?thesis by blast
qed

definition heading_of :: "block \<Rightarrow> (string \<times> nat) option" where
  "heading_of b = (case b of Heading level hid _ \<Rightarrow> Some (hid, level) | _ \<Rightarrow> None)"

definition headings :: "block list \<Rightarrow> (string \<times> nat) list" where
  "headings bs = List.map_filter heading_of bs"

lemma headings_append [simp]: "headings (xs @ ys) = headings xs @ headings ys"
  by (simp add: headings_def map_filter_def)

lemma headings_Nil [simp]: "headings [] = []"
  by (simp add: headings_def map_filter_def)

lemma headings_single [simp]:
  "headings [Heading n i p] = [(i, n)]" "headings [CodeBlock k c l] = []" "headings [Quote k p2] = []"
  "headings [Bullets k p2] = []" "headings [Numbered k p2] = []" "headings [Rule k] = []"
  "headings [Table k a h r] = []" "headings [Paragraph k n p] = []"
  by (simp_all add: headings_def heading_of_def map_filter_def)

text \<open>An iteration either adds no heading and leaves table of contents and counters alone, or adds the
  heading of the current line.\<close>

lemma md_step_cases:
  assumes "m_rest st \<noteq> []"
  shows "(headings (m_nodes (md_step o1 st)) = headings (m_nodes st) \<and>
      m_toc (md_step o1 st) = m_toc st \<and> m_seen (md_step o1 st) = m_seen st) \<or>
    (\<exists>lt ls. heading_match (hd (m_rest st)) = Some lt \<and> md_step o1 st = step_heading o1 lt ls st)"
proof -
  obtain line ls where r: "m_rest st = line # ls" using assms by (cases "m_rest st") auto
  show ?thesis
  proof (cases "heading_match line")
    case None
    with r show ?thesis
      by (simp add: md_step_def step_fence_def step_lines_def step_table_def step_paragraph_def Let_def)
  next
    case (Some lt)
    with r show ?thesis
      by (cases "is_fence line") (auto simp: md_step_def step_fence_def Let_def)
  qed
qed

definition toc_agrees :: "md_state \<Rightarrow> bool" where
  "toc_agrees st \<longleftrightarrow>
     map (\<lambda>t. (t_id t, t_level t)) (m_toc st) = filter (\<lambda>h. 2 \<le> snd h) (headings (m_nodes st)) \<and>
     (\<forall>h \<in> set (headings (m_nodes st)). 1 \<le> snd h \<and> snd h \<le> 4)"

lemma heading_match_level: "heading_match l = Some lt \<Longrightarrow> 1 \<le> fst lt \<and> fst lt \<le> 4"
  by (auto simp: heading_match_def has_heading_mark_def Let_def split: if_splits)

lemma toc_agrees_step:
  assumes t: "toc_agrees st" and r: "m_rest st \<noteq> []"
  shows "toc_agrees (md_step o1 st)"
  using md_step_cases [OF r, of o1]
proof (elim disjE exE conjE)
  fix lt ls
  assume m: "heading_match (hd (m_rest st)) = Some lt" and s: "md_step o1 st = step_heading o1 lt ls st"
  obtain hid seen where n: "nextId (m_seen st) (trim (snd lt)) = (hid, seen)" by fastforce
  from t heading_match_level [OF m] show ?thesis
    by (simp add: s toc_agrees_def step_heading_def Let_def n)
qed (use t in \<open>simp add: toc_agrees_def\<close>)

text \<open>The anchors of a sequence of headings, and the counters after it.\<close>

fun anchors :: "(string, nat) js_map \<Rightarrow> string list \<Rightarrow> string list" where
  "anchors seen [] = []"
| "anchors seen (t # ts) = fst (nextId seen t) # anchors (snd (nextId seen t)) ts"

definition seen_after :: "(string, nat) js_map \<Rightarrow> string list \<Rightarrow> (string, nat) js_map" where
  "seen_after seen ts = fold (\<lambda>t s. snd (nextId s t)) ts seen"

lemma anchors_append: "anchors seen (ts @ us) = anchors seen ts @ anchors (seen_after seen ts) us"
  by (induction ts arbitrary: seen) (simp_all add: seen_after_def)

lemma seen_after_snoc: "seen_after seen (ts @ [t]) = snd (nextId (seen_after seen ts) t)"
  by (simp add: seen_after_def)

definition heading_texts :: "string list \<Rightarrow> string set" where
  "heading_texts ls = {trim (snd lt) | l lt. l \<in> set ls \<and> heading_match l = Some lt}"

definition anchors_agree :: "string set \<Rightarrow> md_state \<Rightarrow> bool" where
  "anchors_agree T st \<longleftrightarrow> heading_texts (m_rest st) \<subseteq> T \<and>
     (\<exists>ts. set ts \<subseteq> T \<and> map fst (headings (m_nodes st)) = anchors [] ts \<and> m_seen st = seen_after [] ts)"

lemma anchors_agree_step:
  assumes "anchors_agree T st" and r: "m_rest st \<noteq> []"
  shows "anchors_agree T (md_step o1 st)"
proof -
  from assms(1) obtain ts where ts: "set ts \<subseteq> T" "map fst (headings (m_nodes st)) = anchors [] ts"
    "m_seen st = seen_after [] ts" and T: "heading_texts (m_rest st) \<subseteq> T"
    by (auto simp: anchors_agree_def)
  have T': "heading_texts (m_rest (md_step o1 st)) \<subseteq> T"
    using T set_md_step [of o1 st] unfolding heading_texts_def by blast
  from md_step_cases [OF r, of o1] show ?thesis
  proof (elim disjE exE conjE)
    assume "headings (m_nodes (md_step o1 st)) = headings (m_nodes st)" "m_seen (md_step o1 st) = m_seen st"
    with ts T' show ?thesis by (auto simp: anchors_agree_def)
  next
    fix lt ls
    assume m: "heading_match (hd (m_rest st)) = Some lt" and s: "md_step o1 st = step_heading o1 lt ls st"
    let ?t = "trim (snd lt)"
    have "hd (m_rest st) \<in> set (m_rest st)" using r by simp
    then have "?t \<in> T" using m T unfolding heading_texts_def by blast
    moreover have "map fst (headings (m_nodes (md_step o1 st))) = anchors [] (ts @ [?t])"
      using ts by (simp add: s step_heading_def Let_def anchors_append split: prod.split)
    moreover have "m_seen (md_step o1 st) = seen_after [] (ts @ [?t])"
      using ts by (simp add: s step_heading_def Let_def seen_after_snoc split: prod.split)
    ultimately show ?thesis using T' ts(1)
      unfolding anchors_agree_def by (intro conjI exI [of _ "ts @ [?t]"]) auto
  qed
qed

section \<open>Lemmas: when anchors are distinct\<close>

text \<open>The \<open>k\<close>-th anchor of a base.\<close>

definition numbered :: "string \<Rightarrow> nat \<Rightarrow> string" where
  "numbered b k = (if k \<le> 1 then b else b @ ''-'' @ show_nat k)"

lemma nextId_numbered:
  "nextId seen t =
     (let n = (case map_get seen (id_base t) of None \<Rightarrow> 0 | Some k \<Rightarrow> k)
      in (numbered (id_base t) (n + 1), map_set (id_base t) (n + 1) seen))"
  by (simp add: nextId_def numbered_def Let_def)

lemma split_at_last:
  "d \<notin> set u \<Longrightarrow> d \<notin> set v \<Longrightarrow> a @ d # u = b @ d # v \<Longrightarrow> a = b \<and> u = v"
proof -
  assume u: "d \<notin> set u" and v: "d \<notin> set v" and e: "a @ d # u = b @ d # v"
  then have "rev u @ d # rev a = rev v @ d # rev b" by (metis append.assoc append_Cons append_Nil rev.simps(2) rev_append)
  moreover have "takeWhile (\<lambda>x. x \<noteq> d) (rev w @ d # rev c) = rev w" if "d \<notin> set w" for w c
  proof -
    from that have "takeWhile (\<lambda>x. x \<noteq> d) (rev w @ d # rev c) = rev w @ takeWhile (\<lambda>x. x \<noteq> d) (d # rev c)"
      by (intro takeWhile_append2) auto
    then show ?thesis by simp
  qed
  ultimately have "rev u = rev v" using u v by metis
  with e show ?thesis by simp
qed

lemma numbered_inject:
  assumes "numbered b k = numbered b' k'" and "1 \<le> k" and "1 \<le> k'"
    and "\<And>j. 2 \<le> j \<Longrightarrow> b \<noteq> b' @ ''-'' @ show_nat j" and "\<And>j. 2 \<le> j \<Longrightarrow> b' \<noteq> b @ ''-'' @ show_nat j"
  shows "b = b' \<and> k = k'"
proof -
  consider "k = 1" "k' = 1" | "k = 1" "2 \<le> k'" | "2 \<le> k" "k' = 1" | "2 \<le> k" "2 \<le> k'"
    using assms(2,3) by linarith
  then show ?thesis
  proof cases
    case 4
    with assms(1) have "b @ CHR ''-'' # show_nat k = b' @ CHR ''-'' # show_nat k'" by (simp add: numbered_def)
    from split_at_last [OF show_nat_no_dash show_nat_no_dash this] show ?thesis by simp
  qed (use assms in \<open>auto simp: numbered_def\<close>)
qed

definition count_seen :: "(string, nat) js_map \<Rightarrow> string \<Rightarrow> nat" where
  "count_seen seen b = (case map_get seen b of None \<Rightarrow> 0 | Some k \<Rightarrow> k)"

lemma count_seen_next:
  "count_seen (snd (nextId seen t)) b = (if b = id_base t then count_seen seen b + 1 else count_seen seen b)"
  by (auto simp: nextId_numbered Let_def count_seen_def js_map.get_set)

text \<open>The anchors still to come are numbered from the counters upwards, each base and number once.\<close>

lemma anchors_numbered:
  "\<exists>bks. anchors seen ts = map (\<lambda>(b, k). numbered b k) bks \<and> distinct bks \<and>
     (\<forall>(b, k) \<in> set bks. b \<in> id_base ` set ts \<and> count_seen seen b < k)"
proof (induction ts arbitrary: seen)
  case Nil
  show ?case by simp
next
  case (Cons t ts)
  let ?s = "snd (nextId seen t)"
  obtain bks where bks: "anchors ?s ts = map (\<lambda>(b, k). numbered b k) bks" "distinct bks"
    "\<forall>(b, k) \<in> set bks. b \<in> id_base ` set ts \<and> count_seen ?s b < k"
    using Cons.IH by blast
  let ?h = "(id_base t, count_seen seen (id_base t) + 1)"
  have "?h \<notin> set bks" using bks(3) by (auto simp: count_seen_next)
  moreover have "fst (nextId seen t) = numbered (fst ?h) (snd ?h)"
    by (simp add: nextId_numbered Let_def count_seen_def)
  moreover have "\<forall>(b, k) \<in> set (?h # bks). b \<in> id_base ` set (t # ts) \<and> count_seen seen b < k"
    using bks(3) by (auto simp: count_seen_next split: if_splits)
  ultimately show ?case using bks by (intro exI [of _ "?h # bks"]) auto
qed

lemma anchors_distinct:
  assumes "\<And>t u k. t \<in> set ts \<Longrightarrow> u \<in> set ts \<Longrightarrow> 2 \<le> k \<Longrightarrow> id_base t \<noteq> id_base u @ ''-'' @ show_nat k"
  shows "distinct (anchors seen ts)"
proof -
  obtain bks where bks: "anchors seen ts = map (\<lambda>(b, k). numbered b k) bks" "distinct bks"
    "\<forall>(b, k) \<in> set bks. b \<in> id_base ` set ts \<and> count_seen seen b < k"
    using anchors_numbered by blast
  have "inj_on (\<lambda>(b, k). numbered b k) (set bks)"
  proof (rule inj_onI, clarify)
    fix b k b' k'
    assume "(b, k) \<in> set bks" "(b', k') \<in> set bks" and e: "numbered b k = numbered b' k'"
    with bks(3) have "b \<in> id_base ` set ts \<and> 0 < k" "b' \<in> id_base ` set ts \<and> 0 < k'" by fastforce+
    then obtain t t' where "t \<in> set ts" "b = id_base t" "t' \<in> set ts" "b' = id_base t'" "1 \<le> k" "1 \<le> k'"
      by auto
    with numbered_inject [OF e] assms show "b = b' \<and> k = k'" by simp
  qed
  with bks show ?thesis by (simp add: distinct_map)
qed

lemma render_toc:
  assumes "renderMarkdown o1 md = Some (nodes, toc)"
  shows "map (\<lambda>t. (t_id t, t_level t)) toc = filter (\<lambda>h. 2 \<le> snd h) (headings nodes) \<and>
    (\<forall>h \<in> set (headings nodes). 1 \<le> snd h \<and> snd h \<le> 4)"
proof -
  from assms obtain st where st: "md_loop o1 (md_start (split_lines md)) = Some st"
    and r: "nodes = m_nodes st" "toc = m_toc st" by (auto simp: renderMarkdown_def)
  have "toc_agrees (md_start (split_lines md))" by (simp add: toc_agrees_def md_start_def)
  then have "toc_agrees st"
    using st by (rule md_loop_invariant [where I = toc_agrees, rotated]) (rule toc_agrees_step)
  with r show ?thesis by (simp add: toc_agrees_def)
qed

section \<open>Properties\<close>

text \<open>C12: rendering returns exactly when no block starts on a stuck line: for a document whose lines
  have no carriage return, the loop over the lines gives a result if no line outside the code
  fences is one to four hashes and a single blank, and otherwise appends empty paragraphs forever,
  because the paragraph branch collects no line there and does not advance.\<close>

theorem renderMarkdown_returns_iff:
  assumes "\<forall>l \<in> set (split_lines md). char_of (13 :: nat) \<notin> set l"
  shows "(\<exists>nodes toc. renderMarkdown o1 md = Some (nodes, toc)) \<longleftrightarrow>
    \<not> (\<exists>l \<in> set (unfenced (split_lines md)). stuck_line l)"
  using md_loop_returns_iff [of "md_start (split_lines md)" o1] assms
  by (auto simp: renderMarkdown_def md_start_def dest: stuck_not_row)

theorem renderMarkdown_returns_iff_witness:
  "(\<exists>nodes toc. renderMarkdown plain_opts (join newline [''# A'', ''```'', ''# '', ''```'']) = Some (nodes, toc)) \<and>
   renderMarkdown plain_opts (''# A'' @ newline @ ''# '') = None"
proof -
  have h: "\<forall>l \<in> set (split_lines (join newline [''# A'', ''```'', ''# '', ''```''])). char_of (13 :: nat) \<notin> set l"
    "\<forall>l \<in> set (split_lines (''# A'' @ newline @ ''# '')). char_of (13 :: nat) \<notin> set l" by code_simp+
  have "\<not> (\<exists>l \<in> set (unfenced (split_lines (join newline [''# A'', ''```'', ''# '', ''```'']))). stuck_line l)"
    "\<exists>l \<in> set (unfenced (split_lines (''# A'' @ newline @ ''# ''))). stuck_line l" by code_simp+
  with renderMarkdown_returns_iff [OF h(1), of plain_opts] renderMarkdown_returns_iff [OF h(2), of plain_opts]
  show ?thesis by (metis not_None_eq surj_pair)
qed

text \<open>C13: the table of contents is exact: it lists the rendered headings of level two to four, in
  order, with the anchors they have on the page, and every rendered heading has a level from one
  to four.\<close>

theorem toc_matches_headings:
  assumes "renderMarkdown o1 md = Some (nodes, toc)"
  shows "map (\<lambda>t. (t_id t, t_level t)) toc = filter (\<lambda>h. 2 \<le> snd h) (headings nodes) \<and>
    (\<forall>h \<in> set (headings nodes). 1 \<le> snd h \<and> snd h \<le> 4)"
  using assms by (rule render_toc)

theorem toc_matches_headings_witness:
  "\<exists>nodes toc. renderMarkdown plain_opts ''## A'' = Some (nodes, toc) \<and>
     map (\<lambda>t. (t_id t, t_level t)) toc = filter (\<lambda>h. 2 \<le> snd h) (headings nodes)"
proof -
  have "\<forall>l \<in> set (m_rest (md_start (split_lines ''## A''))). \<not> stuck_line l" by code_simp
  then obtain st where "md_loop plain_opts (md_start (split_lines ''## A'')) = Some st"
    using md_loop_terminates by blast
  then have r: "renderMarkdown plain_opts ''## A'' = Some (m_nodes st, m_toc st)" by (simp add: renderMarkdown_def)
  with toc_matches_headings [OF r] show ?thesis by blast
qed

text \<open>C14: the anchors of a rendered document are pairwise different, provided that no heading's own
  anchor is another heading's anchor with a counter from two upwards appended.\<close>

theorem anchors_unique:
  assumes "renderMarkdown o1 md = Some (nodes, toc)"
    and "\<forall>t \<in> heading_texts (split_lines md). \<forall>u \<in> heading_texts (split_lines md). \<forall>k \<ge> 2.
      id_base t \<noteq> id_base u @ ''-'' @ show_nat k"
  shows "distinct (map fst (headings nodes))"
proof -
  from assms(1) obtain st where st: "md_loop o1 (md_start (split_lines md)) = Some st"
    and r: "nodes = m_nodes st" by (auto simp: renderMarkdown_def)
  let ?T = "heading_texts (split_lines md)"
  have "anchors_agree ?T (md_start (split_lines md))"
    by (auto simp: anchors_agree_def md_start_def seen_after_def intro: exI [of _ "[]"])
  then have "anchors_agree ?T st"
    using st by (rule md_loop_invariant [where I = "anchors_agree ?T", rotated]) (rule anchors_agree_step)
  then obtain ts where "set ts \<subseteq> ?T" "map fst (headings (m_nodes st)) = anchors [] ts"
    by (auto simp: anchors_agree_def)
  moreover have "distinct (anchors [] ts)"
  proof (rule anchors_distinct)
    fix t u k
    assume "t \<in> set ts" "u \<in> set ts" "2 \<le> (k :: nat)"
    with \<open>set ts \<subseteq> ?T\<close> have "t \<in> ?T" "u \<in> ?T" by auto
    with assms(2) \<open>2 \<le> k\<close> show "id_base t \<noteq> id_base u @ ''-'' @ show_nat k" by blast
  qed
  ultimately show ?thesis using r by simp
qed

definition twin_headings :: string where
  "twin_headings = ''# A'' @ newline @ ''# A''"

theorem anchors_unique_witness:
  "\<exists>nodes toc. renderMarkdown plain_opts twin_headings = Some (nodes, toc) \<and> distinct (map fst (headings nodes))"
proof -
  have s: "split_lines twin_headings = [''# A'', ''# A'']" by code_simp
  have "\<forall>l \<in> set (m_rest (md_start (split_lines twin_headings))). \<not> stuck_line l" by code_simp
  then obtain st where "md_loop plain_opts (md_start (split_lines twin_headings)) = Some st"
    using md_loop_terminates by blast
  then have r: "renderMarkdown plain_opts twin_headings = Some (m_nodes st, m_toc st)" by (simp add: renderMarkdown_def)
  have "heading_match ''# A'' = Some (1, ''A'')" "trim ''A'' = ''A''" by code_simp+
  then have "heading_texts (split_lines twin_headings) = {''A''}" by (simp add: heading_texts_def s)
  with anchors_unique [OF r] r show ?thesis by auto
qed

text \<open>Without that proviso two headings can get one anchor: the third of the headings Setup, Setup
  and Setup 2 has the anchor that the counter gave to the second.\<close>

theorem anchors_clash:
  "map_option (\<lambda>r. map fst (headings (fst r)))
     (renderMarkdown plain_opts (join newline [''# Setup'', ''# Setup'', ''# Setup 2''])) =
   Some [''setup'', ''setup-2'', ''setup-2'']"
  by code_simp

end
