(* ===== verification/Site_Files.thy ===== *)
theory Site_Files
  imports Js_Prelude
begin

text \<open>
  The file system as the site reads it through Node's \<open>fs\<close> functions: a directory is
  the list of its entries in the order \<open>readdir\<close> gives them. A link is followed by
  \<open>readFile\<close>, \<open>stat\<close> and \<open>readdir\<close> on a path, but is neither a file nor a
  directory for the entry tests (\<open>Dirent.isFile\<close>, \<open>isDirectory\<close>). A call that throws
  is \<open>None\<close>. Nothing else writes the tree while it is read.
\<close>

datatype fs_node =
    File "string option" nat int     \<comment> \<open>contents (\<open>None\<close>: not readable), size, mtime in ms\<close>
  | Dir "(string \<times> fs_node) list"
  | Link "fs_node option"            \<comment> \<open>what it points to\<close>

type_synonym fs_dir = "(string \<times> fs_node) list"

fun follow :: "fs_node \<Rightarrow> fs_node option" where
  "follow (Link None) = None"
| "follow (Link (Some n)) = follow n"
| "follow n = Some n"

definition is_file :: "fs_node \<Rightarrow> bool" where
  "is_file n = (case n of File _ _ _ \<Rightarrow> True | _ \<Rightarrow> False)"

definition is_dir :: "fs_node \<Rightarrow> bool" where
  "is_dir n = (case n of Dir _ \<Rightarrow> True | _ \<Rightarrow> False)"

definition fs_child :: "fs_node \<Rightarrow> string \<Rightarrow> fs_node option" where
  "fs_child n name =
     (case follow n of Some (Dir es) \<Rightarrow> map_of es name | _ \<Rightarrow> None)"

fun fs_path :: "fs_node \<Rightarrow> string list \<Rightarrow> fs_node option" where
  "fs_path n [] = Some n"
| "fs_path n (s # ss) = (case fs_child n s of None \<Rightarrow> None | Some m \<Rightarrow> fs_path m ss)"

definition fs_readdir :: "fs_node option \<Rightarrow> fs_dir option" where
  "fs_readdir p = (case Option.bind p follow of Some (Dir es) \<Rightarrow> Some es | _ \<Rightarrow> None)"

definition fs_read :: "fs_node option \<Rightarrow> string option" where
  "fs_read p = (case Option.bind p follow of Some (File c _ _) \<Rightarrow> c | _ \<Rightarrow> None)"

text \<open>Size and modification time; the sources ask for them on files only.\<close>

definition fs_stat :: "fs_node option \<Rightarrow> (nat \<times> int) option" where
  "fs_stat p = (case Option.bind p follow of Some (File _ sz mt) \<Rightarrow> Some (sz, mt) | _ \<Rightarrow> None)"

text \<open>No directory has two entries of one name.\<close>

fun fs_ok :: "fs_node \<Rightarrow> bool" where
  "fs_ok (File _ _ _) \<longleftrightarrow> True"
| "fs_ok (Dir es) \<longleftrightarrow> distinct (map fst es) \<and> (\<forall>e \<in> set es. fs_ok (snd e))"
| "fs_ok (Link None) \<longleftrightarrow> True"
| "fs_ok (Link (Some n)) \<longleftrightarrow> fs_ok n"

lemma fs_ok_follow: "fs_ok n \<Longrightarrow> follow n = Some m \<Longrightarrow> fs_ok m"
  by (induction n rule: follow.induct) auto

lemma fs_child_SomeD:
  "fs_child n s = Some m \<Longrightarrow> \<exists>es. follow n = Some (Dir es) \<and> (s, m) \<in> set es"
  by (auto simp: fs_child_def split: option.split_asm fs_node.split_asm dest: map_of_SomeD)

lemma fs_ok_child:
  assumes "fs_ok n" and "fs_child n s = Some m"
  shows "fs_ok m"
proof -
  from fs_child_SomeD [OF assms(2)] obtain es where es: "follow n = Some (Dir es)" "(s, m) \<in> set es" by blast
  have "fs_ok (Dir es)" using fs_ok_follow [OF assms(1) es(1)] .
  with es(2) show ?thesis by fastforce
qed

lemma fs_ok_path: "fs_ok n \<Longrightarrow> fs_path n ss = Some m \<Longrightarrow> fs_ok m"
  by (induction ss arbitrary: n) (auto split: option.splits dest: fs_ok_child)

lemma fs_readdir_SomeD: "fs_readdir p = Some es \<Longrightarrow> \<exists>n. p = Some n \<and> follow n = Some (Dir es)"
  by (cases p) (auto simp: fs_readdir_def split: option.split_asm fs_node.split_asm)

lemma fs_ok_readdir:
  assumes "fs_ok n" and "fs_readdir (Some n) = Some es"
  shows "distinct (map fst es) \<and> (\<forall>e \<in> set es. fs_ok (snd e))"
proof -
  from fs_readdir_SomeD [OF assms(2)] have "follow n = Some (Dir es)" by auto
  from fs_ok_follow [OF assms(1) this] show ?thesis by simp
qed

lemma fs_child_readdir: "fs_readdir (Some n) = Some es \<Longrightarrow> fs_child n s = map_of es s"
  by (auto dest!: fs_readdir_SomeD simp: fs_child_def)

lemma follow_file [simp]: "is_file n \<Longrightarrow> follow n = Some n"
  by (cases n) (auto simp: is_file_def)

lemma fs_stat_file: "is_file n \<Longrightarrow> \<exists>sz mt. fs_stat (Some n) = Some (sz, mt)"
  by (cases n) (auto simp: is_file_def fs_stat_def)

lemma is_dir_readdir: "is_dir n \<Longrightarrow> \<exists>es. n = Dir es \<and> fs_readdir (Some n) = Some es"
  by (cases n) (auto simp: is_dir_def fs_readdir_def)

end
