(* ===== verification/Releases.thy ===== *)
theory Releases
  imports Site_Files
begin

text \<open>
  The local releases offered for download (\<open>lib/releases/local.ts\<close>): version tags and
  their order, checksum files, the artifacts of a release directory and the list of
  releases. \<open>localeCompare\<close> is the parameter \<open>loc\<close>; the working directory is a
  node of the file tree; version numbers are unbounded.
\<close>

section \<open>Tags\<close>

datatype semver = Semver (sv_major: nat) (sv_minor: nat) (sv_patch: nat)

instantiation semver :: linorder
begin

definition less_eq_semver :: "semver \<Rightarrow> semver \<Rightarrow> bool" where
  "a \<le> b \<longleftrightarrow> sv_major a < sv_major b \<or>
     (sv_major a = sv_major b \<and>
       (sv_minor a < sv_minor b \<or> (sv_minor a = sv_minor b \<and> sv_patch a \<le> sv_patch b)))"

definition less_semver :: "semver \<Rightarrow> semver \<Rightarrow> bool" where
  "a < (b :: semver) \<longleftrightarrow> a \<le> b \<and> \<not> b \<le> a"

instance
proof
  fix a b c :: semver
  show "a < b \<longleftrightarrow> a \<le> b \<and> \<not> b \<le> a" by (rule less_semver_def)
  show "a \<le> a" by (simp add: less_eq_semver_def)
  show "a \<le> b \<Longrightarrow> b \<le> c \<Longrightarrow> a \<le> c" by (auto simp: less_eq_semver_def)
  show "a \<le> b \<Longrightarrow> b \<le> a \<Longrightarrow> a = b" by (cases a; cases b) (auto simp: less_eq_semver_def)
  show "a \<le> b \<or> b \<le> a" by (auto simp: less_eq_semver_def)
qed

end

definition number_of_digits :: "string \<Rightarrow> nat option" where
  "number_of_digits s = (if s \<noteq> [] \<and> list_all is_digit s then Some (digits_val 0 s) else None)"

definition parseSemver :: "string \<Rightarrow> semver option" where
  "parseSemver version =
     (if starts_with ''v'' version then
        (case map number_of_digits (split_on (CHR ''.'') (tl version)) of
           [Some a, Some b, Some c] \<Rightarrow> Some (Semver a b c)
         | _ \<Rightarrow> None)
      else None)"

definition compareReleaseAsc :: "(string \<Rightarrow> string \<Rightarrow> int) \<Rightarrow> string \<Rightarrow> string \<Rightarrow> int" where
  "compareReleaseAsc loc a b =
     (case (parseSemver a, parseSemver b) of
        (Some pa, Some pb) \<Rightarrow>
          if sv_major pa \<noteq> sv_major pb then int (sv_major pa) - int (sv_major pb)
          else if sv_minor pa \<noteq> sv_minor pb then int (sv_minor pa) - int (sv_minor pb)
          else int (sv_patch pa) - int (sv_patch pb)
      | _ \<Rightarrow> loc a b)"

section \<open>File names and checksum files\<close>

datatype artifact_kind = TarGz | Zip | Bin

definition artifactKind :: "string \<Rightarrow> artifact_kind" where
  "artifactKind fileName =
     (if ends_with ''.tar.gz'' fileName then TarGz else if ends_with ''.zip'' fileName then Zip else Bin)"

datatype release_role = RoleInside | RoleOutside

definition role_prefix :: "string \<Rightarrow> (release_role \<times> string) option" where
  "role_prefix s =
     (if starts_with ''inside-'' s then Some (RoleInside, drop 7 s)
      else if starts_with ''outside-'' s then Some (RoleOutside, drop 8 s)
      else None)"

definition strip_archive :: "string \<Rightarrow> string" where
  "strip_archive s =
     (if ends_with ''.tar.gz'' s then drop_last 7 s
      else if ends_with ''.zip'' s then drop_last 4 s
      else s)"

definition parseRoleAndTarget :: "string \<Rightarrow> string \<Rightarrow> release_role option \<times> string option" where
  "parseRoleAndTarget tag fileName =
     (case find (\<lambda>p. starts_with p fileName) [''sunlionet-'', ''shadownet-''] of
        None \<Rightarrow> (None, None)
      | Some pre \<Rightarrow>
          (case role_prefix (drop (length pre) fileName) of
             None \<Rightarrow> (None, None)
           | Some (role, afterRole) \<Rightarrow>
               if \<not> starts_with (tag @ ''-'') afterRole then (Some role, None)
               else (Some role, Some (strip_archive (drop (length tag + 1) afterRole)))))"

text \<open>\<open>/^([a-fA-F0-9]{64})\s+(\S+)$/\<close>: hash and file name.\<close>

definition hash_line :: "string \<Rightarrow> (string \<times> string) option" where
  "hash_line s =
     (let h = take 64 s; r = drop 64 s; name = dropWhile is_ws r
      in if length h = 64 \<and> list_all is_hex h \<and> (r \<noteq> [] \<and> is_ws (hd r)) \<and>
            name \<noteq> [] \<and> list_all (\<lambda>c. \<not> is_ws c) name
         then Some (h, name) else None)"

definition parseSha256FileContents :: "string \<Rightarrow> (string \<times> string) option" where
  "parseSha256FileContents contents =
     (case find (\<lambda>l. trim l \<noteq> []) (split_lines contents) of
        None \<Rightarrow> None
      | Some line \<Rightarrow> map_option (\<lambda>(h, name). (to_lower h, name)) (hash_line (trim line)))"

definition keyFingerprintOf :: "string \<Rightarrow> string option" where
  "keyFingerprintOf contents =
     map_option (\<lambda>m. to_lower (fst m)) (hash_line (trim (hd (split_lines (trim contents)))))"

section \<open>A release directory\<close>

record release_artifact =
  ra_fileName :: string
  ra_href :: string
  ra_sizeBytes :: nat
  ra_kind :: artifact_kind
  ra_sha256 :: "string option"
  ra_sha256Href :: "string option"
  ra_role :: "release_role option"
  ra_target :: "string option"

record release_verification =
  rv_checksumsHref :: "string option"
  rv_signatureHref :: "string option"
  rv_keyHref :: "string option"
  rv_keyFingerprint :: "string option"
  rv_keyFingerprintHref :: "string option"

record local_release =
  lr_tag :: string
  lr_buildRef :: "string option"
  lr_createdAtUnix :: "int option"
  lr_artifacts :: "release_artifact list"
  lr_verification :: release_verification

definition download_href :: "string \<Rightarrow> string \<Rightarrow> string" where
  "download_href tag name = ''/downloads/'' @ tag @ ''/'' @ name"

definition readVersion :: "fs_node \<Rightarrow> string option \<times> int option" where
  "readVersion dir =
     (let f = fs_child dir ''VERSION.txt'' in
      case fs_read f of
        None \<Rightarrow> (None, None)
      | Some contents \<Rightarrow>
          (case fs_stat f of
             None \<Rightarrow> (None, None)
           | Some (_, mtimeMs) \<Rightarrow>
               (if trim contents = [] then None else Some (trim contents), Some (mtimeMs div 1000))))"

definition add_sha :: "string \<times> fs_node \<Rightarrow> (string, string) js_map \<Rightarrow> (string, string) js_map" where
  "add_sha f m =
     (if \<not> is_file (snd f) \<or> \<not> ends_with ''.sha256'' (fst f) then m
      else (case Option.bind (fs_read (Some (snd f))) parseSha256FileContents of
              None \<Rightarrow> m
            | Some (hash, name) \<Rightarrow> map_set name hash m))"

definition shaByFile :: "fs_dir \<Rightarrow> (string, string) js_map" where
  "shaByFile files = fold add_sha files []"

definition is_artifact :: "string \<times> fs_node \<Rightarrow> bool" where
  "is_artifact f \<longleftrightarrow>
     is_file (snd f) \<and> fst f \<noteq> ''VERSION.txt'' \<and>
     \<not> (fst f = ''checksums.txt'' \<or> fst f = ''checksums.sig'' \<or> fst f = ''checksums.pub'' \<or>
        fst f = ''checksums.pub.sha256'') \<and>
     \<not> ends_with ''.sha256'' (fst f)"

definition mk_artifact :: "string \<Rightarrow> (string, string) js_map \<Rightarrow> string \<times> fs_node \<Rightarrow> release_artifact option" where
  "mk_artifact tag sha f =
     map_option
       (\<lambda>s. \<lparr>ra_fileName = fst f, ra_href = download_href tag (fst f), ra_sizeBytes = fst s,
             ra_kind = artifactKind (fst f), ra_sha256 = map_get sha (fst f),
             ra_sha256Href = (if map_has sha (fst f) then Some (download_href tag (fst f @ ''.sha256'')) else None),
             ra_role = fst (parseRoleAndTarget tag (fst f)),
             ra_target = snd (parseRoleAndTarget tag (fst f))\<rparr>)
       (fs_stat (Some (snd f)))"

text \<open>The loop over a list whose body may throw.\<close>

fun map_or_throw :: "('a \<Rightarrow> 'b option) \<Rightarrow> 'a list \<Rightarrow> 'b list option" where
  "map_or_throw f [] = Some []"
| "map_or_throw f (x # xs) =
     (case f x of None \<Rightarrow> None | Some y \<Rightarrow> map_option ((#) y) (map_or_throw f xs))"

definition href_if_present :: "string \<Rightarrow> fs_dir \<Rightarrow> string \<Rightarrow> string option" where
  "href_if_present tag files name =
     (if list_ex (\<lambda>f. is_file (snd f) \<and> fst f = name) files then Some (download_href tag name) else None)"

definition readRelease :: "fs_node \<Rightarrow> string \<Rightarrow> local_release option" where
  "readRelease dir tag =
     (case fs_readdir (Some dir) of
        None \<Rightarrow> None
      | Some files \<Rightarrow>
          map_option
            (\<lambda>artifacts.
               \<lparr>lr_tag = tag, lr_buildRef = fst (readVersion dir), lr_createdAtUnix = snd (readVersion dir),
                lr_artifacts = artifacts,
                lr_verification =
                  \<lparr>rv_checksumsHref = href_if_present tag files ''checksums.txt'',
                   rv_signatureHref = href_if_present tag files ''checksums.sig'',
                   rv_keyHref = href_if_present tag files ''checksums.pub'',
                   rv_keyFingerprint =
                     Option.bind (fs_read (fs_child dir ''checksums.pub.sha256'')) keyFingerprintOf,
                   rv_keyFingerprintHref = href_if_present tag files ''checksums.pub.sha256''\<rparr>\<rparr>)
            (map_or_throw (mk_artifact tag (shaByFile files)) (filter is_artifact files)))"

definition is_version_dir :: "string \<times> fs_node \<Rightarrow> bool" where
  "is_version_dir e \<longleftrightarrow> is_dir (snd e) \<and> starts_with ''v'' (fst e)"

definition by_tag :: "(string \<Rightarrow> string \<Rightarrow> int) \<Rightarrow> local_release \<Rightarrow> local_release \<Rightarrow> int" where
  "by_tag loc a b = compareReleaseAsc loc (lr_tag a) (lr_tag b)"

definition versionDirs :: "(string \<Rightarrow> string \<Rightarrow> int) \<Rightarrow> fs_dir \<Rightarrow> string list" where
  "versionDirs loc entries = js_sort (compareReleaseAsc loc) (map fst (filter is_version_dir entries))"

definition release_in :: "fs_node \<Rightarrow> string \<Rightarrow> local_release option" where
  "release_in downloads tag =
     (case fs_child downloads tag of None \<Rightarrow> None | Some dir \<Rightarrow> readRelease dir tag)"

definition getLocalReleases :: "(string \<Rightarrow> string \<Rightarrow> int) \<Rightarrow> fs_node \<Rightarrow> local_release list" where
  "getLocalReleases loc cwd =
     (case fs_path cwd [''public'', ''downloads''] of
        None \<Rightarrow> []
      | Some downloads \<Rightarrow>
          (case fs_readdir (Some downloads) of
             None \<Rightarrow> []
           | Some entries \<Rightarrow>
               (case map_or_throw (release_in downloads) (versionDirs loc entries) of
                  None \<Rightarrow> []
                | Some releases \<Rightarrow> rev (js_sort (by_tag loc) releases))))"

section \<open>Lemmas: the order of the tags\<close>

lemma compareReleaseAsc_semver:
  assumes "parseSemver a = Some pa" and "parseSemver b = Some pb"
  shows "compareReleaseAsc loc a b \<le> 0 \<longleftrightarrow> pa \<le> pb"
  using assms by (auto simp: compareReleaseAsc_def less_eq_semver_def)

abbreviation is_semver :: "string \<Rightarrow> bool" where
  "is_semver s \<equiv> parseSemver s \<noteq> None"

interpretation tags: js_comparator "compareReleaseAsc loc" is_semver for loc
  by unfold_locales (auto simp: compareReleaseAsc_semver)

interpretation releases: js_comparator "by_tag loc" "\<lambda>r. is_semver (lr_tag r)" for loc
proof
  fix a b c :: local_release
  assume a: "is_semver (lr_tag a)" and b: "is_semver (lr_tag b)"
  show "by_tag loc a b \<le> 0 \<or> by_tag loc b a \<le> 0"
    unfolding by_tag_def using a b by (rule tags.cmp_total)
  assume c: "is_semver (lr_tag c)"
  show "by_tag loc a b \<le> 0 \<Longrightarrow> by_tag loc b c \<le> 0 \<Longrightarrow> by_tag loc a c \<le> 0"
    unfolding by_tag_def using a b c by (rule tags.cmp_trans)
qed

lemma by_tag_semver:
  "is_semver (lr_tag a) \<Longrightarrow> is_semver (lr_tag b) \<Longrightarrow>
     by_tag loc a b \<le> 0 \<longleftrightarrow> the (parseSemver (lr_tag a)) \<le> the (parseSemver (lr_tag b))"
  by (auto simp: by_tag_def compareReleaseAsc_semver)

lemma sorted_releases:
  assumes "\<forall>r \<in> set rs. is_semver (lr_tag r)"
  shows "sorted_wrt (\<lambda>a b. the (parseSemver (lr_tag b)) \<le> the (parseSemver (lr_tag a)))
           (rev (js_sort (by_tag loc) rs))"
proof -
  have "sorted_wrt (\<lambda>a b. by_tag loc a b \<le> 0) (js_sort (by_tag loc) rs)"
    using assms by (rule releases.sorted_js_sort)
  then have "sorted_wrt (\<lambda>a b. the (parseSemver (lr_tag a)) \<le> the (parseSemver (lr_tag b)))
      (js_sort (by_tag loc) rs)"
    using assms by (auto intro: sorted_wrt_mono_rel [rotated] simp: by_tag_semver)
  then show ?thesis by (simp add: sorted_wrt_rev)
qed

section \<open>Lemmas: reading a directory\<close>

lemma map_or_throw_Some:
  "map_or_throw f xs = Some ys \<longleftrightarrow> map f xs = map Some ys"
proof (induction xs arbitrary: ys)
  case Nil
  show ?case by auto
next
  case (Cons x xs)
  show ?case by (cases ys) (auto simp: Cons split: option.split)
qed

lemma map_or_throw_total: "(\<forall>x \<in> set xs. f x \<noteq> None) \<Longrightarrow> map_or_throw f xs = Some (map (\<lambda>x. the (f x)) xs)"
  by (auto simp: map_or_throw_Some)

lemma readRelease_total:
  assumes "fs_readdir (Some dir) = Some files"
  shows "\<exists>r. readRelease dir tag = Some r \<and> lr_tag r = tag"
proof -
  have "\<forall>f \<in> set (filter is_artifact files). mk_artifact tag (shaByFile files) f \<noteq> None"
    using fs_stat_file by (auto simp: mk_artifact_def is_artifact_def)
  from map_or_throw_total [OF this] assms show ?thesis by (simp add: readRelease_def)
qed

lemma release_in_total:
  assumes "fs_ok downloads" and "fs_readdir (Some downloads) = Some entries" and "e \<in> set entries"
    and "is_version_dir e"
  shows "\<exists>r. release_in downloads (fst e) = Some r \<and> lr_tag r = fst e"
proof -
  obtain tag n where e: "e = (tag, n)" by (cases e)
  from fs_ok_readdir [OF assms(1,2)] have "distinct (map fst entries)" by blast
  with assms(3) e have "fs_child downloads tag = Some n"
    by (simp add: fs_child_readdir [OF assms(2)])
  moreover obtain es where "fs_readdir (Some n) = Some es"
    using is_dir_readdir assms(4) e unfolding is_version_dir_def by auto
  ultimately show ?thesis using readRelease_total e by (auto simp: release_in_def)
qed

lemma set_versionDirs: "set (versionDirs loc entries) = fst ` set (filter is_version_dir entries)"
  by (simp add: versionDirs_def)

text \<open>The list of releases before it is sorted: one per version directory.\<close>

lemma getLocalReleases_eq:
  assumes "fs_ok cwd" and "fs_path cwd [''public'', ''downloads''] = Some downloads"
    and "fs_readdir (Some downloads) = Some entries"
  shows "\<exists>rs. getLocalReleases loc cwd = rev (js_sort (by_tag loc) rs) \<and>
    map lr_tag rs = versionDirs loc entries"
proof -
  let ?f = "release_in downloads"
  have ok: "fs_ok downloads" using fs_ok_path assms(1,2) .
  have f: "?f t \<noteq> None \<and> lr_tag (the (?f t)) = t" if "t \<in> set (versionDirs loc entries)" for t
    using that release_in_total [OF ok assms(3)] unfolding set_versionDirs by force
  then have "map_or_throw ?f (versionDirs loc entries) = Some (map (\<lambda>t. the (?f t)) (versionDirs loc entries))"
    by (intro map_or_throw_total) blast
  moreover have "map (\<lambda>t. lr_tag (the (?f t))) (versionDirs loc entries) = versionDirs loc entries"
    using f by (intro map_idI) blast
  ultimately show ?thesis using assms by (auto simp: getLocalReleases_def comp_def)
qed

section \<open>Lemmas: checksums\<close>

definition sha_of :: "string \<times> fs_node \<Rightarrow> (string \<times> string) option" where
  "sha_of f =
     (if \<not> is_file (snd f) \<or> \<not> ends_with ''.sha256'' (fst f) then None
      else Option.bind (fs_read (Some (snd f))) parseSha256FileContents)"

lemma shaByFile_fold:
  "shaByFile files = fold (\<lambda>p m. map_set (snd p) (fst p) m) (List.map_filter sha_of files) []"
proof -
  have "fold add_sha files m = fold (\<lambda>p m. map_set (snd p) (fst p) m) (List.map_filter sha_of files) m" for m
    by (induction files arbitrary: m) (auto simp: add_sha_def sha_of_def map_filter_def split: option.splits)
  then show ?thesis by (simp add: shaByFile_def)
qed

lemma shaByFile_lookup:
  "map_get (shaByFile files) name =
     map_option fst (find (\<lambda>p. snd p = name) (rev (List.map_filter sha_of files)))"
  unfolding shaByFile_fold by (rule js_map.get_fold_last_empty)

lemma hash_line_lower:
  assumes "hash_line s = Some (h, name)"
  shows "length (to_lower h) = 64 \<and> list_all is_hex (to_lower h) \<and> (\<forall>c \<in> set (to_lower h). \<not> is_upper c)"
proof -
  from assms have h: "length h = 64" "list_all is_hex h" by (auto simp: hash_line_def Let_def split: if_splits)
  have "is_hex (lower_char c) \<and> \<not> is_upper (lower_char c)" if "is_hex c" for c
    using that by (auto simp: is_hex_def is_digit_def lower_char_def is_upper_def)
  with h show ?thesis by (auto simp: to_lower_def list_all_iff)
qed

lemma shaByFile_SomeD:
  assumes "map_get (shaByFile files) name = Some h"
  shows "\<exists>f c. f \<in> set files \<and> is_file (snd f) \<and> ends_with ''.sha256'' (fst f) \<and>
    fs_read (Some (snd f)) = Some c \<and> parseSha256FileContents c = Some (h, name)"
proof -
  from assms obtain p where p: "find (\<lambda>p. snd p = name) (rev (List.map_filter sha_of files)) = Some p"
    "h = fst p" by (auto simp: shaByFile_lookup)
  then have "p \<in> set (List.map_filter sha_of files)" "snd p = name" using find_SomeD by fastforce+
  moreover have "p = (h, name)" using p(2) \<open>snd p = name\<close> by (simp add: prod_eq_iff)
  ultimately have "(h, name) \<in> set (List.map_filter sha_of files)" by (simp only: refl)
  then obtain f where "f \<in> set files" "sha_of f = Some (h, name)" by (force simp: map_filter_def)
  then have "is_file (snd f)" "ends_with ''.sha256'' (fst f)"
    "\<exists>c. fs_read (Some (snd f)) = Some c \<and> parseSha256FileContents c = Some (h, name)"
    by (simp_all add: sha_of_def bind_eq_Some_conv split: if_splits)
  with \<open>f \<in> set files\<close> show ?thesis by blast
qed

lemma parseSha256_lower:
  assumes "parseSha256FileContents c = Some (h, name)"
  shows "length h = 64 \<and> list_all is_hex h \<and> (\<forall>x \<in> set h. \<not> is_upper x)"
proof -
  from assms obtain l g where "hash_line l = Some (g, name)" "h = to_lower g"
    by (auto simp: parseSha256FileContents_def split: option.split_asm)
  with hash_line_lower show ?thesis by blast
qed

section \<open>Lemmas: artifact names\<close>

definition role_name :: "release_role \<Rightarrow> string" where
  "role_name r = (case r of RoleInside \<Rightarrow> ''inside'' | RoleOutside \<Rightarrow> ''outside'')"

definition artifact_name :: "string \<Rightarrow> release_role \<Rightarrow> string \<Rightarrow> string \<Rightarrow> string \<Rightarrow> string" where
  "artifact_name pre r tag target ext = pre @ ''-'' @ role_name r @ ''-'' @ tag @ ''-'' @ target @ ext"

lemma role_prefix_name: "role_prefix (role_name r @ CHR ''-'' # s) = Some (r, s)"
  by (cases r) (simp_all add: role_prefix_def role_name_def)

lemma drop_last_append: "n = length e \<Longrightarrow> drop_last n (s @ e) = s"
  by (simp add: drop_last_def)

lemma strip_archive_ext:
  assumes "ext = ''.tar.gz'' \<or> ext = ''.zip'' \<or>
     (ext = [] \<and> \<not> ends_with ''.tar.gz'' target \<and> \<not> ends_with ''.zip'' target)"
  shows "strip_archive (target @ ext) = target"
  using assms
proof (elim disjE conjE)
  assume "ext = ''.tar.gz''"
  with drop_last_append [of 7 "''.tar.gz''" target] show ?thesis by (simp add: strip_archive_def)
next
  assume e: "ext = ''.zip''"
  have "\<not> ends_with ''.tar.gz'' (target @ ''.zip'')" by (simp add: ends_with_def)
  with e drop_last_append [of 4 "''.zip''" target] show ?thesis by (simp add: strip_archive_def)
qed (simp add: strip_archive_def)

lemma artifact_name_parsed:
  assumes "pre = ''sunlionet'' \<or> pre = ''shadownet''"
    and "ext = ''.tar.gz'' \<or> ext = ''.zip'' \<or>
      (ext = [] \<and> \<not> ends_with ''.tar.gz'' target \<and> \<not> ends_with ''.zip'' target)"
  shows "parseRoleAndTarget tag (artifact_name pre r tag target ext) = (Some r, Some target)"
proof -
  have p: "find (\<lambda>p. starts_with p (pre @ ''-'' @ s)) [''sunlionet-'', ''shadownet-''] = Some (pre @ ''-'')" for s
    using assms(1) by auto
  show ?thesis
    using role_prefix_name [of r "tag @ ''-'' @ target @ ext"] strip_archive_ext [OF assms(2)] p
      starts_with_append [of "tag @ ''-''" "target @ ext"]
    by (simp add: parseRoleAndTarget_def artifact_name_def del: find.simps)
qed

lemma artifact_name_offered:
  assumes "is_file node"
  shows "is_artifact (artifact_name pre r tag target ''.tar.gz'', node)"
proof -
  have l: "last (artifact_name pre r tag target ''.tar.gz'') = CHR ''z''" by (simp add: artifact_name_def)
  have "\<not> ends_with ''.sha256'' (artifact_name pre r tag target ''.tar.gz'')"
    by (simp add: ends_with_def artifact_name_def)
  moreover have "artifact_name pre r tag target ''.tar.gz'' \<noteq> n" if "last n \<noteq> CHR ''z''" for n
    using that l by blast
  ultimately show ?thesis using assms by (simp add: is_artifact_def)
qed

lemma local_releases_sorted:
  assumes "fs_ok cwd" and "fs_path cwd [''public'', ''downloads''] = Some downloads"
    and "fs_readdir (Some downloads) = Some entries"
    and "\<forall>e \<in> set entries. is_version_dir e \<longrightarrow> parseSemver (fst e) \<noteq> None"
  shows "mset (map lr_tag (getLocalReleases loc cwd)) = mset (map fst (filter is_version_dir entries)) \<and>
    sorted_wrt (\<lambda>a b. the (parseSemver (lr_tag b)) \<le> the (parseSemver (lr_tag a)))
      (getLocalReleases loc cwd)"
proof -
  obtain rs where rs: "getLocalReleases loc cwd = rev (js_sort (by_tag loc) rs)"
    "map lr_tag rs = versionDirs loc entries" using getLocalReleases_eq [OF assms(1-3)] by blast
  have "set (map lr_tag rs) = fst ` set (filter is_version_dir entries)"
    unfolding rs(2) by (rule set_versionDirs)
  with assms(4) have "\<forall>r \<in> set rs. parseSemver (lr_tag r) \<noteq> None" by force
  moreover have "mset (map lr_tag (js_sort (by_tag loc) rs)) = mset (map lr_tag rs)" by simp
  ultimately show ?thesis
    using sorted_releases by (simp add: rs(1) rs(2) versionDirs_def rev_map [symmetric])
qed

section \<open>Properties\<close>

text \<open>C21: the download page gets every release once, newest first: if the names of the version
  directories are version numbers, the releases are those directories, each once, in descending
  numeric order of major, minor and patch number.\<close>

theorem releases_newest_first:
  assumes "fs_ok cwd" and "fs_path cwd [''public'', ''downloads''] = Some downloads"
    and "fs_readdir (Some downloads) = Some entries"
    and "\<forall>e \<in> set entries. is_version_dir e \<longrightarrow> parseSemver (fst e) \<noteq> None"
  shows "mset (map lr_tag (getLocalReleases loc cwd)) = mset (map fst (filter is_version_dir entries)) \<and>
    sorted_wrt (\<lambda>a b. the (parseSemver (lr_tag b)) \<le> the (parseSemver (lr_tag a)))
      (getLocalReleases loc cwd)"
  using assms by (rule local_releases_sorted)

definition sample_downloads :: fs_dir where
  "sample_downloads = [(''v1.10.0'', Dir []), (''v1.9.2'', Dir []), (''README'', File (Some ''x'') 1 0)]"

theorem releases_newest_first_witness:
  "map lr_tag (getLocalReleases (\<lambda>_ _. 0) (Dir [(''public'', Dir [(''downloads'', Dir sample_downloads)])])) =
     [''v1.10.0'', ''v1.9.2'']"
proof -
  let ?cwd = "Dir [(''public'', Dir [(''downloads'', Dir sample_downloads)])]"
  let ?rs = "getLocalReleases (\<lambda>_ _. 0) ?cwd"
  have "fs_ok ?cwd" "fs_path ?cwd [''public'', ''downloads''] = Some (Dir sample_downloads)"
    "fs_readdir (Some (Dir sample_downloads)) = Some sample_downloads"
    "\<forall>e \<in> set sample_downloads. is_version_dir e \<longrightarrow> parseSemver (fst e) \<noteq> None" by code_simp+
  note all = releases_newest_first [OF this, of "\<lambda>_ _. 0"]
  have "map fst (filter is_version_dir sample_downloads) = [''v1.10.0'', ''v1.9.2'']" by code_simp
  with all have m: "mset (map lr_tag ?rs) = {#''v1.10.0'', ''v1.9.2''#}" by simp
  from arg_cong [OF m, of size] have "length ?rs = Suc (Suc 0)" by simp
  then obtain a b where ab: "?rs = [a, b]" unfolding length_Suc_conv by auto
  from arg_cong [OF m, of set_mset] ab
  have "(lr_tag a = ''v1.10.0'' \<and> lr_tag b = ''v1.9.2'') \<or> (lr_tag a = ''v1.9.2'' \<and> lr_tag b = ''v1.10.0'')"
    by (simp add: doubleton_eq_iff)
  moreover have "\<not> the (parseSemver ''v1.10.0'') \<le> the (parseSemver ''v1.9.2'')" by code_simp
  ultimately show ?thesis using all ab by auto
qed

text \<open>C23: a release offers exactly the regular files of its directory that are not metadata, in
  directory order, each with a link to it; a checksum shown for an artifact is a lower-case hash of
  64 hexadecimal digits that a checksum file of the same directory gives for that file name.\<close>

theorem release_artifacts:
  assumes "readRelease dir tag = Some r" and "fs_readdir (Some dir) = Some files"
  shows "map ra_fileName (lr_artifacts r) = map fst (filter is_artifact files) \<and>
    (\<forall>a \<in> set (lr_artifacts r). ra_href a = download_href tag (ra_fileName a) \<and>
       (\<forall>h. ra_sha256 a = Some h \<longrightarrow>
          length h = 64 \<and> list_all is_hex h \<and> (\<forall>x \<in> set h. \<not> is_upper x) \<and>
          (\<exists>f c. f \<in> set files \<and> is_file (snd f) \<and> ends_with ''.sha256'' (fst f) \<and>
             fs_read (Some (snd f)) = Some c \<and> parseSha256FileContents c = Some (h, ra_fileName a))))"
proof -
  let ?mk = "mk_artifact tag (shaByFile files)"
  from assms have "map_or_throw ?mk (filter is_artifact files) = Some (lr_artifacts r)"
    by (auto simp: readRelease_def)
  then have arts: "map ?mk (filter is_artifact files) = map Some (lr_artifacts r)"
    by (simp add: map_or_throw_Some)
  have "map (\<lambda>f. ra_fileName (the (?mk f))) (filter is_artifact files) =
      map (\<lambda>a. ra_fileName (the a)) (map ?mk (filter is_artifact files))" by simp
  then have "map (\<lambda>f. ra_fileName (the (?mk f))) (filter is_artifact files) = map ra_fileName (lr_artifacts r)"
    unfolding arts by (simp add: comp_def)
  moreover have "ra_fileName (the (?mk f)) = fst f" if "is_artifact f" for f
    using that fs_stat_file [of "snd f"] by (auto simp: mk_artifact_def is_artifact_def)
  then have "map (\<lambda>f. ra_fileName (the (?mk f))) (filter is_artifact files) = map fst (filter is_artifact files)"
    by (intro map_cong refl) simp
  ultimately have names: "map ra_fileName (lr_artifacts r) = map fst (filter is_artifact files)" by (rule trans [OF sym])
  have "ra_href a = download_href tag (ra_fileName a) \<and> ra_sha256 a = map_get (shaByFile files) (ra_fileName a)"
    if "a \<in> set (lr_artifacts r)" for a
  proof -
    from that have "Some a \<in> set (map ?mk (filter is_artifact files))" unfolding arts by simp
    then obtain f where "?mk f = Some a" by auto
    then show ?thesis by (auto simp: mk_artifact_def)
  qed
  with names shaByFile_SomeD parseSha256_lower show ?thesis by metis
qed

definition sample_release :: fs_dir where
  "sample_release =
     [(''a.zip'', File None 7 0),
      (''a.zip.sha256'', File (Some (replicate 64 (CHR ''A'') @ ''  a.zip'')) 71 0),
      (''VERSION.txt'', File (Some ''abc'') 3 1500)]"

theorem release_artifacts_witness:
  "\<exists>r. readRelease (Dir sample_release) ''v1.0.0'' = Some r \<and>
     map ra_fileName (lr_artifacts r) = [''a.zip'']"
proof -
  have f: "fs_readdir (Some (Dir sample_release)) = Some sample_release" by (simp add: fs_readdir_def)
  then obtain r where r: "readRelease (Dir sample_release) ''v1.0.0'' = Some r" using readRelease_total by blast
  have "map fst (filter is_artifact sample_release) = [''a.zip'']" by code_simp
  with release_artifacts [OF r f] r show ?thesis by auto
qed

text \<open>Role and target are read back from an artifact's file name: for both product prefixes, both
  roles, every tag and every target, with an archive extension or, when the target does not itself
  end in one, without.\<close>

theorem artifact_name_roundtrip:
  assumes "pre = ''sunlionet'' \<or> pre = ''shadownet''"
    and "ext = ''.tar.gz'' \<or> ext = ''.zip'' \<or>
      (ext = [] \<and> \<not> ends_with ''.tar.gz'' target \<and> \<not> ends_with ''.zip'' target)"
  shows "parseRoleAndTarget tag (artifact_name pre r tag target ext) = (Some r, Some target)"
  using assms by (rule artifact_name_parsed)

theorem artifact_name_roundtrip_witness:
  "parseRoleAndTarget ''v1.2.0'' ''sunlionet-inside-v1.2.0-linux-amd64.tar.gz'' =
     (Some RoleInside, Some ''linux-amd64'')"
  using artifact_name_roundtrip [of "''sunlionet''" "''.tar.gz''" "''linux-amd64''" "''v1.2.0''" RoleInside]
  by (simp add: artifact_name_def role_name_def)

text \<open>Directories whose names are not version numbers are compared by \<open>localeCompare\<close>, and mixing
  the two orders is not an order: with a collation that compares digit by digit, three tags form a
  cycle, so that the sorted list depends on the order of the directory.\<close>

lemma mixed_tags_cycle:
  assumes "loc ''v1.10.0'' ''v1.5'' < 0" and "loc ''v1.5'' ''v1.9.0'' < 0"
  shows "compareReleaseAsc loc ''v1.10.0'' ''v1.5'' < 0" "compareReleaseAsc loc ''v1.5'' ''v1.9.0'' < 0"
    "compareReleaseAsc loc ''v1.9.0'' ''v1.10.0'' < 0"
proof -
  have "parseSemver ''v1.5'' = None" "parseSemver ''v1.10.0'' = Some (Semver 1 10 0)"
    "parseSemver ''v1.9.0'' = Some (Semver 1 9 0)" by code_simp+
  with assms show "compareReleaseAsc loc ''v1.10.0'' ''v1.5'' < 0" "compareReleaseAsc loc ''v1.5'' ''v1.9.0'' < 0"
    "compareReleaseAsc loc ''v1.9.0'' ''v1.10.0'' < 0" by (simp_all add: compareReleaseAsc_def)
qed

end
