(* ===== verification/Downloads.thy ===== *)
theory Downloads
  imports Releases
begin

text \<open>
  The download section (\<open>components/DownloadSection.tsx\<close>, \<open>useOsDetection.ts\<close>):
  which platform is detected, which artifact of which release is recommended, what the
  platform grid offers and the commands shown. The component's state is a record; what
  React memoises are functions of it. What the section shows of it, and its dates, are in
  \<open>Download_View\<close> and \<open>Calendar\<close>. A string that JavaScript tests for truth is tested for being filled.
\<close>

section \<open>Formatting\<close>

text \<open>\<open>while (v >= 1024 && i < units.length - 1)\<close>.\<close>

function bytes_scale :: "real \<Rightarrow> nat \<Rightarrow> real \<times> nat" where
  "bytes_scale v i = (if 1024 \<le> v \<and> i < 3 then bytes_scale (v / 1024) (i + 1) else (v, i))"
  by pat_completeness auto
termination by (relation "measure (\<lambda>(v, i). 3 - i)") auto

declare bytes_scale.simps [simp del]

definition byte_units :: "string list" where
  "byte_units = [''B'', ''KB'', ''MB'', ''GB'']"

definition formatBytes :: "nat \<Rightarrow> string" where
  "formatBytes sizeBytes =
     (let (v, i) = bytes_scale (real sizeBytes) 0
      in to_fixed (if i = 0 then 0 else 1) v @ '' '' @ byte_units ! i)"

section \<open>Detection\<close>

datatype detected_os = OsAndroid | OsIos | OsWindows | OsMacos | OsLinux | OsRaspberrypi | OsUnknown

datatype detected_device = Mobile | Desktop | DeviceUnknown

record os_detection =
  od_os :: detected_os
  od_device :: detected_device
  od_label :: string
  od_confidence :: real

record navigator =
  nv_userAgent :: string
  nv_platform :: string
  nv_maxTouchPoints :: "nat option"

definition unknown_detection :: os_detection where
  "unknown_detection =
     \<lparr>od_os = OsUnknown, od_device = DeviceUnknown, od_label = ''Unknown'', od_confidence = 0\<rparr>"

definition detectFromNavigator :: "navigator option \<Rightarrow> os_detection" where
  "detectFromNavigator nav =
     (case nav of
        None \<Rightarrow> unknown_detection
      | Some n \<Rightarrow>
          let ua = to_lower (nv_userAgent n); platform = to_lower (nv_platform n);
              isAndroid = str_includes ''android'' ua;
              isIOS = str_includes ''iphone'' ua \<or> str_includes ''ipad'' ua \<or> str_includes ''ipod'' ua \<or>
                (str_includes ''mac'' platform \<and>
                  (case nv_maxTouchPoints n of None \<Rightarrow> False | Some k \<Rightarrow> 1 < k));
              isWindows = str_includes ''win'' platform \<or> str_includes ''windows nt'' ua;
              isMac = str_includes ''mac'' platform \<or> str_includes ''mac os x'' ua;
              isLinux = str_includes ''linux'' platform \<or> str_includes ''linux'' ua;
              device = (if isAndroid \<or> isIOS \<or> str_includes ''mobile'' ua then Mobile else Desktop)
          in if isAndroid then \<lparr>od_os = OsAndroid, od_device = device, od_label = ''Android'', od_confidence = 95 / 100\<rparr>
             else if isIOS then \<lparr>od_os = OsIos, od_device = device, od_label = ''iOS'', od_confidence = 9 / 10\<rparr>
             else if isWindows then \<lparr>od_os = OsWindows, od_device = device, od_label = ''Windows'', od_confidence = 9 / 10\<rparr>
             else if isMac then \<lparr>od_os = OsMacos, od_device = device, od_label = ''macOS'', od_confidence = 85 / 100\<rparr>
             else if isLinux then \<lparr>od_os = OsLinux, od_device = device, od_label = ''Linux'', od_confidence = 8 / 10\<rparr>
             else unknown_detection)"

definition supportsAutoRecommendation :: "os_detection \<Rightarrow> bool" where
  "supportsAutoRecommendation d \<longleftrightarrow> od_os d \<noteq> OsUnknown \<and> 6 / 10 \<le> od_confidence d"

datatype detected_arch = Amd64 | Arm64 | ArchUnknown

definition detectArchFromNavigator :: "navigator option \<Rightarrow> detected_arch" where
  "detectArchFromNavigator nav =
     (case nav of
        None \<Rightarrow> ArchUnknown
      | Some n \<Rightarrow>
          let full = to_lower (nv_userAgent n) @ '' '' @ to_lower (nv_platform n)
          in if str_includes ''aarch64'' full \<or> str_includes ''arm64'' full \<or> str_includes ''armv8'' full then Arm64
             else if str_includes ''x86_64'' full \<or> str_includes ''x64'' full \<or>
               str_includes ''win64'' full \<or> str_includes ''amd64'' full then Amd64
             else ArchUnknown)"

section \<open>Platforms and artifacts\<close>

datatype platform_key = PLinuxAmd64 | PLinuxArm64 | PRaspberryPi | PAndroid | PSource | PUnknown

definition platformLabel :: "platform_key \<Rightarrow> string" where
  "platformLabel k =
     (case k of
        PLinuxAmd64 \<Rightarrow> ''Linux x86_64''
      | PLinuxArm64 \<Rightarrow> ''Linux arm64''
      | PRaspberryPi \<Rightarrow> ''Raspberry Pi (ARM64)''
      | PAndroid \<Rightarrow> ''Android (Termux)''
      | PSource \<Rightarrow> ''Source code''
      | PUnknown \<Rightarrow> ''Unknown'')"

definition pickPlatform :: "detected_os \<Rightarrow> detected_arch \<Rightarrow> platform_key" where
  "pickPlatform os arch =
     (if os = OsAndroid then PAndroid
      else if os = OsRaspberrypi then PRaspberryPi
      else if os = OsLinux then
        (if arch = Arm64 then PLinuxArm64 else if arch = Amd64 then PLinuxAmd64 else PUnknown)
      else PUnknown)"

definition find_either :: "('a \<Rightarrow> bool) \<Rightarrow> ('a \<Rightarrow> bool) \<Rightarrow> 'a list \<Rightarrow> 'a option" where
  "find_either P Q xs = (case find P xs of Some x \<Rightarrow> Some x | None \<Rightarrow> find Q xs)"

definition findArtifact :: "local_release option \<Rightarrow> release_role \<Rightarrow> string \<Rightarrow> release_artifact option" where
  "findArtifact release role target =
     (case release of
        None \<Rightarrow> None
      | Some r \<Rightarrow>
          find_either (\<lambda>a. ra_role a = Some role \<and> ra_target a = Some target)
            (\<lambda>a. ra_role a = Some role \<and> str_includes target (ra_fileName a)) (lr_artifacts r))"

text \<open>A \<open>Set\<close> keeps the first of equal elements.\<close>

definition js_set :: "'a list \<Rightarrow> 'a list" where
  "js_set xs = rev (remdups (rev xs))"

definition supportedTargets :: "local_release option \<Rightarrow> string list" where
  "supportedTargets release =
     (case release of
        None \<Rightarrow> []
      | Some r \<Rightarrow> js_set (filter (\<lambda>t. t \<noteq> []) (List.map_filter ra_target (lr_artifacts r))))"

definition releaseArtifactCount :: "local_release option \<Rightarrow> nat" where
  "releaseArtifactCount release = (case release of None \<Rightarrow> 0 | Some r \<Rightarrow> length (lr_artifacts r))"

definition is_apk :: "release_artifact \<Rightarrow> bool" where
  "is_apk a \<longleftrightarrow> ra_fileName a = ''app-release.apk'' \<or> ends_with ''-app-release.apk'' (ra_fileName a)"

definition androidArtifact :: "local_release option \<Rightarrow> release_artifact option" where
  "androidArtifact release =
     (case Option.bind release (\<lambda>r. find is_apk (lr_artifacts r)) of
        Some a \<Rightarrow> Some a
      | None \<Rightarrow> findArtifact release RoleInside ''android-arm64'')"

section \<open>The component\<close>

record download_ui =
  dl_role :: release_role
  dl_manualPlatform :: platform_key
  dl_selectedTag :: string
  dl_detection :: os_detection
  dl_arch :: detected_arch
  dl_origin :: string

definition download_init :: "local_release list \<Rightarrow> navigator option \<Rightarrow> download_ui" where
  "download_init releases nav =
     \<lparr>dl_role = RoleInside, dl_manualPlatform = PUnknown,
      dl_selectedTag = (case releases of [] \<Rightarrow> [] | r # _ \<Rightarrow> lr_tag r),
      dl_detection = unknown_detection, dl_arch = detectArchFromNavigator nav, dl_origin = []\<rparr>"

text \<open>The effects after the first render.\<close>

definition download_mounted :: "string \<Rightarrow> navigator option \<Rightarrow> download_ui \<Rightarrow> download_ui" where
  "download_mounted location nav ui = ui\<lparr>dl_origin := location, dl_detection := detectFromNavigator nav\<rparr>"

definition selectedRelease :: "local_release list \<Rightarrow> download_ui \<Rightarrow> local_release option" where
  "selectedRelease releases ui =
     (case find (\<lambda>r. lr_tag r = dl_selectedTag ui) releases of
        Some r \<Rightarrow> Some r
      | None \<Rightarrow> (case releases of [] \<Rightarrow> None | r # _ \<Rightarrow> Some r))"

definition autoPlatform :: "download_ui \<Rightarrow> platform_key" where
  "autoPlatform ui =
     (if supportsAutoRecommendation (dl_detection ui) then pickPlatform (od_os (dl_detection ui)) (dl_arch ui)
      else PUnknown)"

definition effectivePlatform :: "download_ui \<Rightarrow> platform_key" where
  "effectivePlatform ui = (if dl_manualPlatform ui \<noteq> PUnknown then dl_manualPlatform ui else autoPlatform ui)"

definition recommendedFor ::
  "local_release option \<Rightarrow> platform_key \<Rightarrow> release_role \<Rightarrow> release_artifact option" where
  "recommendedFor release platform role =
     (if release = None then None
      else if platform = PLinuxAmd64 then findArtifact release role ''linux-amd64''
      else if platform = PLinuxArm64 then findArtifact release role ''linux-arm64''
      else if platform = PRaspberryPi then findArtifact release role ''linux-arm64''
      else if platform = PAndroid then (if role \<noteq> RoleInside then None else androidArtifact release)
      else None)"

definition recommendedArtifact :: "local_release list \<Rightarrow> download_ui \<Rightarrow> release_artifact option" where
  "recommendedArtifact releases ui =
     recommendedFor (selectedRelease releases ui) (effectivePlatform ui) (dl_role ui)"

datatype support_level = Stable | Experimental | Planned | Unsupported

definition recommendedSupport :: "download_ui \<Rightarrow> support_level" where
  "recommendedSupport ui =
     (let p = effectivePlatform ui in
      if p = PAndroid then (if dl_role ui \<noteq> RoleInside then Unsupported else Experimental)
      else if p = PRaspberryPi then Experimental
      else if p = PLinuxAmd64 \<or> p = PLinuxArm64 then Stable
      else Unsupported)"

definition gridArtifact ::
  "local_release option \<Rightarrow> release_role \<Rightarrow> platform_key \<Rightarrow> release_artifact option" where
  "gridArtifact release role p =
     (case p of
        PSource \<Rightarrow> None
      | PAndroid \<Rightarrow> if role = RoleInside then androidArtifact release else None
      | PRaspberryPi \<Rightarrow> findArtifact release RoleInside ''linux-arm64''
      | PLinuxAmd64 \<Rightarrow> findArtifact release role ''linux-amd64''
      | PLinuxArm64 \<Rightarrow> findArtifact release role ''linux-arm64''
      | PUnknown \<Rightarrow> None)"

definition platformChoices :: "platform_key list" where
  "platformChoices = [PLinuxAmd64, PLinuxArm64, PRaspberryPi, PAndroid, PSource]"

section \<open>Links and commands\<close>

definition githubRepo :: string where
  "githubRepo = ''https://github.com/kaveh8866/sunlionet-core''"

definition releasePageUrl :: "local_release option \<Rightarrow> string" where
  "releasePageUrl release =
     (case release of None \<Rightarrow> githubRepo @ ''/releases'' | Some r \<Rightarrow> githubRepo @ ''/releases/tag/'' @ lr_tag r)"

definition sourceTarballUrl :: "local_release option \<Rightarrow> string" where
  "sourceTarballUrl release =
     (case release of
        None \<Rightarrow> githubRepo @ ''/archive/refs/heads/main.tar.gz''
      | Some r \<Rightarrow> githubRepo @ ''/archive/refs/tags/'' @ lr_tag r @ ''.tar.gz'')"

definition hrefFor :: "string option \<Rightarrow> string \<Rightarrow> string" where
  "hrefFor basePrefix href =
     (case basePrefix of Some b \<Rightarrow> (if trim b \<noteq> [] then b else []) | None \<Rightarrow> []) @ href"

definition filled :: "string option \<Rightarrow> string option" where
  "filled s = (case s of Some t \<Rightarrow> (if t = [] then None else Some t) | None \<Rightarrow> None)"

definition artifactUrl :: "string \<Rightarrow> release_artifact option \<Rightarrow> string option" where
  "artifactUrl origin a =
     (if origin = [] then None else map_option (\<lambda>a. origin @ ra_href a) a)"

definition shaUrl :: "string \<Rightarrow> release_artifact option \<Rightarrow> string option" where
  "shaUrl origin a =
     (if origin = [] then None
      else map_option (\<lambda>h. origin @ h) (Option.bind a (\<lambda>a. filled (ra_sha256Href a))))"

record install_steps =
  is_download :: string
  is_verify :: string
  is_install :: string

definition line :: "string \<Rightarrow> string" where
  "line s = s @ newline"

definition or_text :: "string option \<Rightarrow> string \<Rightarrow> string" where
  "or_text s d = (case s of Some t \<Rightarrow> t | None \<Rightarrow> d)"

text \<open>A line for a file that the release has.\<close>

definition wget_line :: "string \<Rightarrow> string \<Rightarrow> string option \<Rightarrow> string" where
  "wget_line origin name href =
     (case filled href of Some h \<Rightarrow> line (''wget -O '' @ name @ '' '' @ origin @ h) | None \<Rightarrow> [])"

definition curl_cmd :: "string \<Rightarrow> string \<Rightarrow> string option \<Rightarrow> string" where
  "curl_cmd origin missing href =
     ''curl -fL -O '' @ (case filled href of Some h \<Rightarrow> origin @ h | None \<Rightarrow> missing)"

definition sigReady :: "release_verification \<Rightarrow> bool" where
  "sigReady v \<longleftrightarrow> filled (rv_checksumsHref v) \<noteq> None \<and> filled (rv_signatureHref v) \<noteq> None \<and>
     filled (rv_keyHref v) \<noteq> None"

definition cosign_cmd :: string where
  "cosign_cmd = ''cosign verify-blob --key checksums.pub --signature checksums.sig checksums.txt''"

definition role_text :: "release_role \<Rightarrow> string" where
  "role_text r = (case r of RoleInside \<Rightarrow> ''inside'' | RoleOutside \<Rightarrow> ''outside'')"

definition android_steps :: "string \<Rightarrow> release_verification \<Rightarrow> string \<Rightarrow> string option \<Rightarrow> install_steps" where
  "android_steps origin v url sha =
     \<lparr>is_download =
        line (''wget -O app-release.apk '' @ url) @
        line (''wget -O app-release.apk.sha256 '' @ or_text sha ''<sha256-url>'') @
        wget_line origin ''checksums.txt'' (rv_checksumsHref v) @
        wget_line origin ''checksums.sig'' (rv_signatureHref v) @
        wget_line origin ''checksums.pub'' (rv_keyHref v),
      is_verify = ''sha256sum -c app-release.apk.sha256'' @ (if sigReady v then newline @ cosign_cmd else []),
      is_install = ''adb install -r app-release.apk''\<rparr>"

definition linux_steps ::
  "string \<Rightarrow> release_verification \<Rightarrow> release_role \<Rightarrow> release_artifact \<Rightarrow> string \<Rightarrow> string option \<Rightarrow> install_steps" where
  "linux_steps origin v role a url sha =
     \<lparr>is_download =
        line (''curl -fL -O '' @ url) @ line (''curl -fL -O '' @ or_text sha ''<sha256-url>'') @
        line (curl_cmd origin ''<checksums-url>'' (rv_checksumsHref v)) @
        line (curl_cmd origin ''<signature-url>'' (rv_signatureHref v)) @
        line (curl_cmd origin ''<cosign-pubkey-url>'' (rv_keyHref v)),
      is_verify = line (''sha256sum -c '' @ ra_fileName a @ ''.sha256'') @ cosign_cmd,
      is_install =
        (if ra_kind a = TarGz
         then line (''tar -xzf '' @ ra_fileName a) @ ''sudo ./install-linux.sh '' @ role_text role
         else line (''chmod +x '' @ ra_fileName a) @ ''./'' @ ra_fileName a)\<rparr>"

definition macos_steps :: "release_role \<Rightarrow> release_artifact \<Rightarrow> string \<Rightarrow> string option \<Rightarrow> install_steps" where
  "macos_steps role a url sha =
     \<lparr>is_download = line (''curl -fL -O '' @ url) @ line (''curl -fL -O '' @ or_text sha ''<sha256-url>''),
      is_verify = ''shasum -a 256 -c '' @ ra_fileName a @ ''.sha256'',
      is_install =
        (if ra_kind a = TarGz
         then line (''tar -xzf '' @ ra_fileName a) @
           ''./sunlionet-'' @ role_text role @ '' || ./shadownet-'' @ role_text role
         else ''./'' @ ra_fileName a)\<rparr>"

definition no_verification :: release_verification where
  "no_verification = \<lparr>rv_checksumsHref = None, rv_signatureHref = None, rv_keyHref = None,
     rv_keyFingerprint = None, rv_keyFingerprintHref = None\<rparr>"

definition verificationFiles :: "local_release list \<Rightarrow> download_ui \<Rightarrow> release_verification" where
  "verificationFiles releases ui =
     (case selectedRelease releases ui of None \<Rightarrow> no_verification | Some r \<Rightarrow> lr_verification r)"

definition installSteps :: "local_release list \<Rightarrow> download_ui \<Rightarrow> install_steps option" where
  "installSteps releases ui =
     (let rec = recommendedArtifact releases ui; origin = dl_origin ui; sha = shaUrl origin rec;
          v = verificationFiles releases ui; p = effectivePlatform ui; role = dl_role ui
      in case (rec, artifactUrl origin rec) of
           (Some a, Some url) \<Rightarrow>
             if p = PAndroid then Some (android_steps origin v url sha)
             else if p = PLinuxAmd64 \<or> p = PLinuxArm64 \<or> p = PRaspberryPi
               then Some (linux_steps origin v role a url sha)
             else if od_os (dl_detection ui) = OsMacos then Some (macos_steps role a url sha)
             else None
         | _ \<Rightarrow> None)"

definition hasChecksum :: "release_artifact option \<Rightarrow> bool" where
  "hasChecksum a \<longleftrightarrow>
     (case a of None \<Rightarrow> False | Some a \<Rightarrow> filled (ra_sha256 a) \<noteq> None \<and> filled (ra_sha256Href a) \<noteq> None)"

text \<open>The heading, as the case it announces.\<close>

datatype heading_case = ManualSelection | DetectionUncertain | Recommended

definition recommendedHeading :: "download_ui \<Rightarrow> heading_case" where
  "recommendedHeading ui =
     (if \<not> supportsAutoRecommendation (dl_detection ui) then ManualSelection
      else if autoPlatform ui = PUnknown then DetectionUncertain
      else Recommended)"

section \<open>Lemmas\<close>

lemma find_either_SomeD: "find_either P Q xs = Some x \<Longrightarrow> x \<in> set xs \<and> (P x \<or> Q x)"
  by (auto simp: find_either_def split: option.splits dest: find_SomeD)


lemma find_either_first: "\<exists>x \<in> set xs. P x \<Longrightarrow> \<exists>x. find_either P Q xs = Some x \<and> P x"
proof -
  assume "\<exists>x \<in> set xs. P x"
  then have "find P xs \<noteq> None" by (auto simp: find_None_iff)
  then show ?thesis by (auto simp: find_either_def dest: find_SomeD)
qed

lemma findArtifact_SomeD:
  "findArtifact (Some r) role target = Some a \<Longrightarrow>
     a \<in> set (lr_artifacts r) \<and> ra_role a = Some role \<and>
     (ra_target a = Some target \<or> str_includes target (ra_fileName a))"
  by (auto simp: findArtifact_def dest!: find_either_SomeD)

lemma androidArtifact_SomeD:
  "androidArtifact (Some r) = Some a \<Longrightarrow>
     a \<in> set (lr_artifacts r) \<and> (is_apk a \<or> ra_role a = Some RoleInside)"
  by (auto simp: androidArtifact_def split: option.splits dest: find_SomeD findArtifact_SomeD)

lemma bytes_scale_spec:
  "bytes_scale v i = (w, j) \<Longrightarrow> 0 \<le> v \<Longrightarrow> i \<le> 3 \<Longrightarrow>
     i \<le> j \<and> j \<le> 3 \<and> v = w * 1024 ^ (j - i) \<and> (j < 3 \<longrightarrow> w < 1024) \<and> (i < j \<longrightarrow> 1 \<le> w) \<and> 0 \<le> w"
proof (induction v i rule: bytes_scale.induct)
  case (1 v i)
  show ?case
  proof (cases "1024 \<le> v \<and> i < 3")
    case True
    with "1.prems" have "bytes_scale (v / 1024) (i + 1) = (w, j)" by (simp add: bytes_scale.simps [of v i])
    from "1.IH" [OF True this] True have IH: "i + 1 \<le> j" "j \<le> 3" "v / 1024 = w * 1024 ^ (j - (i + 1))"
      "j < 3 \<longrightarrow> w < 1024" "i + 1 < j \<longrightarrow> 1 \<le> w" "0 \<le> w" by simp_all
    have "j - i = Suc (j - (i + 1))" using IH(1) by simp
    then have "v = w * 1024 ^ (j - i)" using IH(3) by simp
    moreover have "1 \<le> w" if "j = i + 1" using that IH(3) True by simp
    ultimately show ?thesis using IH by force
  next
    case False
    with "1.prems" have "w = v" "j = i" by (simp_all add: bytes_scale.simps [of v i])
    with False "1.prems" show ?thesis by auto
  qed
qed

lemma selectedRelease_mem: "selectedRelease releases ui = Some r \<Longrightarrow> r \<in> set releases"
  by (auto simp: selectedRelease_def split: option.splits list.splits dest: find_SomeD)

text \<open>The branch for macOS is never taken: without a Linux or Android platform there is no recommended
  artifact, so that the detected system never changes the commands.\<close>

lemma macos_steps_unreachable:
  "installSteps releases ui = Some s \<Longrightarrow>
     effectivePlatform ui \<in> {PAndroid, PLinuxAmd64, PLinuxArm64, PRaspberryPi}"
  by (auto simp: installSteps_def Let_def recommendedArtifact_def recommendedFor_def
      split: option.splits if_splits)

text \<open>An artifact that is listed under the published name of a target has that role and target.\<close>

lemma listed_artifact:
  assumes "readRelease dir tag = Some r" and "fs_readdir (Some dir) = Some files"
    and "(name, node) \<in> set files" and "is_file node" and "is_artifact (name, node)"
    and "parseRoleAndTarget tag name = (Some role, Some target)"
  shows "\<exists>a \<in> set (lr_artifacts r). ra_role a = Some role \<and> ra_target a = Some target"
proof -
  let ?mk = "mk_artifact tag (shaByFile files)"
  from assms(1,2) have arts: "map ?mk (filter is_artifact files) = map Some (lr_artifacts r)"
    by (auto simp: readRelease_def map_or_throw_Some)
  have "?mk (name, node) \<in> set (map ?mk (filter is_artifact files))" using assms(3,5) by auto
  then obtain a where a: "?mk (name, node) = Some a" "a \<in> set (lr_artifacts r)" unfolding arts by auto
  then have "ra_role a = Some role \<and> ra_target a = Some target" using assms(6) by (auto simp: mk_artifact_def)
  with a(2) show ?thesis by blast
qed

lemma artifact_href:
  assumes "readRelease dir tag = Some r" and "a \<in> set (lr_artifacts r)"
  shows "ra_href a = download_href tag (ra_fileName a)"
proof -
  from assms(1) obtain files where "map (mk_artifact tag (shaByFile files)) (filter is_artifact files) =
      map Some (lr_artifacts r)" by (auto simp: readRelease_def map_or_throw_Some split: option.split_asm)
  moreover have "Some a \<in> set (map Some (lr_artifacts r))" using assms(2) by simp
  ultimately have "Some a \<in> set (map (mk_artifact tag (shaByFile files)) (filter is_artifact files))" by simp
  then obtain f where "mk_artifact tag (shaByFile files) f = Some a" by auto
  then show ?thesis by (auto simp: mk_artifact_def)
qed

section \<open>Properties\<close>

text \<open>C25: a recommendation is always of the selected release and for the selected role: the artifact is
  one of that release and has that role, or it is the Android package, which is recommended for
  the inside role only.\<close>

theorem recommendation_sound:
  assumes "recommendedArtifact releases ui = Some a"
  shows "\<exists>r \<in> set releases. selectedRelease releases ui = Some r \<and> a \<in> set (lr_artifacts r) \<and>
    (ra_role a = Some (dl_role ui) \<or>
     (effectivePlatform ui = PAndroid \<and> dl_role ui = RoleInside \<and> is_apk a))"
proof -
  from assms obtain r where r: "selectedRelease releases ui = Some r"
    by (auto simp: recommendedArtifact_def recommendedFor_def split: if_splits)
  with assms have "a \<in> set (lr_artifacts r) \<and> (ra_role a = Some (dl_role ui) \<or>
      (effectivePlatform ui = PAndroid \<and> dl_role ui = RoleInside \<and> is_apk a))"
    by (auto simp: recommendedArtifact_def recommendedFor_def split: if_splits
        dest: findArtifact_SomeD androidArtifact_SomeD)
  with r selectedRelease_mem [OF r] show ?thesis by blast
qed

definition sample_artifact :: release_artifact where
  "sample_artifact =
     \<lparr>ra_fileName = ''sunlionet-inside-v1.0.0-linux-amd64.tar.gz'', ra_href = ''/downloads/v1.0.0/x'',
      ra_sizeBytes = 2048, ra_kind = TarGz, ra_sha256 = None, ra_sha256Href = None,
      ra_role = Some RoleInside, ra_target = Some ''linux-amd64''\<rparr>"

definition sample_local :: local_release where
  "sample_local = \<lparr>lr_tag = ''v1.0.0'', lr_buildRef = None, lr_createdAtUnix = None,
     lr_artifacts = [sample_artifact], lr_verification = no_verification\<rparr>"

definition sample_ui :: download_ui where
  "sample_ui = \<lparr>dl_role = RoleInside, dl_manualPlatform = PLinuxAmd64, dl_selectedTag = ''v1.0.0'',
     dl_detection = unknown_detection, dl_arch = ArchUnknown, dl_origin = ''https://x''\<rparr>"

lemma sample_recommended: "recommendedArtifact [sample_local] sample_ui = Some sample_artifact"
  by (simp add: recommendedArtifact_def recommendedFor_def selectedRelease_def effectivePlatform_def
      findArtifact_def find_either_def sample_local_def sample_ui_def sample_artifact_def)

theorem recommendation_sound_witness:
  "sample_artifact \<in> set (lr_artifacts sample_local) \<and> ra_role sample_artifact = Some RoleInside"
proof -
  have "effectivePlatform sample_ui = PLinuxAmd64" by (simp add: effectivePlatform_def sample_ui_def)
  with recommendation_sound [OF sample_recommended] show ?thesis by (auto simp: sample_ui_def)
qed

text \<open>C24: what is published is found: if the directory of the selected release has a regular file with
  the published name of the Linux x86_64 bundle for the selected role, then on that platform an
  artifact of that role and target is recommended, and the commands start by downloading it from
  the release's directory.\<close>

theorem published_artifact_recommended:
  assumes "readRelease dir tag = Some r" and "fs_readdir (Some dir) = Some files"
    and "(artifact_name pre (dl_role ui) tag ''linux-amd64'' ''.tar.gz'', node) \<in> set files" and "is_file node"
    and "pre = ''sunlionet'' \<or> pre = ''shadownet''"
    and "selectedRelease releases ui = Some r" and "effectivePlatform ui = PLinuxAmd64" and "dl_origin ui \<noteq> []"
  shows "\<exists>a s. recommendedArtifact releases ui = Some a \<and> installSteps releases ui = Some s \<and>
    ra_role a = Some (dl_role ui) \<and> ra_target a = Some ''linux-amd64'' \<and>
    starts_with (''curl -fL -O '' @ dl_origin ui @ download_href tag (ra_fileName a)) (is_download s)"
proof -
  let ?name = "artifact_name pre (dl_role ui) tag ''linux-amd64'' ''.tar.gz''"
  have p: "parseRoleAndTarget tag ?name = (Some (dl_role ui), Some ''linux-amd64'')"
    using artifact_name_parsed assms(5) by blast
  have "is_artifact (?name, node)" using assms(4,5) artifact_name_offered by blast
  from listed_artifact [OF assms(1-4) this p] obtain b where "b \<in> set (lr_artifacts r)"
    "ra_role b = Some (dl_role ui) \<and> ra_target b = Some ''linux-amd64''" by blast
  then obtain a where a: "findArtifact (Some r) (dl_role ui) ''linux-amd64'' = Some a"
    "ra_role a = Some (dl_role ui)" "ra_target a = Some ''linux-amd64''"
    using find_either_first [of "lr_artifacts r" "\<lambda>a. ra_role a = Some (dl_role ui) \<and> ra_target a = Some ''linux-amd64''"]
    unfolding findArtifact_def by fastforce
  then have rec: "recommendedArtifact releases ui = Some a"
    by (simp add: recommendedArtifact_def recommendedFor_def assms(6,7))
  have href: "ra_href a = download_href tag (ra_fileName a)"
    using findArtifact_SomeD [OF a(1)] artifact_href [OF assms(1)] by blast
  have "installSteps releases ui = Some (linux_steps (dl_origin ui) (verificationFiles releases ui) (dl_role ui) a
      (dl_origin ui @ ra_href a) (shaUrl (dl_origin ui) (Some a)))"
    using assms(7,8) by (simp add: installSteps_def Let_def rec artifactUrl_def)
  moreover have "starts_with (''curl -fL -O '' @ u) (line (''curl -fL -O '' @ u) @ x)" for u x
    unfolding line_def append_assoc starts_with_iff by blast
  ultimately show ?thesis using rec a href by (simp add: linux_steps_def)
qed

definition sample_dir :: fs_dir where
  "sample_dir = [(''sunlionet-inside-v1.0.0-linux-amd64.tar.gz'', File None 2048 0)]"

theorem published_artifact_recommended_witness:
  "\<exists>r a. readRelease (Dir sample_dir) ''v1.0.0'' = Some r \<and> recommendedArtifact [r] sample_ui = Some a \<and>
     ra_target a = Some ''linux-amd64''"
proof -
  have d: "fs_readdir (Some (Dir sample_dir)) = Some sample_dir" by (simp add: fs_readdir_def)
  then obtain r where r: "readRelease (Dir sample_dir) ''v1.0.0'' = Some r" "lr_tag r = ''v1.0.0''"
    using readRelease_total by blast
  have m: "(artifact_name ''sunlionet'' (dl_role sample_ui) ''v1.0.0'' ''linux-amd64'' ''.tar.gz'', File None 2048 0)
      \<in> set sample_dir"
    by (simp add: sample_dir_def sample_ui_def artifact_name_def role_name_def)
  have "is_file (File None 2048 0)" "''sunlionet'' = ''sunlionet'' \<or> ''sunlionet'' = ''shadownet''"
    "selectedRelease [r] sample_ui = Some r" "effectivePlatform sample_ui = PLinuxAmd64" "dl_origin sample_ui \<noteq> []"
    using r(2) by (simp_all add: is_file_def selectedRelease_def effectivePlatform_def sample_ui_def)
  from published_artifact_recommended [OF r(1) d m this] r(1) show ?thesis by blast
qed

text \<open>Grid and recommendation agree: for every platform the grid offers the artifact that
  selecting the platform would recommend, except on the Raspberry Pi with the outside role.\<close>

theorem grid_agrees:
  assumes "p \<noteq> PRaspberryPi \<or> role = RoleInside"
  shows "gridArtifact (Some r) role p = recommendedFor (Some r) p role"
  using assms by (cases p) (auto simp: gridArtifact_def recommendedFor_def)

theorem grid_agrees_witness:
  "gridArtifact (Some sample_local) RoleOutside PLinuxAmd64 = recommendedFor (Some sample_local) PLinuxAmd64 RoleOutside"
  by (rule grid_agrees) simp

text \<open>On that platform with that role the grid links the inside artifact while the recommendation
  asks for an outside one.\<close>

lemma grid_ignores_role:
  "gridArtifact (Some r) RoleOutside PRaspberryPi = findArtifact (Some r) RoleInside ''linux-arm64''"
  "recommendedFor (Some r) PRaspberryPi RoleOutside = findArtifact (Some r) RoleOutside ''linux-arm64''"
  by (simp_all add: gridArtifact_def recommendedFor_def)

text \<open>Without a package the Android recommendation falls back to the command-line archive, but the
  commands still save it as a package and install that.\<close>

lemma android_fallback_commands:
  assumes "selectedRelease releases ui = Some r" and "effectivePlatform ui = PAndroid" and "dl_role ui = RoleInside"
    and "dl_origin ui \<noteq> []" and "find is_apk (lr_artifacts r) = None"
    and "findArtifact (Some r) RoleInside ''android-arm64'' = Some a"
  shows "\<exists>s. recommendedArtifact releases ui = Some a \<and> installSteps releases ui = Some s \<and>
    is_install s = ''adb install -r app-release.apk''"
proof -
  have rec: "recommendedArtifact releases ui = Some a"
    using assms by (simp add: recommendedArtifact_def recommendedFor_def androidArtifact_def)
  with assms(2,4) show ?thesis by (simp add: installSteps_def Let_def artifactUrl_def android_steps_def)
qed

text \<open>A size is scaled correctly: the unit is the largest of the four for which the value is at
  least one, the value is below 1024 except in gigabytes, and times its unit it is the size.\<close>

theorem formatBytes_scaled:
  "\<exists>v i. formatBytes n = to_fixed (if i = 0 then 0 else 1) v @ '' '' @ byte_units ! i \<and>
     i \<le> 3 \<and> real n = v * 1024 ^ i \<and> (v < 1024 \<or> i = 3) \<and> (1 \<le> v \<or> i = 0)"
proof -
  obtain v i where s: "bytes_scale (real n) 0 = (v, i)" by fastforce
  from bytes_scale_spec [OF s] have "i \<le> 3" "real n = v * 1024 ^ i" "i < 3 \<longrightarrow> v < 1024" "0 < i \<longrightarrow> 1 \<le> v" by auto
  with s show ?thesis unfolding formatBytes_def by (intro exI [of _ v] exI [of _ i]) auto
qed

end
