(* ===== verification/Site_Tree.thy ===== *)
theory Site_Tree
  imports Site_Files Web_Platform Markdown_Inline
begin

text \<open>
  Where the pages come from: the content and documentation trees (\<open>lib/content/fs.ts\<close>,
  \<open>lib/docs/fs.ts\<close>, whose title and walk functions are the same) and the parity check that
  the build runs on the two languages (\<open>scripts/content-check.mjs\<close>). A path is the list of
  its segments below the root of the file tree; \<open>localeCompare\<close> is the parameter \<open>loc\<close>;
  an operation that throws returns \<open>None\<close>.
\<close>

section \<open>Titles\<close>

text \<open>\<open>/^#\s+(.+)\s*$/\<close> and the trimmed group; the dot does not match a carriage return.\<close>

definition is_cr :: "char \<Rightarrow> bool" where
  "is_cr c \<longleftrightarrow> code_of c = 13"

definition title_match :: "string \<Rightarrow> string option" where
  "title_match l =
     (if \<not> starts_with ''#'' l then None
      else let after = tl l; body = dropWhile is_ws after
        in if after = [] \<or> \<not> is_ws (hd after) then None
           else if body \<noteq> []
             then (if list_all is_ws (dropWhile (\<lambda>c. \<not> is_cr c) body)
                   then Some (trim (takeWhile (\<lambda>c. \<not> is_cr c) body)) else None)
           else if list_ex (\<lambda>c. \<not> is_cr c) (tl after) then Some [] else None)"

definition is_word :: "char \<Rightarrow> bool" where
  "is_word c \<longleftrightarrow> is_upper c \<or> is_lower c \<or> is_digit c \<or> c = CHR ''_''"

text \<open>\<open>replace(/[-_]+/g, " ")\<close> and \<open>replace(/\b\w/g, c => c.toUpperCase())\<close>.\<close>

fun spaced :: "bool \<Rightarrow> string \<Rightarrow> string" where
  "spaced _ [] = []"
| "spaced in_run (c # s) =
     (if c = CHR ''-'' \<or> c = CHR ''_'' then (if in_run then spaced True s else CHR '' '' # spaced True s)
      else c # spaced False s)"

fun cap_words :: "bool \<Rightarrow> string \<Rightarrow> string" where
  "cap_words _ [] = []"
| "cap_words after_word (c # s) =
     (if is_word c \<and> \<not> after_word then upper_char c else c) # cap_words (is_word c) s"

definition titleFromFilename :: "string \<Rightarrow> string" where
  "titleFromFilename name = cap_words False (spaced False (strip_md name))"

text \<open>\<open>readTitle\<close> on the contents of the file of that name.\<close>

definition readTitle :: "string \<Rightarrow> string option \<Rightarrow> string option" where
  "readTitle name contents =
     (case contents of
        None \<Rightarrow> None
      | Some raw \<Rightarrow>
          (case find (\<lambda>l. title_match l \<noteq> None) (split_lines raw) of
             Some l \<Rightarrow> title_match l
           | None \<Rightarrow> Some (titleFromFilename name)))"

section \<open>Finding a root\<close>

text \<open>\<open>path.dirname\<close>, and \<open>..\<close> in \<open>path.join\<close>: the root is its own parent.\<close>

definition parent :: "string list \<Rightarrow> string list" where
  "parent p = butlast p"

definition fs_exists :: "fs_node \<Rightarrow> string list \<Rightarrow> bool" where
  "fs_exists fs p \<longleftrightarrow> Option.bind (fs_path fs p) follow \<noteq> None"

definition fs_isDirectory :: "fs_node \<Rightarrow> string list \<Rightarrow> bool" where
  "fs_isDirectory fs p \<longleftrightarrow> fs_readdir (fs_path fs p) \<noteq> None"

fun climb :: "(string list \<Rightarrow> bool) \<Rightarrow> string \<Rightarrow> nat \<Rightarrow> string list \<Rightarrow> string list option" where
  "climb ok name 0 dir = None"
| "climb ok name (Suc n) dir =
     (if ok (dir @ [name]) then Some (dir @ [name])
      else if parent dir = dir then None
      else climb ok name n (parent dir))"

definition direct_candidates :: "string \<Rightarrow> string list \<Rightarrow> string list list" where
  "direct_candidates name cwd =
     [cwd @ [name], parent cwd @ [name], parent (parent cwd) @ [name]]"

definition find_root :: "(string list \<Rightarrow> bool) \<Rightarrow> string \<Rightarrow> string list \<Rightarrow> string list" where
  "find_root ok name cwd =
     (case find ok (direct_candidates name cwd) of
        Some c \<Rightarrow> c
      | None \<Rightarrow> (case climb ok name 8 cwd of Some c \<Rightarrow> c | None \<Rightarrow> cwd @ [name]))"

definition isContentRoot :: "fs_node \<Rightarrow> string list \<Rightarrow> bool" where
  "isContentRoot fs c \<longleftrightarrow> fs_isDirectory fs c \<and> fs_exists fs (c @ [''en'']) \<and> fs_exists fs (c @ [''fa''])"

definition findContentRoot :: "fs_node \<Rightarrow> string list \<Rightarrow> string list" where
  "findContentRoot fs cwd = find_root (isContentRoot fs) ''content'' cwd"

definition isDocsRoot :: "fs_node \<Rightarrow> string list \<Rightarrow> bool" where
  "isDocsRoot fs c \<longleftrightarrow> fs_isDirectory fs c \<and> fs_exists fs (c @ [''index.md''])"

definition findDocsRoot :: "fs_node \<Rightarrow> string list \<Rightarrow> string list" where
  "findDocsRoot fs cwd = find_root (isDocsRoot fs) ''docs'' cwd"

section \<open>Walking a tree\<close>

record site_entry =
  se_slug :: "string list"
  se_path :: "string list"
  se_title :: string

definition is_hidden :: "string \<Rightarrow> bool" where
  "is_hidden name \<longleftrightarrow> starts_with ''.'' name"

definition is_md_name :: "string \<Rightarrow> bool" where
  "is_md_name name \<longleftrightarrow> ends_with ''.md'' (to_lower name)"

definition slug_of :: "string list \<Rightarrow> string list" where
  "slug_of rel = filter (\<lambda>s. s \<noteq> []) (split_on (CHR ''/'') (strip_md (back_to_slash (join ''/'' rel))))"

text \<open>\<open>walk\<close> of the directory at \<open>base @ rel\<close> with the entries \<open>es\<close>.\<close>

function walk :: "string list \<Rightarrow> string list \<Rightarrow> fs_dir \<Rightarrow> site_entry list option" where
  "walk base rel [] = Some []"
| "walk base rel ((name, node) # es) =
     (if is_hidden name then walk base rel es
      else case node of
        Dir sub \<Rightarrow>
          (case walk base (rel @ [name]) sub of
             None \<Rightarrow> None
           | Some xs \<Rightarrow> map_option ((@) xs) (walk base rel es))
      | Link _ \<Rightarrow> walk base rel es
      | File contents _ _ \<Rightarrow>
          if \<not> is_md_name name then walk base rel es
          else (case readTitle name contents of
              None \<Rightarrow> None
            | Some title \<Rightarrow>
                map_option ((#) \<lparr>se_slug = slug_of (rel @ [name]), se_path = base @ rel @ [name],
                                 se_title = title\<rparr>) (walk base rel es)))"
  by pat_completeness auto
termination by (relation "measure (\<lambda>(base, rel, es). size (Dir es))") auto

definition walk_tree :: "fs_node \<Rightarrow> string list \<Rightarrow> site_entry list option" where
  "walk_tree fs base =
     (case fs_readdir (fs_path fs base) of None \<Rightarrow> None | Some es \<Rightarrow> walk base [] es)"

definition slug_key :: "string list \<Rightarrow> string" where
  "slug_key slug = join ''/'' slug"

definition by_slug :: "(string \<Rightarrow> string \<Rightarrow> int) \<Rightarrow> site_entry \<Rightarrow> site_entry \<Rightarrow> int" where
  "by_slug loc a b = loc (slug_key (se_slug a)) (slug_key (se_slug b))"

section \<open>Content pages\<close>

datatype content_type = CBlog | CDocs | CPages | CUpdates

datatype lang = En | Fa

definition type_dir :: "content_type \<Rightarrow> string" where
  "type_dir t = (case t of CBlog \<Rightarrow> ''blog'' | CDocs \<Rightarrow> ''docs'' | CPages \<Rightarrow> ''pages'' | CUpdates \<Rightarrow> ''updates'')"

definition lang_dir :: "lang \<Rightarrow> string" where
  "lang_dir l = (case l of En \<Rightarrow> ''en'' | Fa \<Rightarrow> ''fa'')"

record content_entry = site_entry +
  ce_type :: content_type
  ce_lang :: lang

definition content_base :: "fs_node \<Rightarrow> string list \<Rightarrow> content_type \<Rightarrow> lang \<Rightarrow> string list" where
  "content_base fs cwd t l = findContentRoot fs cwd @ [lang_dir l, type_dir t]"

definition getContentIndex ::
  "(string \<Rightarrow> string \<Rightarrow> int) \<Rightarrow> fs_node \<Rightarrow> string list \<Rightarrow> content_type \<Rightarrow> lang \<Rightarrow> content_entry list option" where
  "getContentIndex loc fs cwd t l =
     map_option
       (\<lambda>entries. map (\<lambda>e. \<lparr>se_slug = se_slug e, se_path = se_path e, se_title = se_title e,
                            ce_type = t, ce_lang = l\<rparr>) (js_sort (by_slug loc) entries))
       (walk_tree fs (content_base fs cwd t l))"

definition find_slug :: "string list \<Rightarrow> 'a site_entry_scheme list \<Rightarrow> 'a site_entry_scheme option" where
  "find_slug slug entries = find (\<lambda>e. slug_key (se_slug e) = slug_key slug) entries"

definition getContentBySlug ::
  "(string \<Rightarrow> string \<Rightarrow> int) \<Rightarrow> fs_node \<Rightarrow> string list \<Rightarrow> content_type \<Rightarrow> lang \<Rightarrow> string list \<Rightarrow>
     content_entry option option" where
  "getContentBySlug loc fs cwd t l slug = map_option (find_slug slug) (getContentIndex loc fs cwd t l)"

definition readContentMarkdownBySlug ::
  "(string \<Rightarrow> string \<Rightarrow> int) \<Rightarrow> fs_node \<Rightarrow> string list \<Rightarrow> content_type \<Rightarrow> lang \<Rightarrow> string list \<Rightarrow>
     (content_entry \<times> string) option option" where
  "readContentMarkdownBySlug loc fs cwd t l slug =
     (case getContentBySlug loc fs cwd t l slug of
        None \<Rightarrow> None
      | Some None \<Rightarrow> Some None
      | Some (Some entry) \<Rightarrow> map_option (\<lambda>raw. Some (entry, raw)) (fs_read (fs_path fs (se_path entry))))"

section \<open>Documentation pages\<close>

definition getDocsIndex :: "(string \<Rightarrow> string \<Rightarrow> int) \<Rightarrow> fs_node \<Rightarrow> string list \<Rightarrow> site_entry list option" where
  "getDocsIndex loc fs cwd = map_option (js_sort (by_slug loc)) (walk_tree fs (findDocsRoot fs cwd))"

definition getDocBySlug ::
  "(string \<Rightarrow> string \<Rightarrow> int) \<Rightarrow> fs_node \<Rightarrow> string list \<Rightarrow> string list \<Rightarrow> site_entry option option" where
  "getDocBySlug loc fs cwd slug = map_option (find_slug slug) (getDocsIndex loc fs cwd)"

definition readDocMarkdownBySlug ::
  "(string \<Rightarrow> string \<Rightarrow> int) \<Rightarrow> fs_node \<Rightarrow> string list \<Rightarrow> string list \<Rightarrow> (site_entry \<times> string) option option" where
  "readDocMarkdownBySlug loc fs cwd slug =
     (case getDocBySlug loc fs cwd slug of
        None \<Rightarrow> None
      | Some None \<Rightarrow> Some None
      | Some (Some doc) \<Rightarrow> map_option (\<lambda>raw. Some (doc, raw)) (fs_read (fs_path fs (se_path doc))))"

section \<open>The parity check\<close>

function list_entries :: "(string \<Rightarrow> string \<Rightarrow> int) \<Rightarrow> string list \<Rightarrow> fs_dir \<Rightarrow> string list" where
  "list_entries loc rel [] = []"
| "list_entries loc rel ((name, node) # es) =
     (if is_hidden name then list_entries loc rel es
      else case node of
        Dir sub \<Rightarrow> js_sort loc (list_entries loc (rel @ [name]) sub) @ list_entries loc rel es
      | Link _ \<Rightarrow> list_entries loc rel es
      | File _ _ _ \<Rightarrow>
          if \<not> is_md_name name then list_entries loc rel es
          else back_to_slash (join ''/'' (rel @ [name])) # list_entries loc rel es)"
  by pat_completeness auto
termination by (relation "measure (\<lambda>(loc, rel, es). size (Dir es))") auto

definition listMarkdownFiles :: "(string \<Rightarrow> string \<Rightarrow> int) \<Rightarrow> fs_dir \<Rightarrow> string list" where
  "listMarkdownFiles loc es = js_sort loc (list_entries loc [] es)"

definition check_root :: "fs_node \<Rightarrow> string list \<Rightarrow> string list" where
  "check_root fs cwd =
     (case climb (\<lambda>c. fs_isDirectory fs (c @ [''en'']) \<and> fs_isDirectory fs (c @ [''fa''])) ''content'' 10 cwd of
        Some c \<Rightarrow> c | None \<Rightarrow> cwd @ [''content''])"

text \<open>\<open>Object.entries\<close>; \<open>None\<close> is the TypeError for null.\<close>

fun js_entries :: "json \<Rightarrow> (string \<times> json) list option" where
  "js_entries JNull = None"
| "js_entries (JObj kvs) = Some kvs"
| "js_entries (JArr vs) = Some (zip (map show_nat [0..<length vs]) vs)"
| "js_entries (JStr s) = Some (zip (map show_nat [0..<length s]) (map (\<lambda>c. JStr [c]) s))"
| "js_entries _ = Some []"

definition filled_string :: "json option \<Rightarrow> bool" where
  "filled_string v = (case v of Some (JStr s) \<Rightarrow> trim s \<noteq> [] | _ \<Rightarrow> False)"

definition bad_term :: "json \<Rightarrow> bool" where
  "bad_term v \<longleftrightarrow>
     (let en = (if is_object v then json_get v ''en'' else None);
          fa = (if is_object v then json_get v ''fa'' else None)
      in \<not> filled_string en \<or> \<not> filled_string fa)"

text \<open>The keys of the invalid entries; a non-empty list is the error that is thrown.\<close>

definition assertTerminology :: "json \<Rightarrow> string list option" where
  "assertTerminology obj = map_option (\<lambda>kvs. map fst (filter (\<lambda>kv. bad_term (snd kv)) kvs)) (js_entries obj)"

definition check_type ::
  "(string \<Rightarrow> string \<Rightarrow> int) \<Rightarrow> fs_node \<Rightarrow> string list \<Rightarrow> content_type \<Rightarrow> bool \<times> string list" where
  "check_type loc fs base t =
     (case (fs_readdir (fs_path fs (base @ [''en'', type_dir t])),
            fs_readdir (fs_path fs (base @ [''fa'', type_dir t]))) of
        (None, None) \<Rightarrow> (True, [])
      | (Some _, None) \<Rightarrow> (False, [''[content] '' @ type_dir t @ '': missing directory for fa''])
      | (None, Some _) \<Rightarrow> (False, [''[content] '' @ type_dir t @ '': missing directory for en''])
      | (Some enDir, Some faDir) \<Rightarrow>
          let enFiles = listMarkdownFiles loc enDir; faFiles = listMarkdownFiles loc faDir;
              missingFa = filter (\<lambda>f. f \<notin> set faFiles) enFiles;
              missingEn = filter (\<lambda>f. f \<notin> set enFiles) faFiles
          in (missingFa = [] \<and> missingEn = [],
              map (\<lambda>f. ''[content] '' @ type_dir t @ '': missing fa/'' @ type_dir t @ ''/'' @ f) missingFa @
              map (\<lambda>f. ''[content] '' @ type_dir t @ '': missing en/'' @ type_dir t @ ''/'' @ f) missingEn))"

datatype check_result = CheckThrew | CheckExit1 "string list" | CheckOk

definition content_check ::
  "(string \<Rightarrow> json option) \<Rightarrow> (string \<Rightarrow> string \<Rightarrow> int) \<Rightarrow> fs_node \<Rightarrow> string list \<Rightarrow> check_result" where
  "content_check parse loc fs cwd =
     (let base = check_root fs cwd in
      case Option.bind (Option.bind (fs_read (fs_path fs (base @ [''terminology.json'']))) parse) assertTerminology of
        None \<Rightarrow> CheckThrew
      | Some bad \<Rightarrow>
          if bad \<noteq> [] then CheckThrew
          else let rs = map (check_type loc fs base) [CBlog, CDocs, CPages, CUpdates]
            in if list_all fst rs then CheckOk else CheckExit1 (concat (map snd rs)))"

section \<open>What a tree shows\<close>

text \<open>The markdown files that can be reached without entering a hidden directory or a link.\<close>

inductive visible_md :: "fs_dir \<Rightarrow> string list \<Rightarrow> fs_node \<Rightarrow> bool" where
  visible_file:
    "(name, File c s m) \<in> set es \<Longrightarrow> \<not> is_hidden name \<Longrightarrow> is_md_name name \<Longrightarrow>
       visible_md es [name] (File c s m)"
| visible_dir:
    "(name, Dir sub) \<in> set es \<Longrightarrow> \<not> is_hidden name \<Longrightarrow> visible_md sub p f \<Longrightarrow> visible_md es (name # p) f"

inductive_cases visible_mdE: "visible_md es p f"
inductive_simps visible_md_iff: "visible_md es p f"

lemma visible_Nil [simp]: "\<not> visible_md [] p f"
  by (auto elim: visible_mdE)

lemma visible_Cons:
  "visible_md ((name, node) # es) p f \<longleftrightarrow>
     visible_md es p f \<or>
     (\<not> is_hidden name \<and>
       ((p = [name] \<and> node = f \<and> is_file f \<and> is_md_name name) \<or>
        (\<exists>sub q. node = Dir sub \<and> p = name # q \<and> visible_md sub q f)))"
  (is "?l \<longleftrightarrow> ?r")
proof
  assume ?l
  then show ?r
  proof (cases rule: visible_md.cases)
    case (visible_file n c s m)
    then show ?thesis by (auto simp: is_file_def intro: visible_md.intros)
  next
    case (visible_dir n sub q)
    then show ?thesis by (auto intro: visible_md.intros)
  qed
next
  have "visible_md es p f \<Longrightarrow> ?l" by (subst visible_md_iff, subst (asm) visible_md_iff) auto
  moreover have "\<not> is_hidden name \<Longrightarrow> is_file f \<Longrightarrow> is_md_name name \<Longrightarrow> visible_md ((name, f) # es) [name] f"
    by (cases f) (auto simp: is_file_def intro: visible_md.intros)
  moreover have "\<not> is_hidden name \<Longrightarrow> visible_md sub q f \<Longrightarrow> visible_md ((name, Dir sub) # es) (name # q) f" for sub q
    by (auto intro: visible_md.intros)
  ultimately show "?r \<Longrightarrow> ?l" by blast
qed

text \<open>The path of a visible file leads to it.\<close>

lemma visible_path:
  "visible_md es p f \<Longrightarrow> fs_ok (Dir es) \<Longrightarrow> fs_path (Dir es) p = Some f \<and> is_file f"
proof (induction rule: visible_md.induct)
  case (visible_file name c s m es)
  then show ?case by (simp add: fs_child_def is_file_def)
next
  case (visible_dir name sub es p f)
  from visible_dir.prems visible_dir.hyps have "map_of es name = Some (Dir sub)" by simp
  moreover have "fs_ok (Dir sub)" using visible_dir.prems visible_dir.hyps(1) by fastforce
  ultimately show ?case using visible_dir.IH by (simp add: fs_child_def)
qed

lemma visible_Ex_File:
  assumes "\<not> is_hidden name" and "is_md_name name"
  shows "(\<exists>f. visible_md ((name, File c s m) # es) p f) \<longleftrightarrow> p = [name] \<or> (\<exists>f. visible_md es p f)"
proof -
  have "visible_md ((name, File c s m) # es) p f \<longleftrightarrow> visible_md es p f \<or> (p = [name] \<and> f = File c s m)" for f
    using assms by (auto simp: visible_Cons is_file_def)
  then show ?thesis by auto
qed

lemma visible_image_File:
  "\<not> is_hidden name \<Longrightarrow> is_md_name name \<Longrightarrow>
     {g p | p. \<exists>f. visible_md ((name, File c s m) # es) p f} = insert (g [name]) {g p | p. \<exists>f. visible_md es p f}"
  by (auto simp: visible_Ex_File)

lemma walk_visible:
  "walk base rel es = Some out \<Longrightarrow>
     (\<lambda>e. (se_slug e, se_path e)) ` set out = {(slug_of (rel @ p), base @ rel @ p) | p f. visible_md es p f}"
proof (induction base rel es arbitrary: out rule: walk.induct)
  case (1 base rel)
  then show ?case by simp
next
  case (2 base rel name node es)
  show ?case
  proof (cases "is_hidden name")
    case True
    with 2 show ?thesis by (simp add: visible_Cons)
  next
    case False
    show ?thesis
    proof (cases node)
      case (Link l)
      then have "visible_md ((name, node) # es) = visible_md es"
        by (intro ext) (auto simp: visible_Cons is_file_def)
      with 2 False Link show ?thesis by simp
    next
      case (Dir sub)
      with "2.prems" False obtain xs ys where w: "walk base (rel @ [name]) sub = Some xs" "walk base rel es = Some ys"
        "out = xs @ ys" by (auto split: option.splits)
      from "2.IH"(4) [OF False Dir w(1)] "2.IH"(5) [OF False Dir w(1,2)] show ?thesis
        using False Dir w(3) by (auto simp: visible_Cons image_Un is_file_def)
    next
      case (File c s m)
      show ?thesis
      proof (cases "is_md_name name")
        case True
        with "2.prems" False File obtain t ys where t: "readTitle name c = Some t" "walk base rel es = Some ys"
          "out = \<lparr>se_slug = slug_of (rel @ [name]), se_path = base @ rel @ [name], se_title = t\<rparr> # ys"
          by (auto split: option.splits)
        from "2.IH"(3) [OF False File _ t(1,2)] True t(3) show ?thesis
          by (simp add: File visible_image_File [OF False True])
      next
        case no: False
        with 2 False File show ?thesis by (simp add: visible_Cons)
      qed
    qed
  qed
qed

text \<open>A walk that returns has read every visible file.\<close>

lemma walk_readable:
  "walk base rel es = Some out \<Longrightarrow> visible_md es p f \<Longrightarrow> fs_read (Some f) \<noteq> None"
proof (induction base rel es arbitrary: out p rule: walk.induct)
  case (1 base rel)
  then show ?case by simp
next
  case (2 base rel name node es)
  show ?case
  proof (cases "visible_md es p f")
    case True
    then have "\<exists>ys. walk base rel es = Some ys"
      using "2.prems"(1) by (auto split: if_splits fs_node.splits option.splits)
    then show ?thesis
      using 2 True by (cases node) (auto split: if_splits option.splits)
  next
    case False
    with "2.prems"(2) have h: "\<not> is_hidden name" and
      v: "(p = [name] \<and> node = f \<and> is_file f \<and> is_md_name name) \<or>
          (\<exists>sub q. node = Dir sub \<and> p = name # q \<and> visible_md sub q f)"
      by (auto simp: visible_Cons)
    from v show ?thesis
    proof (elim disjE exE conjE)
      fix sub q
      assume n: "node = Dir sub" and q: "visible_md sub q f"
      from "2.prems"(1) h n obtain xs where "walk base (rel @ [name]) sub = Some xs"
        by (auto split: option.splits)
      from "2.IH"(4) [OF h n this q] show ?thesis .
    next
      assume n: "node = f" "is_file f" "is_md_name name"
      then obtain c s m where f: "f = File c s m" by (cases f) (auto simp: is_file_def)
      with "2.prems"(1) h n have "readTitle name c \<noteq> None" by (auto split: option.splits)
      then show ?thesis by (auto simp: f readTitle_def fs_read_def split: option.splits)
    qed
  qed
qed

lemma list_entries_visible:
  "set (list_entries loc rel es) = {back_to_slash (join ''/'' (rel @ p)) | p f. visible_md es p f}"
proof (induction loc rel es rule: list_entries.induct)
  case (1 loc rel)
  then show ?case by simp
next
  case (2 loc rel name node es)
  show ?case
  proof (cases "is_hidden name")
    case True
    with 2 show ?thesis by (simp add: visible_Cons)
  next
    case False
    show ?thesis
    proof (cases node)
      case (Link l)
      then have "visible_md ((name, node) # es) = visible_md es"
        by (intro ext) (auto simp: visible_Cons is_file_def)
      with 2 False Link show ?thesis by simp
    next
      case (Dir sub)
      with 2 False show ?thesis by (auto simp: visible_Cons is_file_def)
    next
      case (File c s m)
      show ?thesis
      proof (cases "is_md_name name")
        case True
        with 2 False File show ?thesis by (simp add: visible_image_File [OF False True])
      next
        case no: False
        with 2 False File show ?thesis by (simp add: visible_Cons)
      qed
    qed
  qed
qed

lemma slug_of_listed: "slug_of p = slug_of q" if "back_to_slash (join ''/'' p) = back_to_slash (join ''/'' q)"
  using that by (simp add: slug_of_def)

section \<open>Lemmas: the index\<close>

lemma find_slug_None: "find_slug slug es = None \<longleftrightarrow> (\<forall>e \<in> set es. slug_key (se_slug e) \<noteq> slug_key slug)"
  by (auto simp: find_slug_def find_None_iff)

lemma find_slug_Some: "find_slug slug es = Some e \<Longrightarrow> e \<in> set es \<and> slug_key (se_slug e) = slug_key slug"
  unfolding find_slug_def by (drule find_SomeD) simp

lemma getContentIndex_visible:
  assumes "fs_readdir (fs_path fs (content_base fs cwd t l)) = Some es"
    and "getContentIndex loc fs cwd t l = Some out"
  shows "(\<lambda>e. (se_slug e, se_path e)) ` set out =
    {(slug_of p, content_base fs cwd t l @ p) | p. \<exists>f. visible_md es p f}"
proof -
  from assms obtain ws where ws: "walk (content_base fs cwd t l) [] es = Some ws"
    "(\<lambda>e. (se_slug e, se_path e)) ` set out = (\<lambda>e. (se_slug e, se_path e)) ` set ws"
    by (auto simp: getContentIndex_def walk_tree_def image_image)
  with walk_visible [OF ws(1)] show ?thesis by simp
qed

lemma index_has_slug:
  assumes "fs_readdir (fs_path fs (content_base fs cwd t l)) = Some es"
    and "getContentIndex loc fs cwd t l = Some out"
  shows "(\<exists>e. find_slug slug out = Some e) \<longleftrightarrow> (\<exists>p f. visible_md es p f \<and> slug_key (slug_of p) = slug_key slug)"
proof -
  have "(\<exists>e. find_slug slug out = Some e) \<longleftrightarrow> (\<exists>s \<in> fst ` (\<lambda>e. (se_slug e, se_path e)) ` set out. slug_key s = slug_key slug)"
    using find_slug_None [of slug out] by (auto simp: image_image)
  then show ?thesis unfolding getContentIndex_visible [OF assms] by auto
qed

lemma content_paths:
  assumes "fs_ok fs" and "fs_readdir (fs_path fs base) = Some es" and "visible_md es p f"
  shows "fs_path fs (base @ p) = Some f"
proof -
  obtain n where n: "fs_path fs base = Some n" "follow n = Some (Dir es)"
    using fs_readdir_SomeD [OF assms(2)] by blast
  have "fs_ok (Dir es)" using fs_ok_follow [OF fs_ok_path [OF assms(1) n(1)] n(2)] .
  then have "fs_path (Dir es) p = Some f" using visible_path assms(3) by blast
  moreover have "p \<noteq> []" using assms(3) by (auto elim: visible_mdE)
  then have "fs_path n p = fs_path (Dir es) p" using n(2) by (cases p) (simp_all add: fs_child_def)
  moreover have "fs_path fs (base @ q) = fs_path n q" for q
    using n(1) by (induction base arbitrary: fs) (auto split: option.splits)
  ultimately show ?thesis by simp
qed

text \<open>What a walk lists can be read.\<close>

lemma walk_tree_read:
  assumes "fs_ok fs" and "walk_tree fs base = Some ws" and "e \<in> set ws"
  shows "\<exists>raw. fs_read (fs_path fs (se_path e)) = Some raw"
proof -
  from assms(2) obtain es where es: "fs_readdir (fs_path fs base) = Some es" "walk base [] es = Some ws"
    by (auto simp: walk_tree_def split: option.splits)
  have "(\<lambda>e. (se_slug e, se_path e)) ` set ws = {(slug_of p, base @ p) | p. \<exists>f. visible_md es p f}"
    using walk_visible [OF es(2)] by simp
  then have "(se_slug e, se_path e) \<in> {(slug_of p, base @ p) | p. \<exists>f. visible_md es p f}"
    using assms(3) by blast
  then obtain p f where p: "visible_md es p f" "se_path e = base @ p" by blast
  from content_paths [OF assms(1) es(1) p(1)] walk_readable [OF es(2) p(1)] p(2) show ?thesis by auto
qed

section \<open>Properties\<close>

text \<open>C26: a content page is served exactly when the tree has it: once the index of a type and language
  could be read, a slug is not found if and only if no visible markdown file of that tree has it,
  and otherwise the answer is the contents of a visible file that has it; the read never fails.\<close>

theorem content_page_served:
  assumes "fs_ok fs" and "fs_readdir (fs_path fs (content_base fs cwd t l)) = Some es"
    and "getContentIndex loc fs cwd t l \<noteq> None"
  shows "(readContentMarkdownBySlug loc fs cwd t l slug = Some None \<and>
       \<not> (\<exists>p f. visible_md es p f \<and> slug_key (slug_of p) = slug_key slug)) \<or>
    (\<exists>e raw p f. readContentMarkdownBySlug loc fs cwd t l slug = Some (Some (e, raw)) \<and>
       visible_md es p f \<and> slug_key (slug_of p) = slug_key slug \<and>
       se_path e = content_base fs cwd t l @ p \<and> fs_read (Some f) = Some raw)"
proof -
  from assms(3) obtain out where out: "getContentIndex loc fs cwd t l = Some out" by blast
  then have lookup: "getContentBySlug loc fs cwd t l slug = Some (find_slug slug out)"
    by (simp add: getContentBySlug_def)
  show ?thesis
  proof (cases "find_slug slug out")
    case None
    with lookup index_has_slug [OF assms(2) out, of slug] show ?thesis
      by (simp add: readContentMarkdownBySlug_def)
  next
    case (Some e)
    then have e: "e \<in> set out" "slug_key (se_slug e) = slug_key slug" using find_slug_Some by blast+
    then have "(se_slug e, se_path e) \<in> {(slug_of p, content_base fs cwd t l @ p) | p. \<exists>f. visible_md es p f}"
      unfolding getContentIndex_visible [OF assms(2) out, symmetric] by blast
    then obtain p f where p: "visible_md es p f" "se_slug e = slug_of p" "se_path e = content_base fs cwd t l @ p"
      by blast
    from out assms(2) obtain ws where "walk (content_base fs cwd t l) [] es = Some ws"
      by (auto simp: getContentIndex_def walk_tree_def)
    then obtain raw where raw: "fs_read (Some f) = Some raw" using walk_readable [OF _ p(1)] by blast
    with content_paths [OF assms(1,2) p(1)] p(3) lookup Some
    have "readContentMarkdownBySlug loc fs cwd t l slug = Some (Some (e, raw))"
      by (simp add: readContentMarkdownBySlug_def)
    with p e(2) raw show ?thesis by auto
  qed
qed

definition sample_tree :: fs_node where
  "sample_tree =
     Dir [(''content'', Dir
       [(''en'', Dir [(''docs'', Dir [(''a.md'', File (Some ''# A'') 3 0), (''.x.md'', File None 0 0)])]),
        (''fa'', Dir [(''docs'', Dir [(''a.md'', File (Some ''# B'') 3 0)])]),
        (''terminology.json'', File (Some ''{}'') 2 0)])]"

definition sample_docs :: fs_dir where
  "sample_docs = [(''a.md'', File (Some ''# A'') 3 0), (''.x.md'', File None 0 0)]"

theorem content_page_served_witness:
  "\<exists>e. readContentMarkdownBySlug (\<lambda>_ _. 0) sample_tree [] CDocs En [''a''] = Some (Some (e, ''# A''))"
proof -
  have "fs_ok sample_tree" "fs_readdir (fs_path sample_tree (content_base sample_tree [] CDocs En)) = Some sample_docs"
    "getContentIndex (\<lambda>_ _. 0) sample_tree [] CDocs En \<noteq> None" by code_simp+
  note c = content_page_served [OF this, of "[''a'']"]
  have v: "visible_md sample_docs p f \<longleftrightarrow> p = [''a.md''] \<and> f = File (Some ''# A'') 3 0" for p f
    by (auto simp: sample_docs_def visible_Cons is_hidden_def is_file_def is_md_name_def to_lower_def
        lower_char_def is_upper_def code_of_def ends_with_def)
  have "slug_key (slug_of [''a.md'']) = slug_key [''a'']" by code_simp
  with c v show ?thesis by (auto simp: fs_read_def)
qed

text \<open>C27: the parity check means what it says: if it passes, and the site looks at the tree it checked,
  then for each kind of content a slug is found in English exactly if it is found in Persian, so
  that changing the language never leads from a page to a missing one.\<close>

theorem parity_check_sound:
  assumes "content_check parse loc fs cwd = CheckOk" and "check_root fs cwd = findContentRoot fs cwd"
    and "getContentIndex loc fs cwd t En = Some enIndex" and "getContentIndex loc fs cwd t Fa = Some faIndex"
  shows "(\<exists>e. getContentBySlug loc fs cwd t En slug = Some (Some e)) \<longleftrightarrow>
    (\<exists>e. getContentBySlug loc fs cwd t Fa slug = Some (Some e))"
proof -
  from assms(3,4) obtain es fs' where
    en: "fs_readdir (fs_path fs (content_base fs cwd t En)) = Some es" and
    fa: "fs_readdir (fs_path fs (content_base fs cwd t Fa)) = Some fs'"
    by (auto simp: getContentIndex_def walk_tree_def split: option.splits)
  have "fst (check_type loc fs (findContentRoot fs cwd) t)"
    using assms(1,2) by (cases t) (auto simp: content_check_def Let_def split: option.splits if_splits)
  with en fa have "set (listMarkdownFiles loc es) = set (listMarkdownFiles loc fs')"
    by (auto simp: check_type_def content_base_def lang_dir_def Let_def filter_empty_conv)
  then have same: "{back_to_slash (join ''/'' p) | p. \<exists>f. visible_md es p f} =
      {back_to_slash (join ''/'' p) | p. \<exists>f. visible_md fs' p f}"
    using list_entries_visible [of loc "[]"] by (simp add: listMarkdownFiles_def)
  have one: "\<exists>q g. visible_md ys q g \<and> slug_of q = slug_of p"
    if "{back_to_slash (join ''/'' p) | p. \<exists>f. visible_md xs p f} =
        {back_to_slash (join ''/'' p) | p. \<exists>f. visible_md ys p f}" and "visible_md xs p f" for xs ys p f
  proof -
    from that have "back_to_slash (join ''/'' p) \<in> {back_to_slash (join ''/'' p) | p. \<exists>f. visible_md ys p f}"
      by blast
    then obtain q g where q: "visible_md ys q g" "back_to_slash (join ''/'' p) = back_to_slash (join ''/'' q)"
      by blast
    from q(1) slug_of_listed [OF q(2)] show ?thesis by metis
  qed
  have "(\<exists>p f. visible_md es p f \<and> slug_key (slug_of p) = slug_key slug) \<longleftrightarrow>
      (\<exists>p f. visible_md fs' p f \<and> slug_key (slug_of p) = slug_key slug)"
    using one [OF same] one [OF same [symmetric]] by metis
  with index_has_slug [OF en assms(3)] index_has_slug [OF fa assms(4)] assms(3,4)
  show ?thesis by (simp add: getContentBySlug_def)
qed

theorem parity_check_sound_witness:
  "\<exists>e. getContentBySlug (\<lambda>_ _. 0) sample_tree [] CDocs Fa [''a''] = Some (Some e)"
proof -
  have c: "content_check (\<lambda>_. Some (JObj [])) (\<lambda>_ _. 0) sample_tree [] = CheckOk"
    "check_root sample_tree [] = findContentRoot sample_tree []" by code_simp+
  obtain x y where "getContentIndex (\<lambda>_ _. 0) sample_tree [] CDocs En = Some x"
    "getContentIndex (\<lambda>_ _. 0) sample_tree [] CDocs Fa = Some y"
  proof -
    have "getContentIndex (\<lambda>_ _. 0) sample_tree [] CDocs En \<noteq> None"
      "getContentIndex (\<lambda>_ _. 0) sample_tree [] CDocs Fa \<noteq> None" by code_simp+
    with that show ?thesis by blast
  qed
  from parity_check_sound [OF c this, of "[''a'']"]
  have "(\<exists>e. getContentBySlug (\<lambda>_ _. 0) sample_tree [] CDocs En [''a''] = Some (Some e)) \<longleftrightarrow>
    (\<exists>e. getContentBySlug (\<lambda>_ _. 0) sample_tree [] CDocs Fa [''a''] = Some (Some e))" .
  moreover have "getContentBySlug (\<lambda>_ _. 0) sample_tree [] CDocs En [''a''] \<noteq> None"
    "getContentBySlug (\<lambda>_ _. 0) sample_tree [] CDocs En [''a''] \<noteq> Some None" by code_simp+
  moreover have "getContentBySlug (\<lambda>_ _. 0) sample_tree [] CDocs En [''a''] =
      Some (Some (the (the (getContentBySlug (\<lambda>_ _. 0) sample_tree [] CDocs En [''a'']))))"
    using calculation by (cases "the (getContentBySlug (\<lambda>_ _. 0) sample_tree [] CDocs En [''a''])") auto
  ultimately show ?thesis by blast
qed

text \<open>Two files whose names differ only in the case of the extension have one slug: only the first
  in the index can be reached.\<close>

lemma slug_extension_case: "slug_of [''A.md''] = slug_of [''A.MD'']"
  by code_simp

end
