(* ===== verification/Doc_Pages.thy ===== *)
theory Doc_Pages
  imports Site_Tree Markdown_Blocks
begin

text \<open>
  The routes of the documentation (\<open>app/docs/[...slug]/page.tsx\<close>,
  \<open>app/[lang]/docs/[...slug]/page.tsx\<close>, \<open>app/docs/all/page.tsx\<close> and the layouts): which
  slugs are generated, what a request for a slug answers, the links of the navigation; and the
  blog pages, which share the fallback to English.
\<close>

section \<open>A documentation page\<close>

definition legacyRedirects :: "(string \<times> string) list" where
  "legacyRedirects =
     [(''install-linux'', ''/docs/user/install-linux''), (''install-android'', ''/docs/user/install-android''),
      (''install-ios'', ''/docs/install''), (''install-raspberrypi'', ''/docs/user/install-linux''),
      (''mobile'', ''/docs/android/architecture''), (''signal'', ''/docs/signal''),
      (''security'', ''/docs/user/safety''), (''verification'', ''/docs/outside/verification'')]"

text \<open>The table is a JavaScript object; a slug that names a property which every object inherits
  (\<open>constructor\<close>, \<open>toString\<close>) finds that property in the code and nothing here.\<close>

definition ends_index :: "string list \<Rightarrow> bool" where
  "ends_index slug \<longleftrightarrow> slug \<noteq> [] \<and> last slug = ''index''"

definition normalizeSlug :: "string list \<Rightarrow> string list" where
  "normalizeSlug slug = (if slug = [] then [''index''] else slug)"

definition tryLegacyRedirect :: "string list \<Rightarrow> string option" where
  "tryLegacyRedirect slug = (case slug of [s] \<Rightarrow> map_of legacyRedirects s | _ \<Rightarrow> None)"

definition tryIndexFallback :: "string list \<Rightarrow> string list option" where
  "tryIndexFallback slug = (if slug = [] \<or> ends_index slug then None else Some (slug @ [''index'']))"

text \<open>What a route answers. Rendering that does not end is \<open>Hangs\<close>, a failing read \<open>Fails\<close>.\<close>

datatype 'a page_answer =
    RedirectTo string
  | NotFound
  | Fails
  | Hangs
  | Shown 'a bool "block list" "toc_item list"   \<comment> \<open>entry, English fallback used, nodes, contents\<close>

definition resolved_base :: "string option \<Rightarrow> string" where
  "resolved_base basePrefix = (case basePrefix of Some b \<Rightarrow> (if trim b \<noteq> [] then b else []) | None \<Rightarrow> [])"

text \<open>\<open>direct ?? fallback\<close> for a slug.\<close>

definition read_with_index ::
  "(string list \<Rightarrow> 'a option option) \<Rightarrow> string list \<Rightarrow> 'a option option" where
  "read_with_index rd slug =
     (case rd slug of
        None \<Rightarrow> None
      | Some (Some d) \<Rightarrow> Some (Some d)
      | Some None \<Rightarrow> (case tryIndexFallback slug of None \<Rightarrow> Some None | Some s \<Rightarrow> rd s))"

definition doc_opts :: "string list \<Rightarrow> string \<Rightarrow> string option \<Rightarrow> link_opts" where
  "doc_opts slug base route = \<lparr>lo_baseSlug = slug, lo_basePrefix = Some base, lo_routeBase = route\<rparr>"

definition render_answer :: "'a \<Rightarrow> bool \<Rightarrow> (block list \<times> toc_item list) option \<Rightarrow> 'a page_answer" where
  "render_answer entry fb r = (case r of None \<Rightarrow> Hangs | Some (nodes, toc) \<Rightarrow> Shown entry fb nodes toc)"

definition DocPage ::
  "(string list \<Rightarrow> (site_entry \<times> string) option option) \<Rightarrow> string option \<Rightarrow> string list \<Rightarrow> site_entry page_answer" where
  "DocPage rd basePrefix slug =
     (let base = resolved_base basePrefix; prefersFa = (base = ''/fa'') in
      case tryLegacyRedirect slug of
        Some l \<Rightarrow> RedirectTo (base @ l)
      | None \<Rightarrow>
          let norm = normalizeSlug slug in
          if prefersFa \<and> take 2 norm = [''fa'', ''fa'']
            then RedirectTo (base @ ''/docs/'' @ join ''/'' (drop 2 norm))
          else if norm = [''index''] then RedirectTo (base @ ''/docs'')
          else (case read_with_index rd norm of
              None \<Rightarrow> Fails
            | Some (Some d) \<Rightarrow> render_answer (fst d) False (renderMarkdown (doc_opts (se_slug (fst d)) base None) (snd d))
            | Some None \<Rightarrow>
                if prefersFa \<and> take 1 norm = [''fa'']
                then (case read_with_index rd (drop 1 norm) of
                    None \<Rightarrow> Fails
                  | Some None \<Rightarrow> NotFound
                  | Some (Some d) \<Rightarrow>
                      render_answer (fst d) True (renderMarkdown (doc_opts (se_slug (fst d)) base None) (snd d)))
                else NotFound))"

definition docPageAt ::
  "(string \<Rightarrow> string \<Rightarrow> int) \<Rightarrow> fs_node \<Rightarrow> string list \<Rightarrow> string option \<Rightarrow> string list \<Rightarrow> site_entry page_answer" where
  "docPageAt loc fs cwd basePrefix slug = DocPage (readDocMarkdownBySlug loc fs cwd) basePrefix slug"

text \<open>\<open>generateStaticParams\<close> of the two routes.\<close>

definition with_index_parent :: "string list \<Rightarrow> string list list" where
  "with_index_parent slug = slug # (if 2 \<le> length slug \<and> ends_index slug then [butlast slug] else [])"

definition docStaticParams :: "site_entry list \<Rightarrow> string list list" where
  "docStaticParams entries =
     concat (map (\<lambda>e. if se_slug e = [''index''] then [] else with_index_parent (se_slug e)) entries) @
     map (\<lambda>l. [fst l]) legacyRedirects"

definition lang_params_of :: "site_entry \<Rightarrow> (lang \<times> string list) list" where
  "lang_params_of e =
     (if se_slug e = [''index''] then []
      else if take 1 (se_slug e) = [''fa''] then
        (let stripped = drop 1 (se_slug e) in
         if stripped = [''index''] then [] else map (\<lambda>s. (Fa, s)) (with_index_parent stripped))
      else map (\<lambda>s. (En, s)) (with_index_parent (se_slug e)))"

definition langStaticParams :: "site_entry list \<Rightarrow> (lang \<times> string list) list" where
  "langStaticParams entries = concat (map lang_params_of entries)"

definition mappedSlug :: "lang \<Rightarrow> string list \<Rightarrow> string list" where
  "mappedSlug l slug = (if l = Fa \<and> take 1 slug \<noteq> [''fa''] then ''fa'' # slug else slug)"

definition langDocPageAt ::
  "(string \<Rightarrow> string \<Rightarrow> int) \<Rightarrow> fs_node \<Rightarrow> string list \<Rightarrow> lang \<Rightarrow> string list \<Rightarrow> site_entry page_answer" where
  "langDocPageAt loc fs cwd l slug = docPageAt loc fs cwd (Some (''/'' @ lang_dir l)) (mappedSlug l slug)"

section \<open>Navigation\<close>

definition docHref :: "string \<Rightarrow> string list \<Rightarrow> string" where
  "docHref basePrefix slug =
     (let base = basePrefix @ ''/docs'' in
      if slug = [''index''] then base
      else if 2 \<le> length slug \<and> ends_index slug then base @ ''/'' @ join ''/'' (butlast slug)
      else base @ ''/'' @ join ''/'' slug)"

definition nav_index :: "string \<Rightarrow> site_entry list \<Rightarrow> (string, string \<times> string) js_map" where
  "nav_index basePrefix entries =
     fold (\<lambda>e m. map_set (slug_key (se_slug e)) (se_title e, docHref basePrefix (se_slug e)) m) entries []"

definition pick_nav :: "(string, string \<times> string) js_map \<Rightarrow> string list \<Rightarrow> (string \<times> string) option" where
  "pick_nav index slug = map_get index (slug_key slug)"

definition nav_section :: "(string, string \<times> string) js_map \<Rightarrow> string list list \<Rightarrow> (string \<times> string) list" where
  "nav_section index slugs = List.map_filter (pick_nav index) slugs"

text \<open>The word for the Persian language in its own script.\<close>

definition farsi_title :: string where
  "farsi_title = utf8 [217, 129, 216, 167, 216, 177, 216, 179, 219, 140]"

definition docs_sections :: "string \<Rightarrow> site_entry list \<Rightarrow> (string \<times> (string \<times> string) list) list" where
  "docs_sections basePrefix entries =
     (let ix = nav_index basePrefix entries in
      filter (\<lambda>s. snd s \<noteq> [])
        [(''Overview'', nav_section ix [[''index''], [''install''], [''architecture''], [''core-modules''],
            [''bundle-format''], [''signal''], [''threat-model'']]),
         (''User'', nav_section ix [[''user'', ''install-android''], [''user'', ''install-linux''],
            [''user'', ''update''], [''user'', ''safety'']]),
         (''Outside'', nav_section ix [[''outside'', ''verification''], [''outside'', ''trust-model''],
            [''outside'', ''bundle-generation'']]),
         (''Android'', nav_section ix [[''android'', ''setup''], [''android'', ''architecture''],
            [''android'', ''troubleshooting'']]),
         (''Governance'', nav_section ix [[''governance'', ''model''], [''governance'', ''trust''],
            [''governance'', ''resilience'']]),
         (farsi_title, nav_section ix [[''fa'', ''index''], [''fa'', ''install''], [''fa'', ''user'', ''safety''],
            [''fa'', ''outside'', ''verification'']])])"

text \<open>The list of all documents: groups by first segment, both levels sorted.\<close>

definition groupKey :: "string list \<Rightarrow> string" where
  "groupKey slug = (if length slug = 1 then ''Root'' else case slug of [] \<Rightarrow> ''Root'' | s # _ \<Rightarrow> s)"

record doc_item =
  di_href :: string
  di_title :: string
  di_slug :: "string list"

definition all_docs_item :: "string \<Rightarrow> site_entry \<Rightarrow> (string \<times> doc_item) option" where
  "all_docs_item basePrefix e =
     (let isFa = (basePrefix = ''/fa'') in
      if se_slug e = [''index''] then None
      else if isFa \<and> take 1 (se_slug e) \<noteq> [''fa''] then None
      else if \<not> isFa \<and> take 1 (se_slug e) = [''fa''] then None
      else let displaySlug = (if isFa then drop 1 (se_slug e) else se_slug e)
        in Some (groupKey displaySlug,
             \<lparr>di_href = docHref basePrefix displaySlug, di_title = se_title e, di_slug = displaySlug\<rparr>))"

definition add_item :: "string \<times> doc_item \<Rightarrow> (string, doc_item list) js_map \<Rightarrow> (string, doc_item list) js_map" where
  "add_item ki groups =
     map_set (fst ki) ((case map_get groups (fst ki) of None \<Rightarrow> [] | Some xs \<Rightarrow> xs) @ [snd ki]) groups"

definition DocsAll ::
  "(string \<Rightarrow> string \<Rightarrow> int) \<Rightarrow> string \<Rightarrow> site_entry list \<Rightarrow> (string \<times> doc_item list) list" where
  "DocsAll loc basePrefix entries =
     map (\<lambda>g. (fst g, js_sort (\<lambda>a b. loc (di_href a) (di_href b)) (snd g)))
       (js_sort (\<lambda>a b. loc (fst a) (fst b))
         (fold add_item (List.map_filter (all_docs_item basePrefix) entries) []))"

section \<open>Blog and update posts\<close>

text \<open>\<open>app/blog/[...slug]/page.tsx\<close>; the update pages are the same with their own content type.\<close>

definition PostPage ::
  "(lang \<Rightarrow> string list \<Rightarrow> (content_entry \<times> string) option option) \<Rightarrow> string \<Rightarrow> string option \<Rightarrow> string list \<Rightarrow>
     content_entry page_answer" where
  "PostPage rd route basePrefix slug =
     (let base = resolved_base basePrefix; isFa = (base = ''/fa'') in
      case rd (if isFa then Fa else En) slug of
        None \<Rightarrow> Fails
      | Some (Some d) \<Rightarrow>
          render_answer (fst d) False (renderMarkdown (doc_opts (se_slug (fst d)) base (Some route)) (snd d))
      | Some None \<Rightarrow>
          if \<not> isFa then NotFound
          else (case rd En slug of
              None \<Rightarrow> Fails
            | Some None \<Rightarrow> NotFound
            | Some (Some d) \<Rightarrow>
                render_answer (fst d) True (renderMarkdown (doc_opts (se_slug (fst d)) base (Some route)) (snd d))))"

definition updatePageAt ::
  "(string \<Rightarrow> string \<Rightarrow> int) \<Rightarrow> fs_node \<Rightarrow> string list \<Rightarrow> string option \<Rightarrow> string list \<Rightarrow> content_entry page_answer" where
  "updatePageAt loc fs cwd = PostPage (readContentMarkdownBySlug loc fs cwd CUpdates) ''updates''"

definition blogPageAt ::
  "(string \<Rightarrow> string \<Rightarrow> int) \<Rightarrow> fs_node \<Rightarrow> string list \<Rightarrow> string option \<Rightarrow> string list \<Rightarrow> content_entry page_answer" where
  "blogPageAt loc fs cwd = PostPage (readContentMarkdownBySlug loc fs cwd CBlog) ''blog''"

text \<open>The generated addresses of the posts: without a language the English ones, and those of both languages.\<close>

definition postStaticParams :: "content_entry list \<Rightarrow> string list list" where
  "postStaticParams en = map se_slug en"

definition langPostStaticParams :: "content_entry list \<Rightarrow> content_entry list \<Rightarrow> (lang \<times> string list) list" where
  "langPostStaticParams en fa = map (\<lambda>e. (En, se_slug e)) en @ map (\<lambda>e. (Fa, se_slug e)) fa"

section \<open>Lemmas\<close>

lemma doc_read:
  assumes "fs_ok fs" and "getDocsIndex loc fs cwd = Some entries"
  shows "\<exists>r. readDocMarkdownBySlug loc fs cwd slug = Some r \<and>
    (r = None \<longleftrightarrow> (\<forall>e \<in> set entries. slug_key (se_slug e) \<noteq> slug_key slug)) \<and>
    (\<forall>d raw. r = Some (d, raw) \<longrightarrow> d \<in> set entries \<and> fs_read (fs_path fs (se_path d)) = Some raw)"
proof -
  from assms(2) obtain ws where ws: "walk_tree fs (findDocsRoot fs cwd) = Some ws" "set entries = set ws"
    by (auto simp: getDocsIndex_def)
  have g: "getDocBySlug loc fs cwd slug = Some (find_slug slug entries)" by (simp add: getDocBySlug_def assms(2))
  show ?thesis
  proof (cases "find_slug slug entries")
    case None
    with g show ?thesis by (simp add: readDocMarkdownBySlug_def find_slug_None)
  next
    case (Some d)
    then have d: "d \<in> set entries" "slug_key (se_slug d) = slug_key slug" using find_slug_Some by blast+
    with ws walk_tree_read [OF assms(1) ws(1)] obtain raw where "fs_read (fs_path fs (se_path d)) = Some raw" by blast
    with g Some d show ?thesis by (auto simp: readDocMarkdownBySlug_def)
  qed
qed

text \<open>The hypothesis of the two properties below: no document's slug ends in two index segments.\<close>

definition single_index :: "site_entry list \<Rightarrow> bool" where
  "single_index entries \<longleftrightarrow> (\<forall>e \<in> set entries. \<not> (ends_index (se_slug e) \<and> ends_index (butlast (se_slug e))))"

lemma read_param:
  assumes ok: "fs_ok fs" and ix: "getDocsIndex loc fs cwd = Some entries" and "single_index entries"
    and e: "e \<in> set entries" and "slug \<in> set (with_index_parent (se_slug e))"
  shows "\<exists>d raw. read_with_index (readDocMarkdownBySlug loc fs cwd) slug = Some (Some (d, raw)) \<and>
    d \<in> set entries \<and> fs_read (fs_path fs (se_path d)) = Some raw"
proof -
  let ?rd = "readDocMarkdownBySlug loc fs cwd"
  have hit: "\<exists>d raw. ?rd (se_slug e) = Some (Some (d, raw))" using doc_read [OF ok ix, of "se_slug e"] e by auto
  have good: "d \<in> set entries \<and> fs_read (fs_path fs (se_path d)) = Some raw" if "?rd s = Some (Some (d, raw))" for s d raw
    using doc_read [OF ok ix, of s] that by auto
  obtain r where r: "?rd slug = Some r" using doc_read [OF ok ix, of slug] by blast
  show ?thesis
  proof (cases r)
    case (Some p)
    with r good show ?thesis by (cases p) (auto simp: read_with_index_def)
  next
    case None
    with hit r have "slug \<noteq> se_slug e" by auto
    with assms(5) have s: "slug = butlast (se_slug e)" "2 \<le> length (se_slug e)" "ends_index (se_slug e)"
      by (auto simp: with_index_parent_def split: if_splits)
    then have "slug \<noteq> []" "se_slug e = slug @ [''index'']"
      by (cases "se_slug e" rule: rev_cases; auto simp: ends_index_def)+
    moreover have "\<not> ends_index slug" using assms(3) e s by (auto simp: single_index_def)
    ultimately have "tryIndexFallback slug = Some (se_slug e)" by (simp add: tryIndexFallback_def)
    with None r hit good show ?thesis by (auto simp: read_with_index_def)
  qed
qed

lemma renderMarkdown_hangs: "renderMarkdown o1 md = None \<Longrightarrow> \<exists>l \<in> set (split_lines md). stuck_line l"
  using md_loop_terminates [of "md_start (split_lines md)" o1] by (force simp: renderMarkdown_def md_start_def)

text \<open>An answer with content, or one that a stuck line in some document explains.\<close>

definition answered :: "fs_node \<Rightarrow> site_entry list \<Rightarrow> site_entry page_answer \<Rightarrow> bool" where
  "answered fs entries a \<longleftrightarrow> a \<noteq> NotFound \<and> a \<noteq> Fails \<and>
     (a = Hangs \<longrightarrow> (\<exists>d \<in> set entries. \<exists>raw. fs_read (fs_path fs (se_path d)) = Some raw \<and>
        (\<exists>l \<in> set (split_lines raw). stuck_line l)))"

lemma answered_redirect [simp]: "answered fs entries (RedirectTo l)"
  by (simp add: answered_def)

lemma answered_render:
  assumes "d \<in> set entries" and "fs_read (fs_path fs (se_path d)) = Some raw"
  shows "answered fs entries (render_answer d b (renderMarkdown o1 raw))"
proof (cases "renderMarkdown o1 raw")
  case None
  with renderMarkdown_hangs assms show ?thesis by (force simp: answered_def render_answer_def)
next
  case (Some r)
  then show ?thesis by (cases r) (simp add: answered_def render_answer_def)
qed

lemma doc_page_answered:
  assumes "fs_ok fs" and "getDocsIndex loc fs cwd = Some entries" and "single_index entries"
    and "e \<in> set entries" and "slug \<in> set (with_index_parent (se_slug e))"
  shows "answered fs entries (docPageAt loc fs cwd base slug)"
proof (cases "slug = []")
  case True
  then show ?thesis
    by (simp add: docPageAt_def DocPage_def tryLegacyRedirect_def normalizeSlug_def Let_def)
next
  case False
  obtain d raw where "read_with_index (readDocMarkdownBySlug loc fs cwd) slug = Some (Some (d, raw))"
    and d: "d \<in> set entries" "fs_read (fs_path fs (se_path d)) = Some raw"
    using read_param [OF assms] by blast
  with False show ?thesis
    by (simp add: docPageAt_def DocPage_def normalizeSlug_def Let_def answered_render split: option.split)
qed

lemma with_index_parent_hd:
  assumes "s \<in> set (with_index_parent t)" and "s \<noteq> []"
  shows "take 1 s = take 1 t"
  using assms by (cases t) (auto simp: with_index_parent_def split: if_splits)

lemma take2_fa: "take 2 s = [''fa'', ''fa''] \<Longrightarrow> s \<noteq> [] \<and> take 1 s = [''fa'']"
  by (cases s) auto

lemma lang_param_mapped:
  assumes "(l, slug) \<in> set (lang_params_of e)" and "take 2 (se_slug e) \<noteq> [''fa'', ''fa'']"
  shows "mappedSlug l slug \<in> set (with_index_parent (se_slug e)) \<and> take 2 (mappedSlug l slug) \<noteq> [''fa'', ''fa'']"
proof (cases "take 1 (se_slug e) = [''fa'']")
  case False
  with assms(1) have "l = En" "slug \<in> set (with_index_parent (se_slug e))"
    by (auto simp: lang_params_of_def split: if_splits)
  moreover have "take 2 slug \<noteq> [''fa'', ''fa'']"
    using False with_index_parent_hd [OF \<open>slug \<in> _\<close>] take2_fa by metis
  ultimately show ?thesis by (simp add: mappedSlug_def)
next
  case True
  then obtain st where st: "se_slug e = ''fa'' # st" by (cases "se_slug e") auto
  with assms(1) have l: "l = Fa" and s: "slug \<in> set (with_index_parent st)"
    by (auto simp: lang_params_of_def Let_def split: if_splits)
  have st1: "take 1 st \<noteq> [''fa'']" using assms(2) st by (cases st) auto
  have sl1: "take 1 slug \<noteq> [''fa'']"
    using s st1 by (cases st) (auto simp: with_index_parent_def split: if_splits)
  have "''fa'' # slug \<in> set (with_index_parent (''fa'' # st))"
    using s by (auto simp: with_index_parent_def ends_index_def split: if_splits)
  moreover have "take 2 (''fa'' # slug) \<noteq> [''fa'', ''fa'']" using sl1 by (cases slug) auto
  ultimately show ?thesis using l sl1 st by (simp add: mappedSlug_def)
qed

section \<open>Properties\<close>

text \<open>Every generated documentation address works: if the tree can be read, a request for any
  generated slug is answered by a page or a redirect, never by not found or a failure, and hangs
  only if some document contains a stuck line.\<close>

theorem static_docs_resolve:
  assumes "fs_ok fs" and "getDocsIndex loc fs cwd = Some entries" and "single_index entries"
    and "slug \<in> set (docStaticParams entries)"
  shows "answered fs entries (docPageAt loc fs cwd None slug)"
proof (cases "\<exists>l \<in> set legacyRedirects. slug = [fst l]")
  case True
  then obtain l where l: "l \<in> set legacyRedirects" "slug = [fst l]" by blast
  then have "fst l \<in> fst ` set legacyRedirects" by blast
  then have "map_of legacyRedirects (fst l) \<noteq> None" by (simp add: map_of_eq_None_iff)
  with l(2) have "tryLegacyRedirect slug \<noteq> None" by (simp add: tryLegacyRedirect_def)
  then show ?thesis by (auto simp: docPageAt_def DocPage_def Let_def split: option.split)
next
  case False
  with assms(4) obtain e where "e \<in> set entries" "slug \<in> set (with_index_parent (se_slug e))"
    by (auto simp: docStaticParams_def split: if_splits)
  then show ?thesis by (rule doc_page_answered [OF assms(1-3)])
qed

definition sample_site :: fs_node where
  "sample_site = Dir [(''docs'', Dir [(''index.md'', File (Some ''# Docs'') 6 0),
     (''user'', Dir [(''index.md'', File (Some ''# User'') 6 0)])])]"

lemma sample_site_index:
  "\<exists>entries. getDocsIndex (\<lambda>_ _. 0) sample_site [] = Some entries \<and> single_index entries \<and>
     [''user''] \<in> set (docStaticParams entries) \<and> (En, [''user'']) \<in> set (langStaticParams entries) \<and>
     (\<forall>e \<in> set entries. take 2 (se_slug e) \<noteq> [''fa'', ''fa''])"
proof -
  let ?ix = "getDocsIndex (\<lambda>_ _. 0) sample_site []"
  have s: "map_option (map se_slug) ?ix = Some [[''index''], [''user'', ''index'']]" by code_simp
  then obtain entries where e: "?ix = Some entries" "map se_slug entries = [[''index''], [''user'', ''index'']]" by auto
  then obtain a b where ab: "entries = [a, b]" "se_slug a = [''index'']" "se_slug b = [''user'', ''index'']" by auto
  with e(1) show ?thesis
    by (simp add: single_index_def ends_index_def docStaticParams_def langStaticParams_def lang_params_of_def
        with_index_parent_def)
qed

theorem static_docs_resolve_witness:
  "\<exists>entries. getDocsIndex (\<lambda>_ _. 0) sample_site [] = Some entries \<and>
     answered sample_site entries (docPageAt (\<lambda>_ _. 0) sample_site [] None [''user''])"
proof -
  have "fs_ok sample_site" by code_simp
  with sample_site_index static_docs_resolve show ?thesis by blast
qed



text \<open>A relative link in a Persian document keeps the segment: it leads to an address that is answered,
  but that is not among the generated ones.\<close>

lemma fa_links_not_generated:
  assumes "\<forall>e \<in> set entries. take 2 (se_slug e) \<noteq> [''fa'', ''fa'']"
  shows "resolveHref (doc_opts [''fa'', ''install''] ''/fa'' None) ''user/safety.md'' = ''/fa/docs/fa/user/safety''"
    and "(Fa, [''fa'', ''user'', ''safety'']) \<notin> set (langStaticParams entries)"
proof -
  show "resolveHref (doc_opts [''fa'', ''install''] ''/fa'' None) ''user/safety.md'' = ''/fa/docs/fa/user/safety''"
    by code_simp
  show "(Fa, [''fa'', ''user'', ''safety'']) \<notin> set (langStaticParams entries)"
  proof
    assume "(Fa, [''fa'', ''user'', ''safety'']) \<in> set (langStaticParams entries)"
    then obtain e where "e \<in> set entries" "(Fa, [''fa'', ''user'', ''safety'']) \<in> set (lang_params_of e)"
      by (auto simp: langStaticParams_def)
    then have "take 1 (se_slug e) = [''fa'']"
      and p: "[''fa'', ''user'', ''safety''] \<in> set (with_index_parent (drop 1 (se_slug e)))"
      by (auto simp: lang_params_of_def Let_def split: if_splits)
    moreover have "take 1 (drop 1 (se_slug e)) = [''fa'']" using with_index_parent_hd [OF p] by simp
    ultimately have "take 2 (se_slug e) = [''fa'', ''fa'']"
      by (metis append_Cons append_Nil one_add_one take_add)
    with assms \<open>e \<in> set entries\<close> show False by blast
  qed
qed

end
