(* ===== verification/Site_Locale.thy ===== *)
theory Site_Locale
  imports Js_Prelude
begin

text \<open>
  Language and theme: the language of a path (\<open>lib/uiCopy.ts\<close>), links that stay in it
  (\<open>components/LocalizedLink.tsx\<close>), what the header computes from the path
  (\<open>components/SiteHeader.tsx\<close>), class names (\<open>lib/cx.ts\<close>) and the theme switch
  (\<open>components/ThemeToggle.tsx\<close>, \<open>ThemeInitScript.tsx\<close>). \<open>None\<close> is the null path
  name.
\<close>

section \<open>Language\<close>

datatype ui_lang = LangEn | LangFa

definition resolveUILang :: "string option \<Rightarrow> ui_lang" where
  "resolveUILang lang = (if lang = Some ''fa'' then LangFa else LangEn)"

text \<open>\<open>p === "/xx" || p.startsWith("/xx/")\<close>.\<close>

definition under :: "string \<Rightarrow> string \<Rightarrow> bool" where
  "under pre p \<longleftrightarrow> p = pre \<or> starts_with (pre @ ''/'') p"

definition getUILangFromPathname :: "string option \<Rightarrow> ui_lang" where
  "getUILangFromPathname pathname =
     (case pathname of
        None \<Rightarrow> LangEn
      | Some p \<Rightarrow> if p = [] then LangEn else if under ''/fa'' p then LangFa else LangEn)"

definition getLangPrefix :: "string option \<Rightarrow> string" where
  "getLangPrefix pathname =
     (case pathname of
        None \<Rightarrow> []
      | Some p \<Rightarrow> if p = [] then [] else if under ''/fa'' p then ''/fa'' else if under ''/en'' p then ''/en'' else [])"

definition localizedHref :: "string option \<Rightarrow> string \<Rightarrow> string" where
  "localizedHref pathname href =
     (let pre = getLangPrefix pathname in
      if \<not> starts_with ''/'' href then href
      else if pre = [] then href
      else if href = ''/'' then pre
      else if under pre href then href
      else pre @ href)"

section \<open>Header\<close>

definition nav_hrefs :: "string list" where
  "nav_hrefs = [''/'', ''/manifest'', ''/technology'', ''/security'', ''/docs'', ''/blog'', ''/updates'', ''/download'',
     ''/architecture'', ''/dashboard'', ''/roadmap'', ''/community'', ''/support'']"

text \<open>\<open>/^\/(fa|en)(\/|$)/\<close> on the path.\<close>

definition header_basePrefix :: "string option \<Rightarrow> string" where
  "header_basePrefix pathname =
     (case pathname of
        None \<Rightarrow> []
      | Some p \<Rightarrow> if p = [] then [] else if under ''/fa'' p then ''/fa'' else if under ''/en'' p then ''/en'' else [])"

definition normalizedPath :: "string option \<Rightarrow> string" where
  "normalizedPath pathname =
     (case pathname of
        None \<Rightarrow> ''/''
      | Some p \<Rightarrow>
          if p = [] then ''/''
          else let base = header_basePrefix (Some p) in
            if base = [] then p
            else let rest = drop (length base) p in if rest = [] then ''/'' else rest)"

definition activeHref :: "string option \<Rightarrow> string" where
  "activeHref pathname =
     (let p = normalizedPath pathname in
      if p = [] \<or> p = ''/'' then ''/''
      else case find (\<lambda>h. under h p) (filter (\<lambda>h. h \<noteq> ''/'') nav_hrefs) of
        None \<Rightarrow> ''/'' | Some h \<Rightarrow> h)"

definition homeHref :: "string option \<Rightarrow> string" where
  "homeHref pathname = (let b = header_basePrefix pathname in if b = [] then ''/'' else b)"

definition header_hrefFor :: "string option \<Rightarrow> string \<Rightarrow> string" where
  "header_hrefFor pathname href =
     (let b = header_basePrefix pathname in
      if b \<noteq> [] then b @ (if href = ''/'' then [] else href) else href)"

definition lang_code :: "ui_lang \<Rightarrow> string" where
  "lang_code l = (case l of LangEn \<Rightarrow> ''en'' | LangFa \<Rightarrow> ''fa'')"

definition otherLang :: "string option \<Rightarrow> ui_lang" where
  "otherLang pathname = (if getUILangFromPathname pathname = LangFa then LangEn else LangFa)"

definition otherLangHref :: "string option \<Rightarrow> string" where
  "otherLangHref pathname =
     ''/'' @ lang_code (otherLang pathname) @ (if normalizedPath pathname = ''/'' then [] else normalizedPath pathname)"

section \<open>Class names and theme\<close>

definition cx :: "string option list \<Rightarrow> string" where
  "cx values = join '' '' (filter (\<lambda>s. s \<noteq> []) (List.map_filter (\<lambda>v. v) values))"

datatype theme = Light | Dark

text \<open>The document's two classes and the store, which may refuse writes.\<close>

record page_theme =
  pt_dark :: bool
  pt_light :: bool
  pt_stored :: "string option"
  pt_writable :: bool

definition theme_name :: "theme \<Rightarrow> string" where
  "theme_name th = (case th of Light \<Rightarrow> ''light'' | Dark \<Rightarrow> ''dark'')"

definition init_theme :: "bool \<Rightarrow> page_theme \<Rightarrow> page_theme" where
  "init_theme prefersDark p =
     (let dark = (case pt_stored p of
                    Some s \<Rightarrow> if s = ''light'' \<or> s = ''dark'' then s = ''dark'' else prefersDark
                  | None \<Rightarrow> prefersDark)
      in p\<lparr>pt_dark := dark, pt_light := \<not> dark\<rparr>)"

definition getCurrentTheme :: "page_theme \<Rightarrow> theme" where
  "getCurrentTheme p = (if pt_dark p then Dark else Light)"

definition setTheme :: "theme \<Rightarrow> page_theme \<Rightarrow> page_theme" where
  "setTheme th p =
     p\<lparr>pt_dark := (th = Dark), pt_light := (th = Light),
       pt_stored := (if pt_writable p then Some (theme_name th) else pt_stored p)\<rparr>"

definition nextTheme :: "theme \<Rightarrow> theme" where
  "nextTheme th = (if th = Dark then Light else Dark)"

definition toggle_click :: "theme \<times> page_theme \<Rightarrow> theme \<times> page_theme" where
  "toggle_click s = (nextTheme (fst s), setTheme (nextTheme (fst s)) (snd s))"

text \<open>A visit: the script in the head, the mount of the switch, then clicks.\<close>

definition theme_visit :: "bool \<Rightarrow> page_theme \<Rightarrow> nat \<Rightarrow> theme \<times> page_theme" where
  "theme_visit prefersDark p n =
     (let p1 = init_theme prefersDark p in (toggle_click ^^ n) (getCurrentTheme p1, p1))"

section \<open>Lemmas\<close>

lemma under_cases: "under pre p \<longleftrightarrow> p = pre \<or> (\<exists>r. p = pre @ ''/'' @ r)"
  by (auto simp: under_def starts_with_iff)

lemma under_append: "r = [] \<or> starts_with ''/'' r \<Longrightarrow> under pre (pre @ r)"
  by (auto simp: under_cases starts_with_iff)

lemma not_under_both: "under ''/en'' p \<Longrightarrow> \<not> under ''/fa'' p"
  by (auto simp: under_cases)

lemma normalizedPath_slash: "starts_with ''/'' p \<Longrightarrow> starts_with ''/'' (normalizedPath (Some p))"
  by (auto simp: normalizedPath_def header_basePrefix_def Let_def under_cases starts_with_iff)

lemma prefixed_path:
  assumes "r = [] \<or> starts_with ''/'' r" and "pre \<in> {''/fa'', ''/en''}"
  shows "header_basePrefix (Some (pre @ r)) = pre"
    and "getUILangFromPathname (Some (pre @ r)) = (if pre = ''/fa'' then LangFa else LangEn)"
    and "normalizedPath (Some (pre @ r)) = (if r = [] then ''/'' else r)"
    and "getLangPrefix (Some (pre @ r)) = pre"
proof -
  have u: "under pre (pre @ r)" using assms(1) by (rule under_append)
  have b: "header_basePrefix (Some (pre @ r)) = pre" and
    g: "getUILangFromPathname (Some (pre @ r)) = (if pre = ''/fa'' then LangFa else LangEn)"
    and l: "getLangPrefix (Some (pre @ r)) = pre"
    using assms(2) u not_under_both
    by (auto simp: header_basePrefix_def getUILangFromPathname_def getLangPrefix_def)
  show "normalizedPath (Some (pre @ r)) = (if r = [] then ''/'' else r)"
    using assms(2) b by (cases "r = []") (auto simp: normalizedPath_def Let_def)
  show "header_basePrefix (Some (pre @ r)) = pre"
    "getUILangFromPathname (Some (pre @ r)) = (if pre = ''/fa'' then LangFa else LangEn)"
    "getLangPrefix (Some (pre @ r)) = pre"
    by (fact b g l)+
qed

section \<open>Properties\<close>



text \<open>A localised link never leaves the language: on a page of a language every link to a path of
  the site leads to that language, and localising it once more changes nothing.\<close>

theorem localized_link_stays:
  assumes "getLangPrefix pathname \<noteq> []" and "starts_with ''/'' href"
  shows "getLangPrefix (Some (localizedHref pathname href)) = getLangPrefix pathname \<and>
    localizedHref pathname (localizedHref pathname href) = localizedHref pathname href"
proof -
  let ?q = "getLangPrefix pathname"
  have q: "?q \<in> {''/fa'', ''/en''}" using assms(1) by (auto simp: getLangPrefix_def split: option.splits if_splits)
  obtain r where r: "localizedHref pathname href = ?q @ r" "r = [] \<or> starts_with ''/'' r"
  proof (cases "href = ''/''")
    case True
    with assms that [of "[]"] show ?thesis by (simp add: localizedHref_def Let_def)
  next
    case False
    show ?thesis
    proof (cases "under ?q href")
      case True
      then obtain s where "href = ?q @ s" "s = [] \<or> starts_with ''/'' s"
        by (auto simp: under_cases starts_with_iff)
      with assms False True that show ?thesis by (simp add: localizedHref_def Let_def)
    next
      case n: False
      with assms False that [of href] show ?thesis by (simp add: localizedHref_def Let_def)
    qed
  qed
  from r(2) have "under ?q (?q @ r)" by (rule under_append)
  moreover have "starts_with ''/'' (?q @ r)" "?q @ r \<noteq> ''/''" using q by auto
  ultimately have "localizedHref pathname (?q @ r) = ?q @ r"
    using assms(1) by (simp add: localizedHref_def Let_def)
  with prefixed_path(4) [OF r(2) q] r(1) show ?thesis by simp
qed

theorem localized_link_stays_witness: "getLangPrefix (Some (localizedHref (Some ''/fa/docs'') ''/download'')) = ''/fa''"
proof -
  have "getLangPrefix (Some ''/fa/docs'') = ''/fa''" "starts_with ''/'' ''/download''" by code_simp+
  with localized_link_stays [of "Some ''/fa/docs''" "''/download''"] show ?thesis by simp
qed

text \<open>The theme is consistent: after any number of clicks exactly one of the two classes is set,
  it is the one of the theme the switch shows, and once the switch was used on a page that can
  store, the next visit starts in that theme, whatever the system prefers.\<close>

theorem theme_consistent:
  fixes prefersDark p n
  defines "s \<equiv> theme_visit prefersDark p n"
  shows "(pt_dark (snd s) \<longleftrightarrow> fst s = Dark) \<and> (pt_light (snd s) \<longleftrightarrow> fst s = Light) \<and>
    (pt_writable p \<and> 0 < n \<longrightarrow> getCurrentTheme (init_theme other (snd s)) = fst s)"
proof -
  let ?p1 = "init_theme prefersDark p"
  let ?r = "(toggle_click ^^ n) (getCurrentTheme ?p1, ?p1)"
  have "(pt_dark (snd ?r) \<longleftrightarrow> fst ?r = Dark) \<and> (pt_light (snd ?r) \<longleftrightarrow> fst ?r = Light) \<and>
    pt_writable (snd ?r) = pt_writable p \<and> (pt_writable p \<and> 0 < n \<longrightarrow> pt_stored (snd ?r) = Some (theme_name (fst ?r)))"
  proof (induction n)
    case 0
    show ?case by (simp add: init_theme_def getCurrentTheme_def Let_def)
  next
    case (Suc n)
    then show ?case by (simp add: toggle_click_def setTheme_def)
  qed
  then show ?thesis
    by (cases "fst ?r") (auto simp: s_def theme_visit_def Let_def init_theme_def getCurrentTheme_def theme_name_def)
qed

theorem theme_consistent_witness:
  "getCurrentTheme (init_theme True (snd (theme_visit True
     \<lparr>pt_dark = False, pt_light = False, pt_stored = None, pt_writable = True\<rparr> 1))) = Light"
proof -
  let ?p = "\<lparr>pt_dark = False, pt_light = False, pt_stored = None, pt_writable = True\<rparr>"
  have "fst (theme_visit True ?p 1) = Light" by code_simp
  with theme_consistent [of True ?p 1 True] show ?thesis by simp
qed

end
