(* ===== verification/Calendar.thy ===== *)
theory Calendar
  imports Js_Prelude
begin

text \<open>
  Dates as \<open>Date.prototype.toISOString\<close> prints them, and \<open>formatDate\<close> of
  \<open>components/DownloadSection.tsx\<close>, which keeps the first ten characters. Days are counted
  from 1970-01-01; the calendar is the Gregorian one, also before it was in use. A time value outside
  the range of \<open>Date\<close> throws.
\<close>

section \<open>Years and months\<close>

text \<open>The number of the first day of a year, as in the language's standard.\<close>

definition day_from_year :: "int \<Rightarrow> int" where
  "day_from_year y = 365 * (y - 1970) + (y - 1969) div 4 - (y - 1901) div 100 + (y - 1601) div 400"

definition leap_year :: "int \<Rightarrow> bool" where
  "leap_year y \<longleftrightarrow> 4 dvd y \<and> (\<not> 100 dvd y \<or> 400 dvd y)"

lemma div_next:
  fixes x n :: int
  assumes "0 < n"
  shows "(x + 1) div n = x div n + (if n dvd x + 1 then 1 else 0)"
proof -
  obtain q r where x: "x = n * q + r" "0 \<le> r" "r < n"
    using assms by (metis mult_div_mod_eq pos_mod_bound pos_mod_sign)
  then have d: "x div n = q" by (intro int_div_pos_eq) auto
  show ?thesis
  proof (cases "r + 1 = n")
    case True
    then have e: "x + 1 = n * (q + 1)" using x(1) by (simp add: distrib_left)
    then show ?thesis unfolding e d using assms by simp
  next
    case False
    have e: "x + 1 = n * q + (r + 1)" using x by simp
    have r: "0 \<le> r + 1" "r + 1 < n" using x False by linarith+
    have "(x + 1) div n = q" by (rule int_div_pos_eq [OF e r])
    moreover have "(x + 1) mod n = r + 1" by (rule int_mod_pos_eq [OF e r])
    ultimately show ?thesis using x(2) d by (simp add: dvd_eq_mod_eq_0)
  qed
qed

lemma day_from_year_Suc: "day_from_year (y + 1) = day_from_year y + (if leap_year y then 366 else 365)"
proof -
  have a: "4 dvd y - 1968 \<longleftrightarrow> 4 dvd y" "100 dvd y - 1900 \<longleftrightarrow> 100 dvd y" "400 dvd y - 1600 \<longleftrightarrow> 400 dvd y"
    by (rule dvd_diff_left_iff; simp)+
  have b: "100 dvd y \<longrightarrow> 4 dvd y" "400 dvd y \<longrightarrow> 100 dvd y"
    using dvd_trans [of 4 100 y] dvd_trans [of 100 400 y] by simp_all
  have n: "y + 1 - 1969 = y - 1968" "y + 1 - 1901 = y - 1900" "y + 1 - 1601 = y - 1600" by simp_all
  have d4: "(y - 1968) div 4 = (y - 1969) div 4 + (if 4 dvd y then 1 else 0)"
    using div_next [of 4 "y - 1969"] a(1) by simp
  have d100: "(y - 1900) div 100 = (y - 1901) div 100 + (if 100 dvd y then 1 else 0)"
    using div_next [of 100 "y - 1901"] a(2) by simp
  have d400: "(y - 1600) div 400 = (y - 1601) div 400 + (if 400 dvd y then 1 else 0)"
    using div_next [of 400 "y - 1601"] a(3) by simp
  have sum: "365 * (y + 1 - 1970) + (p + a) - (q + b) + (r + c) = 365 * (y - 1970) + p - q + r + 365 + a - b + c"
    for p q r a b c :: int by simp
  have "day_from_year (y + 1) = day_from_year y + 365 + (if 4 dvd y then 1 else 0) - (if 100 dvd y then 1 else 0) +
      (if 400 dvd y then 1 else 0)"
    unfolding day_from_year_def n d4 d100 d400 by (rule sum)
  note years = this
  have step: "k + 365 + (if P then 1 else 0) - (if Q then 1 else 0) + (if R then 1 else 0) =
      k + (if P \<and> (\<not> Q \<or> R) then 366 else 365)" if "Q \<longrightarrow> P" "R \<longrightarrow> Q" for k :: int and P Q R
    using that by (cases P; cases Q; cases R) simp_all
  show ?thesis unfolding leap_year_def by (rule trans [OF years step [OF b]])
qed

text \<open>The year of a day: from a guess, down while the year starts later, up while the next one has started.\<close>

function year_of :: "int \<Rightarrow> int \<Rightarrow> int" where
  "year_of d y =
     (if d < day_from_year y then year_of d (y - 1)
      else if day_from_year (y + 1) \<le> d then year_of d (y + 1)
      else y)"
  by pat_completeness auto
termination
proof (relation "measures [\<lambda>(d, y). if d < day_from_year y then 1 else 0, \<lambda>(d, y). nat \<bar>d - day_from_year y\<bar>]",
    goal_cases)
  case 1
  show ?case by (rule wf_measures)
next
  case (2 d y)
  have "day_from_year (y - 1) < day_from_year y" using day_from_year_Suc [of "y - 1"] by (simp split: if_splits)
  with 2 show ?case by simp
next
  case (3 d y)
  have "day_from_year y < day_from_year (y + 1)" using day_from_year_Suc [of y] by (simp split: if_splits)
  with 3 show ?case by simp
qed

declare year_of.simps [simp del]

definition month_lengths :: "int \<Rightarrow> int list" where
  "month_lengths y = [31, if leap_year y then 29 else 28, 31, 30, 31, 30, 31, 31, 30, 31, 30, 31]"

text \<open>The month, counted from \<open>m\<close>, that contains day \<open>k\<close> of the months of these lengths.\<close>

fun month_of :: "nat \<Rightarrow> int \<Rightarrow> int list \<Rightarrow> nat \<times> int" where
  "month_of m k [] = (m, k)"
| "month_of m k (l # ls) = (if k < l then (m, k) else month_of (m + 1) (k - l) ls)"

definition civil_date :: "int \<Rightarrow> int \<times> nat \<times> nat" where
  "civil_date d =
     (let y = year_of d 1970; (m, k) = month_of 1 (d - day_from_year y) (month_lengths y) in (y, m, nat k + 1))"

section \<open>The text\<close>

definition year_text :: "int \<Rightarrow> string" where
  "year_text y =
     (if 0 \<le> y \<and> y \<le> 9999 then pad_frac 4 (nat y)
      else (if y < 0 then ''-'' else ''+'') @ pad_frac 6 (nat \<bar>y\<bar>))"

definition iso_date :: "int \<Rightarrow> string" where
  "iso_date d =
     (let (y, m, k) = civil_date d in year_text y @ ''-'' @ pad_frac 2 m @ ''-'' @ pad_frac 2 k)"

definition formatDate :: "int option \<Rightarrow> string option" where
  "formatDate unix =
     (case unix of
        None \<Rightarrow> None
      | Some u \<Rightarrow>
          if u = 0 then None
          else if 8640000000000000 < \<bar>u * 1000\<bar> then None
          else Some (take 10 (iso_date (u div 86400))))"

section \<open>Lemmas\<close>

lemma day_from_year_mono: "y \<le> z \<Longrightarrow> day_from_year y \<le> day_from_year z"
proof (induction z rule: int_ge_induct)
  case (step i)
  then show ?case using day_from_year_Suc [of i] by (simp split: if_splits)
qed simp

lemma year_of_spec: "day_from_year (year_of d y) \<le> d \<and> d < day_from_year (year_of d y + 1)"
proof (induction d y rule: year_of.induct)
  case (1 d y)
  show ?case
  proof (cases "d < day_from_year y")
    case True
    with "1.IH"(1) show ?thesis by (simp add: year_of.simps [of d y])
  next
    case False
    with "1.IH"(2) show ?thesis by (simp add: year_of.simps [of d y])
  qed
qed

lemma month_of_spec:
  "0 \<le> k \<Longrightarrow> k < sum_list ls \<Longrightarrow> (\<forall>l \<in> set ls. 0 < l) \<Longrightarrow>
     \<exists>j < length ls. \<exists>r. month_of m k ls = (m + j, r) \<and> 0 \<le> r \<and> r < ls ! j \<and> k = sum_list (take j ls) + r"
proof (induction ls arbitrary: m k)
  case Nil
  then show ?case by simp
next
  case (Cons l ls)
  show ?case
  proof (cases "k < l")
    case True
    with Cons.prems show ?thesis by (intro exI [of _ 0]) simp
  next
    case False
    with Cons.prems Cons.IH [of "k - l" "m + 1"] obtain j r where
      "j < length ls" "month_of (m + 1) (k - l) ls = (m + 1 + j, r)" "0 \<le> r" "r < ls ! j"
      "k - l = sum_list (take j ls) + r" by auto
    with False show ?thesis by (intro exI [of _ "Suc j"]) simp
  qed
qed

lemma sum_month_lengths: "sum_list (month_lengths y) = (if leap_year y then 366 else 365)"
  by (simp add: month_lengths_def)

lemma civil_date_spec:
  "\<exists>y m k. civil_date d = (y, m, k) \<and> 1 \<le> m \<and> m \<le> 12 \<and> 1 \<le> k \<and> int k \<le> month_lengths y ! (m - 1) \<and>
     d = day_from_year y + sum_list (take (m - 1) (month_lengths y)) + (int k - 1) \<and>
     day_from_year y \<le> d \<and> d < day_from_year (y + 1)"
proof -
  let ?y = "year_of d 1970"
  have y: "day_from_year ?y \<le> d" "d < day_from_year (?y + 1)" using year_of_spec by blast+
  then have "d - day_from_year ?y < sum_list (month_lengths ?y)"
    using day_from_year_Suc [of ?y] by (simp add: sum_month_lengths split: if_splits)
  moreover have "\<forall>l \<in> set (month_lengths ?y). 0 < l" "length (month_lengths ?y) = 12" by (simp_all add: month_lengths_def)
  ultimately obtain j r where j: "j < 12" "month_of 1 (d - day_from_year ?y) (month_lengths ?y) = (1 + j, r)"
    "0 \<le> r" "r < month_lengths ?y ! j" "d - day_from_year ?y = sum_list (take j (month_lengths ?y)) + r"
    using month_of_spec [of "d - day_from_year ?y" "month_lengths ?y" 1] y(1) by auto
  then have "civil_date d = (?y, 1 + j, nat r + 1)" by (simp add: civil_date_def)
  with j y show ?thesis by (intro exI [of _ ?y] exI [of _ "1 + j"] exI [of _ "nat r + 1"]) simp
qed

lemma length_show_nat: "n < 10 ^ Suc w \<Longrightarrow> length (show_nat n) \<le> Suc w"
proof (induction w arbitrary: n)
  case 0
  then show ?case by (simp add: show_nat.simps)
next
  case (Suc w)
  then have "n div 10 < 10 ^ Suc w" by (simp add: less_mult_imp_div_less mult.commute)
  with Suc.IH [of "n div 10"] show ?case by (simp add: show_nat.simps [of n])
qed

lemma length_pad_frac: "n < 10 ^ w \<Longrightarrow> 0 < w \<Longrightarrow> length (pad_frac w n) = w"
  using length_show_nat [of n "w - 1"] by (simp add: pad_frac_def Let_def)

section \<open>Properties\<close>

text \<open>C39: a release's date is the right one: for a time from the year 0 to the year 9999 other than the
  epoch itself, the text is a year of four, a month of two and a day of two digits, the month and the
  day exist in that year, and together they are the day of the time.\<close>

theorem formatDate_correct:
  assumes "u \<noteq> 0" and "day_from_year 0 \<le> u div 86400" and "u div 86400 < day_from_year 10000"
  shows "\<exists>y m k. formatDate (Some u) = Some (pad_frac 4 (nat y) @ ''-'' @ pad_frac 2 m @ ''-'' @ pad_frac 2 k) \<and>
    0 \<le> y \<and> y \<le> 9999 \<and> 1 \<le> m \<and> m \<le> 12 \<and> 1 \<le> k \<and> int k \<le> month_lengths y ! (m - 1) \<and>
    u div 86400 = day_from_year y + sum_list (take (m - 1) (month_lengths y)) + (int k - 1)"
proof -
  let ?d = "u div 86400"
  obtain y m k where c: "civil_date ?d = (y, m, k)" "1 \<le> m" "m \<le> 12" "1 \<le> k" "int k \<le> month_lengths y ! (m - 1)"
    "?d = day_from_year y + sum_list (take (m - 1) (month_lengths y)) + (int k - 1)"
    "day_from_year y \<le> ?d" "?d < day_from_year (y + 1)"
    using civil_date_spec [of ?d] by blast
  have y: "0 \<le> y" "y \<le> 9999"
    using day_from_year_mono [of "y + 1" 0] day_from_year_mono [of 10000 y] assms(2,3) c(7,8) by linarith+
  have range: "\<not> 8640000000000000 < \<bar>u * 1000\<bar>"
    using assms(2,3) by (simp add: day_from_year_def)
  have "month_lengths y ! (m - 1) \<le> 31"
    using c(2,3) by (simp add: month_lengths_def nth_Cons' split: if_splits)
  then have "k < 100" using c(5) by simp
  then have "length (pad_frac 4 (nat y)) = 4" "length (pad_frac 2 m) = 2" "length (pad_frac 2 k) = 2"
    using y c(3) by (simp_all add: length_pad_frac)
  then have "formatDate (Some u) = Some (pad_frac 4 (nat y) @ ''-'' @ pad_frac 2 m @ ''-'' @ pad_frac 2 k)"
    using assms(1) range y by (simp add: formatDate_def iso_date_def c(1) year_text_def)
  with c y show ?thesis by blast
qed

theorem formatDate_correct_witness:
  "\<exists>y m k. formatDate (Some 951782400) = Some (pad_frac 4 (nat y) @ ''-'' @ pad_frac 2 m @ ''-'' @ pad_frac 2 k) \<and>
     11016 = day_from_year y + sum_list (take (m - 1) (month_lengths y)) + (int k - 1)"
proof -
  have "(951782400 :: int) \<noteq> 0" "day_from_year 0 \<le> 951782400 div 86400" "951782400 div 86400 < day_from_year 10000"
    by (simp_all add: day_from_year_def)
  from formatDate_correct [OF this] show ?thesis by auto
qed

text \<open>The epoch itself counts as no time, and a time out of range prints nothing.\<close>

lemma formatDate_missing: "formatDate (Some 0) = None" "formatDate (Some 8640000000001) = None"
  by (simp_all add: formatDate_def)

lemma formatDate_leap_day: "formatDate (Some 951782400) = Some ''2000-02-29''"
  by code_simp

end
