(* ===== verification/Ui_Parts.thy ===== *)
theory Ui_Parts
  imports Elements Site_Locale
begin

text \<open>
  The building blocks of the pages (\<open>components/ui\<close>) and the two copy buttons
  (\<open>CommandBlock\<close> in \<open>components/DownloadSection.tsx\<close>,
  \<open>components/DonationQRCard.tsx\<close>), which show for a while that a text was copied. A
  property of a component that may be missing is an empty list: \<open>{x ? ... : null}\<close> tests it
  for being filled. The texts of the site are parameters (\<open>site_copy\<close>): the two JSON
  dictionaries by language and key, and for a text written in both languages in the code the Persian
  one that stands beside the English one, by the component and the English text.
\<close>

section \<open>Texts\<close>

record site_copy =
  cp_ui :: "ui_lang \<Rightarrow> string \<Rightarrow> string"
  cp_site :: "ui_lang \<Rightarrow> string \<Rightarrow> string"
  cp_list :: "ui_lang \<Rightarrow> string \<Rightarrow> string list"
  cp_fa :: "string \<Rightarrow> string \<Rightarrow> string"

text \<open>\<open>lang === "fa" ? "..." : "..."\<close>.\<close>

definition tx :: "site_copy \<Rightarrow> string \<Rightarrow> ui_lang \<Rightarrow> string \<Rightarrow> string" where
  "tx cp place lang s = (if lang = LangFa then cp_fa cp place s else s)"

section \<open>Building blocks\<close>

datatype tone = ToneDefault | ToneInfo | ToneWarning | ToneDanger | ToneSuccess

definition callout_tone :: "tone \<Rightarrow> string" where
  "callout_tone t =
     (case t of
        ToneInfo \<Rightarrow> ''border-info/30 bg-info/10''
      | ToneWarning \<Rightarrow> ''border-warning/30 bg-warning/10''
      | ToneDanger \<Rightarrow> ''border-danger/30 bg-danger/10''
      | ToneSuccess \<Rightarrow> ''border-success/30 bg-success/10''
      | ToneDefault \<Rightarrow> ''border-border bg-panel/60'')"

definition Callout :: "string \<Rightarrow> tone \<Rightarrow> node list \<Rightarrow> node" where
  "Callout title t children =
     Elem ''div'' [(''class'', cx [Some ''rounded-xl border p-4'', Some (callout_tone t)])]
       (when_filled dv (text_of title) @
        [Elem ''div'' [(''class'', cx [Some ''text-sm leading-relaxed text-muted-foreground'',
             if title \<noteq> [] then Some ''mt-2'' else None])] children])"

definition SectionHeader :: "string \<Rightarrow> node list \<Rightarrow> node list \<Rightarrow> node" where
  "SectionHeader title subtitle actions =
     dv (dv (Elem ''h2'' [] [Text title] # when_filled dv subtitle) # when_filled dv actions)"

definition PageHeader :: "node list \<Rightarrow> string \<Rightarrow> node list \<Rightarrow> node list \<Rightarrow> node" where
  "PageHeader eyebrow title subtitle actions =
     dv (dv (when_filled dv eyebrow @ Elem ''h1'' [] [Text title] # when_filled dv subtitle) # when_filled dv actions)"

definition CodeBlockShell :: "string \<Rightarrow> string \<Rightarrow> bool \<Rightarrow> node" where
  "CodeBlockShell code language small =
     dv (when_filled (\<lambda>cs. dv [sp cs]) (text_of language) @
       [Elem ''pre'' [(''class'', cx [Some ''overflow-auto'', Some (if small then ''p-3'' else ''p-4'')])]
          [Elem ''code'' [] [Text code]]])"

record toc_link =
  tl_id :: string
  tl_text :: string
  tl_level :: nat

definition toc_entry :: "toc_link \<Rightarrow> node" where
  "toc_entry i =
     Elem ''a'' [(''href'', CHR ''#'' # tl_id i),
        (''class'', cx [Some ''text-sm text-muted-foreground hover:text-foreground transition-colors leading-snug'',
           if 3 \<le> tl_level i then Some ''pl-4'' else None])] [Text (tl_text i)]"

definition DocToc :: "toc_link list \<Rightarrow> string option \<Rightarrow> node list" where
  "DocToc items title =
     (if items = [] then []
      else [dv [dv (text_of (case title of None \<Rightarrow> ''On this page'' | Some t \<Rightarrow> t)), Elem ''nav'' [] (map toc_entry items)]])"

definition EmptyState :: "string \<Rightarrow> node list \<Rightarrow> node list \<Rightarrow> node" where
  "EmptyState title description action =
     dv (dv [Text title] # when_filled dv description @ when_filled dv action)"

definition info_surface :: "bool \<Rightarrow> string \<Rightarrow> string" where
  "info_surface panel href =
     cx [Some ''rounded-xl border border-border shadow-[0_0_0_1px_var(--border)] bg-card/60 transition-opacity min-w-0'',
         Some (if panel then ''bg-panel/70'' else ''bg-card/60''), if href \<noteq> [] then Some ''hover:opacity-90'' else None]"

definition InfoCard :: "string \<Rightarrow> node list \<Rightarrow> string \<Rightarrow> node list \<Rightarrow> bool \<Rightarrow> node list \<Rightarrow> node" where
  "InfoCard title description href eyebrow panel children =
     (let inner = Elem ''div'' [(''class'', info_surface panel href)]
            [dv (when_filled dv eyebrow @ dv [Text title] # when_filled dv description @ when_filled dv children)]
      in if href \<noteq> [] then route_link href [inner] else inner)"

datatype badge_tone = BadgeNeutral | BadgeSuccess | BadgeWarning | BadgeDanger | BadgeInfo

definition badge_class :: "badge_tone \<Rightarrow> string" where
  "badge_class t =
     (case t of
        BadgeSuccess \<Rightarrow> ''border-success/30 bg-success/10 text-success''
      | BadgeWarning \<Rightarrow> ''border-warning/30 bg-warning/10 text-warning''
      | BadgeDanger \<Rightarrow> ''border-danger/30 bg-danger/10 text-danger''
      | BadgeInfo \<Rightarrow> ''border-info/30 bg-info/10 text-info''
      | BadgeNeutral \<Rightarrow> ''border-border bg-card/60 text-muted-foreground'')"

definition StatusBadge :: "badge_tone \<Rightarrow> string \<Rightarrow> node" where
  "StatusBadge t s =
     Elem ''span'' [(''class'', cx [Some ''inline-flex items-center rounded-full border px-2.5 py-1 text-xs font-semibold tracking-wide uppercase'',
        Some (badge_class t)])] [Text s]"

text \<open>What a visitor can follow from a building block.\<close>

lemma callout_reads [simp]:
  "hrefs (Callout title t cs) = all_hrefs cs" "saves (Callout title t cs) = all_saves cs"
  "anchor_ids (Callout title t cs) = all_ids cs"
  by (simp_all add: Callout_def)

lemma section_header_reads [simp]:
  "hrefs (SectionHeader title sub acts) = all_hrefs sub @ all_hrefs acts"
  "saves (SectionHeader title sub acts) = all_saves sub @ all_saves acts"
  "anchor_ids (SectionHeader title sub acts) = all_ids sub @ all_ids acts"
  by (simp_all add: SectionHeader_def)

lemma page_header_reads [simp]:
  "hrefs (PageHeader eye title sub acts) = all_hrefs eye @ all_hrefs sub @ all_hrefs acts"
  "saves (PageHeader eye title sub acts) = all_saves eye @ all_saves sub @ all_saves acts"
  "anchor_ids (PageHeader eye title sub acts) = all_ids eye @ all_ids sub @ all_ids acts"
  by (simp_all add: PageHeader_def)

lemma code_block_shell_reads [simp]:
  "hrefs (CodeBlockShell c l b) = []" "saves (CodeBlockShell c l b) = []" "anchor_ids (CodeBlockShell c l b) = []"
  by (simp_all add: CodeBlockShell_def)

lemma info_card_reads [simp]:
  "hrefs (InfoCard title desc href eye panel cs) =
     (if href = [] then [] else [href]) @ all_hrefs eye @ all_hrefs desc @ all_hrefs cs"
  "saves (InfoCard title desc href eye panel cs) = all_saves eye @ all_saves desc @ all_saves cs"
  "anchor_ids (InfoCard title desc href eye panel cs) = all_ids eye @ all_ids desc @ all_ids cs"
  by (simp_all add: InfoCard_def Let_def)

lemma doc_toc_reads [simp]:
  "all_hrefs (DocToc items title) = map (\<lambda>i. CHR ''#'' # tl_id i) items"
  "all_saves (DocToc items title) = []" "all_ids (DocToc items title) = []"
proof -
  have "all_hrefs (map toc_entry xs) = map (\<lambda>i. CHR ''#'' # tl_id i) xs \<and> all_saves (map toc_entry xs) = [] \<and>
      all_ids (map toc_entry xs) = []" for xs
    by (induction xs) (simp_all add: toc_entry_def)
  then show "all_hrefs (DocToc items title) = map (\<lambda>i. CHR ''#'' # tl_id i) items"
    "all_saves (DocToc items title) = []" "all_ids (DocToc items title) = []"
    by (simp_all add: DocToc_def)
qed

end
