(* ===== verification/Copy_Buttons.thy ===== *)
theory Copy_Buttons
  imports Ui_Parts
begin

text \<open>
  The two places that copy to the clipboard: a command block (\<open>CommandBlock\<close> in
  \<open>components/DownloadSection.tsx\<close>) and the table of donation addresses
  (\<open>components/DonationQRCard.tsx\<close>). Each shows a message when the browser has copied and
  sets a timer that takes it back. A state holds what is shown and when the pending timers are due,
  in the order they were set; an event is a copy that the browser reports at some time (in
  milliseconds), a copy that it refuses, or the firing of the earliest timer.
\<close>

section \<open>Events\<close>

datatype 'k copy_event = CopyDone nat 'k | CopyRefused | TimerFires

section \<open>Command block\<close>

record copy_button =
  cb_copied :: bool
  cb_due :: "nat list"

definition cb_start :: copy_button where
  "cb_start = \<lparr>cb_copied = False, cb_due = []\<rparr>"

text \<open>\<open>onCopy\<close> and the callback of \<open>setTimeout\<close>.\<close>

definition cb_step :: "copy_button \<Rightarrow> unit copy_event \<Rightarrow> copy_button" where
  "cb_step s e =
     (case e of
        CopyDone now _ \<Rightarrow> s\<lparr>cb_copied := True, cb_due := cb_due s @ [now + 1200]\<rparr>
      | CopyRefused \<Rightarrow> s\<lparr>cb_copied := False\<rparr>
      | TimerFires \<Rightarrow> (if cb_due s = [] then s else s\<lparr>cb_copied := False, cb_due := tl (cb_due s)\<rparr>))"

definition CommandBlock :: "string \<Rightarrow> string \<Rightarrow> string \<Rightarrow> string \<Rightarrow> string \<Rightarrow> string \<Rightarrow> bool \<Rightarrow> node" where
  "CommandBlock label code language note copyLabel copiedLabel copied =
     dv ([dv [dv [dv [Text label]], Elem ''button'' [] [Text (if copied then copiedLabel else copyLabel)]],
          Elem ''pre'' [] [Elem ''code'' [] [Text code]]] @
         (if language \<noteq> [] \<or> note \<noteq> [] then
            [dv [dv (sp [Text (if language \<noteq> [] then language else ''shell'')] # when_filled sp (text_of note))]]
          else []))"

section \<open>Donation addresses\<close>

record donation_address =
  da_symbol :: string
  da_network :: string
  da_address :: string

record donation_card =
  dc_copied :: "string option"
  dc_due :: "nat list"

definition dc_start :: donation_card where
  "dc_start = \<lparr>dc_copied = None, dc_due = []\<rparr>"

text \<open>\<open>copyValue\<close>: a refused copy throws out of the handler before anything is set.\<close>

definition dc_step :: "donation_card \<Rightarrow> string copy_event \<Rightarrow> donation_card" where
  "dc_step s e =
     (case e of
        CopyDone now key \<Rightarrow> s\<lparr>dc_copied := Some key, dc_due := dc_due s @ [now + 1600]\<rparr>
      | CopyRefused \<Rightarrow> s
      | TimerFires \<Rightarrow> (if dc_due s = [] then s else s\<lparr>dc_copied := None, dc_due := tl (dc_due s)\<rparr>))"

definition donation_row :: "string \<Rightarrow> string \<Rightarrow> string option \<Rightarrow> donation_address \<Rightarrow> node" where
  "donation_row copyLabel copiedLabel copied item =
     Elem ''tr'' []
       [Elem ''td'' [] [Text (da_symbol item)], Elem ''td'' [] [Text (da_network item)],
        Elem ''td'' [] [Text (da_address item)],
        Elem ''td'' [] [Elem ''button'' [] [Text (if copied = Some (da_symbol item) then copiedLabel else copyLabel)]]]"

definition head_cell :: "string \<Rightarrow> node" where
  "head_cell s = Elem ''th'' [] [Text s]"

definition DonationQRCard :: "site_copy \<Rightarrow> ui_lang \<Rightarrow> string \<Rightarrow> donation_address list \<Rightarrow> string option \<Rightarrow> node" where
  "DonationQRCard cp lang qrValue addresses copied =
     Elem ''section'' []
       [Elem ''h2'' [(''id'', ''donation-title'')] [Text (tx cp ''donation'' lang ''Direct Anonymous Donation'')],
        Elem ''p'' [] [Text (tx cp ''donation'' lang ''Scan to donate BTC / XMR / USDT or copy the address. One-time or recurring, every contribution helps keep SunLionet updated against new DPI techniques.'')],
        dv [Elem ''QRCodeSVG'' [(''value'', qrValue)] []],
        Elem ''p'' [] [Text (tx cp ''donation'' lang ''QR points to the first address in the list (recommended: XMR).'')],
        dv [Elem ''table'' []
          [Elem ''thead'' [] [Elem ''tr'' [] (map (\<lambda>s. head_cell (tx cp ''donation'' lang s)) [''Asset'', ''Network'', ''Address'', ''Action''])],
           Elem ''tbody'' []
             (map (donation_row (cp_ui cp lang ''buttons.copy'') (cp_ui cp lang ''buttons.copied'') copied) addresses)]]]"

section \<open>A message that a timer takes back\<close>

locale flash_message =
  fixes start :: 's and step :: "'s \<Rightarrow> 'k copy_event \<Rightarrow> 's" and shown :: "'s \<Rightarrow> bool"
    and due :: "'s \<Rightarrow> nat list" and delay :: nat
  assumes quiet_start: "\<not> shown start" "due start = []"
    and copied: "shown (step s (CopyDone now k))" "due (step s (CopyDone now k)) = due s @ [now + delay]"
    and refused: "shown (step s CopyRefused) \<Longrightarrow> shown s" "due (step s CopyRefused) = due s"
    and fires: "due s \<noteq> [] \<Longrightarrow> \<not> shown (step s TimerFires)" "due (step s TimerFires) = tl (due s)"
    and idle: "due s = [] \<Longrightarrow> step s TimerFires = s"
begin

lemma shown_pending: "shown (foldl step start es) \<Longrightarrow> due (foldl step start es) \<noteq> []"
proof (induction es rule: rev_induct)
  case Nil
  with quiet_start show ?case by simp
next
  case (snoc e es)
  show ?case
  proof (cases e)
    case (CopyDone now k)
    then show ?thesis by (simp add: copied)
  next
    case CopyRefused
    with snoc refused show ?thesis by simp
  next
    case TimerFires
    show ?thesis
    proof (cases "due (foldl step start es) = []")
      case True
      with snoc TimerFires show ?thesis by (simp add: idle)
    next
      case False
      with snoc.prems TimerFires show ?thesis by (simp add: fires)
    qed
  qed
qed

text \<open>The last pending timer is that of the last copy: the message never outlives it.\<close>

lemma last_due:
  "due (foldl step start es) \<noteq> [] \<Longrightarrow>
     \<exists>as now k bs. es = as @ CopyDone now k # bs \<and> (\<forall>t i. CopyDone t i \<notin> set bs) \<and>
       last (due (foldl step start es)) = now + delay"
proof (induction es rule: rev_induct)
  case Nil
  with quiet_start show ?case by simp
next
  case (snoc e es)
  show ?case
  proof (cases e)
    case (CopyDone now k)
    then show ?thesis by (intro exI [of _ es] exI [of _ now] exI [of _ k] exI [of _ "[]"]) (simp add: copied)
  next
    case CopyRefused
    with snoc obtain as now k bs where "es = as @ CopyDone now k # bs" "\<forall>t i. CopyDone t i \<notin> set bs"
      "last (due (foldl step start es)) = now + delay" by (auto simp: refused)
    with CopyRefused show ?thesis
      by (intro exI [of _ as] exI [of _ now] exI [of _ k] exI [of _ "bs @ [e]"]) (simp add: refused)
  next
    case TimerFires
    with snoc.prems have tl: "tl (due (foldl step start es)) \<noteq> []" by (simp add: fires)
    then have "due (foldl step start es) \<noteq> []" by auto
    with snoc.IH obtain as now k bs where "es = as @ CopyDone now k # bs" "\<forall>t i. CopyDone t i \<notin> set bs"
      "last (due (foldl step start es)) = now + delay" by blast
    with TimerFires tl show ?thesis
      by (intro exI [of _ as] exI [of _ now] exI [of _ k] exI [of _ "bs @ [e]"]) (simp add: fires last_tl)
  qed
qed

text \<open>When all timers have fired, nothing is shown.\<close>

lemma drained_due: "due (foldl step s (replicate n TimerFires)) = drop n (due s)"
  by (induction n arbitrary: s) (simp_all add: fires drop_Suc)

lemma drained: "\<not> shown (foldl step start (es @ replicate (length (due (foldl step start es))) TimerFires))"
proof
  let ?s = "foldl step start es"
  assume "shown (foldl step start (es @ replicate (length (due ?s)) TimerFires))"
  then have "due (foldl step start (es @ replicate (length (due ?s)) TimerFires)) \<noteq> []" by (rule shown_pending)
  then show False by (simp add: drained_due)
qed

end

interpretation command_block: flash_message cb_start cb_step cb_copied cb_due 1200
  by unfold_locales (simp_all add: cb_start_def cb_step_def)

interpretation donation: flash_message dc_start dc_step "\<lambda>s. dc_copied s \<noteq> None" dc_due 1600
  by unfold_locales (simp_all add: dc_start_def dc_step_def split: if_splits)

section \<open>Properties\<close>

text \<open>C38: the copy buttons never stay on the message: after any events at either place, when the timers still
  pending have fired, the command block reads \<open>copy\<close> again and no address is marked as copied; and as
  long as a message is shown, a copy was reported before and its timer is still to come, due
  1200 or 1600 milliseconds after the last reported copy.\<close>

theorem copied_message_expires:
  "\<not> cb_copied (foldl cb_step cb_start (es @ replicate (length (cb_due (foldl cb_step cb_start es))) TimerFires)) \<and>
   dc_copied (foldl dc_step dc_start (ds @ replicate (length (dc_due (foldl dc_step dc_start ds))) TimerFires)) = None \<and>
   (cb_copied (foldl cb_step cb_start es) \<longrightarrow>
     (\<exists>as now k bs. es = as @ CopyDone now k # bs \<and> (\<forall>t i. CopyDone t i \<notin> set bs) \<and>
       cb_due (foldl cb_step cb_start es) \<noteq> [] \<and> last (cb_due (foldl cb_step cb_start es)) = now + 1200)) \<and>
   (dc_copied (foldl dc_step dc_start ds) \<noteq> None \<longrightarrow>
     (\<exists>as now k bs. ds = as @ CopyDone now k # bs \<and> (\<forall>t i. CopyDone t i \<notin> set bs) \<and>
       dc_due (foldl dc_step dc_start ds) \<noteq> [] \<and> last (dc_due (foldl dc_step dc_start ds)) = now + 1600))"
proof (intro conjI impI)
  show "\<not> cb_copied (foldl cb_step cb_start (es @ replicate (length (cb_due (foldl cb_step cb_start es))) TimerFires))"
    using command_block.drained by blast
  show "dc_copied (foldl dc_step dc_start (ds @ replicate (length (dc_due (foldl dc_step dc_start ds))) TimerFires)) = None"
    using donation.drained by blast
qed (use command_block.shown_pending command_block.last_due donation.shown_pending donation.last_due in blast)+

theorem copied_message_expires_witness:
  "\<exists>as bs. [CopyDone 7 ()] = as @ CopyDone 7 () # bs \<and> last (cb_due (foldl cb_step cb_start [CopyDone 7 ()])) = 1207"
proof -
  have "cb_copied (foldl cb_step cb_start [CopyDone 7 ()])" by (simp add: cb_step_def)
  from this copied_message_expires [of "[CopyDone 7 ()]"] show ?thesis by (auto simp: Cons_eq_append_conv)
qed

text \<open>A second copy while the timer of the first is pending loses its message when that fires.\<close>

lemma overlapping_copies:
  "let s = foldl cb_step cb_start [CopyDone 0 (), CopyDone 1000 (), TimerFires] in \<not> cb_copied s \<and> cb_due s = [2200]"
  by (simp add: cb_step_def cb_start_def)

end
