(* ===== verification/Download_View.thy ===== *)
theory Download_View
  imports Downloads Calendar Copy_Buttons
begin

text \<open>
  What the download section shows (\<open>components/DownloadSection.tsx\<close>, from its state in
  \<open>Downloads\<close>), the events that change that state, and the two pages around it
  (\<open>app/download/page.tsx\<close>, \<open>app/installation/page.tsx\<close>). The command blocks keep
  their own state; which of the four shows its message is the parameter \<open>copied\<close>.
\<close>

section \<open>Events\<close>

datatype download_event = ChooseRole release_role | ChoosePlatform platform_key | ChooseTag string

definition download_step :: "download_ui \<Rightarrow> download_event \<Rightarrow> download_ui" where
  "download_step ui e =
     (case e of
        ChooseRole r \<Rightarrow> ui\<lparr>dl_role := r\<rparr>
      | ChoosePlatform p \<Rightarrow> ui\<lparr>dl_manualPlatform := p\<rparr>
      | ChooseTag t \<Rightarrow> ui\<lparr>dl_selectedTag := t\<rparr>)"

section \<open>Texts\<close>

definition ellipsis :: string where "ellipsis = utf8 [226, 128, 166]"
definition quoted_safe :: string where
  "quoted_safe = utf8 [226, 128, 156] @ ''safe'' @ utf8 [226, 128, 157]"
definition dquote :: string where "dquote = [char_of (34 :: nat)]"

definition platform_value :: "platform_key \<Rightarrow> string" where
  "platform_value p =
     (case p of
        PLinuxAmd64 \<Rightarrow> ''linux-amd64''
      | PLinuxArm64 \<Rightarrow> ''linux-arm64''
      | PRaspberryPi \<Rightarrow> ''raspberrypi-arm64''
      | PAndroid \<Rightarrow> ''android''
      | PSource \<Rightarrow> ''source''
      | PUnknown \<Rightarrow> ''unknown'')"

definition arch_name :: "detected_arch \<Rightarrow> string" where
  "arch_name a = (case a of Amd64 \<Rightarrow> ''amd64'' | Arm64 \<Rightarrow> ''arm64'' | ArchUnknown \<Rightarrow> ''unknown'')"

definition kind_name :: "artifact_kind \<Rightarrow> string" where
  "kind_name k = (case k of TarGz \<Rightarrow> ''tar.gz'' | Zip \<Rightarrow> ''zip'' | Bin \<Rightarrow> ''bin'')"

definition support_note :: "download_ui \<Rightarrow> string" where
  "support_note ui =
     (let p = effectivePlatform ui in
      if p = PAndroid then
        (if dl_role ui \<noteq> RoleInside then ''Outside is not supported on Android. Run Outside on a separate machine.''
         else ''Inside runs as a Termux CLI binary and release APK. Verify checksums/signature before sideloading.'')
      else if p = PRaspberryPi then
        ''Uses the Linux arm64 bundle. Treat as experimental until long-running field testing is complete.''
      else if p = PLinuxAmd64 \<or> p = PLinuxArm64 then
        ''Linux bundles are the current MVP path (tarball + install script + systemd unit).''
      else ''Auto-detection is inconclusive. Use the platform grid and verify before running.'')"

definition heading_text :: "site_copy \<Rightarrow> ui_lang \<Rightarrow> heading_case \<Rightarrow> string" where
  "heading_text cp lang h =
     tx cp ''download'' lang
       (case h of
          ManualSelection \<Rightarrow> ''Recommended download (manual selection)''
        | DetectionUncertain \<Rightarrow> ''Recommended download (detection is uncertain)''
        | Recommended \<Rightarrow> ''Recommended download'')"

text \<open>Description, support and method of an entry of \<open>platformChoices\<close>.\<close>

definition choice_texts :: "platform_key \<Rightarrow> string \<times> string \<times> string" where
  "choice_texts p =
     (case p of
        PLinuxAmd64 \<Rightarrow> (''Static bundle for Linux x86_64. Includes install script + systemd unit.'',
          ''MVP path'', ''Tarball + verify SHA256 + install script'')
      | PLinuxArm64 \<Rightarrow> (''Static bundle for Linux arm64 (servers, SBCs). Includes install script + systemd unit.'',
          ''MVP path (arm64)'', ''Tarball + verify SHA256 + install script'')
      | PRaspberryPi \<Rightarrow> (''Uses the Linux arm64 Inside bundle (gateway use).'',
          ''Experimental'', ''Tarball + verify SHA256 + install script'')
      | PAndroid \<Rightarrow> (''Inside supports a signed APK sideload flow and a Termux CLI fallback.'',
          ''Experimental'', ''APK + verify SHA256/signature + sideload'')
      | PSource \<Rightarrow> (''Build from source (best fallback when your platform is not covered).'',
          ''Always available'', ''git clone or tag tarball + go build'')
      | PUnknown \<Rightarrow> ([], [], []))"

definition effectivePlatformLabel :: "download_ui \<Rightarrow> string" where
  "effectivePlatformLabel ui =
     (if effectivePlatform ui = PUnknown then ''Choose a platform'' else platformLabel (effectivePlatform ui))"

definition detectionSummary :: "download_ui \<Rightarrow> string" where
  "detectionSummary ui =
     (if supportsAutoRecommendation (dl_detection ui) then od_label (dl_detection ui) else ''Unknown'') @
     (if dl_arch ui \<noteq> ArchUnknown then bullet @ arch_name (dl_arch ui) else [])"

section \<open>Cards\<close>

definition CodeBlock :: "string \<Rightarrow> node" where
  "CodeBlock s = dv [Elem ''pre'' [] [Text s]]"

definition TabButton :: "bool \<Rightarrow> string \<Rightarrow> node" where
  "TabButton active s =
     Elem ''button'' [(''class'', join '' '' [''px-4 py-2 text-sm font-semibold rounded-md border transition-colors'',
        if active then ''bg-primary border-border text-primary-foreground shadow-[0_0_16px_var(--ring)]''
        else ''bg-card border-border text-muted hover:text-foreground hover:opacity-90''])] [Text s]"

definition choice_option :: "string \<Rightarrow> string \<Rightarrow> node" where
  "choice_option value s = Elem ''option'' [(''value'', value)] [Text s]"

definition section_actions :: "local_release list \<Rightarrow> download_ui \<Rightarrow> node list" where
  "section_actions releases ui =
     [Elem ''select'' [(''value'', dl_selectedTag ui)] (map (\<lambda>r. choice_option (lr_tag r) (lr_tag r)) releases),
      TabButton (dl_role ui = RoleInside) ''Inside'', TabButton (dl_role ui = RoleOutside) ''Outside'']"

definition detected_card :: "download_ui \<Rightarrow> node" where
  "detected_card ui =
     dv [dv [Text ''Detected''], dv [Text (detectionSummary ui)],
         dv (if supportsAutoRecommendation (dl_detection ui)
             then [Text ''Confidence: '', sp [Text (show_int (js_round (od_confidence (dl_detection ui) * 100)) @ ''%'')]]
             else [Text ''Detection is inconclusive in this environment.''])]"

definition release_card :: "local_release option \<Rightarrow> node" where
  "release_card r =
     dv [dv [Text ''Release''], dv [Text (case r of Some r \<Rightarrow> lr_tag r | None \<Rightarrow> ''n/a'')],
         dv [Text ''Date: '', sp [Text (or_text (formatDate (Option.bind r lr_createdAtUnix)) ''n/a'')]],
         dv [Text ''Artifacts: '', sp [Text (show_nat (releaseArtifactCount r))]],
         dv [new_tab_link ''noreferrer'' (releasePageUrl r) [Text ''View on GitHub'']]]"

definition platform_card :: "download_ui \<Rightarrow> node" where
  "platform_card ui =
     dv [dv [Text ''Platform''], dv [Text (effectivePlatformLabel ui)],
         dv [Elem ''select'' [(''value'', platform_value (dl_manualPlatform ui))]
           (choice_option ''unknown'' (if supportsAutoRecommendation (dl_detection ui) then ''Auto (recommended)''
                                       else ''Select'' @ ellipsis) #
            map (\<lambda>p. choice_option (platform_value p) (platformLabel p)) platformChoices)],
         dv [Text (support_note ui)]]"

definition maybe_save :: "string option \<Rightarrow> string \<Rightarrow> node list" where
  "maybe_save href label = when_some (\<lambda>h. save_link h [Text label]) (filled href)"

definition hasSignature :: "release_verification \<Rightarrow> bool" where
  "hasSignature v = sigReady v"

definition artifact_card :: "release_artifact option \<Rightarrow> release_verification \<Rightarrow> node" where
  "artifact_card rec v =
     dv (dv [Text ''Recommended artifact''] #
       (case rec of
          None \<Rightarrow> [dv [Text ''No matching artifact for this platform/role. Use source build or choose a different platform from the grid.'']]
        | Some a \<Rightarrow>
            [dv [Text ''File''], dv [Text (ra_fileName a)],
             dv [Text ''Type: '', sp [Text (kind_name (ra_kind a))], Text (bullet @ ''Size: ''),
               sp [Text (formatBytes (ra_sizeBytes a))]],
             dv (save_link (ra_href a) [Text ''Download''] #
               maybe_save (ra_sha256Href a) ''SHA256'' @
               maybe_save (rv_signatureHref v) ''Signature'' @
               maybe_save (rv_keyHref v) ''Cosign key'' @
               [new_tab_link ''noreferrer'' (githubRepo @ ''/blob/main/website/public'' @ ra_href a) [Text ''Browse source'']]),
             dv [Text ''Verification: '',
               sp [Text (if hasChecksum rec then ''checksum available'' else ''checksum missing'')],
               Text (bullet @ ''Signature: ''),
               sp [Text (if hasSignature v then ''published (cosign)'' else ''missing'')]]] @
            when_some (\<lambda>s. dv [Text ''SHA256: '', sp [Text s]]) (filled (ra_sha256 a)) @
            when_some (\<lambda>s. dv [Text ''Cosign key fingerprint: '', sp [Text s]]) (filled (rv_keyFingerprint v))))"

definition step_block :: "site_copy \<Rightarrow> ui_lang \<Rightarrow> string \<Rightarrow> string \<Rightarrow> string \<Rightarrow> bool \<Rightarrow> node" where
  "step_block cp lang label code note copied =
     CommandBlock (tx cp ''download'' lang label) code ''bash'' (tx cp ''download'' lang note) (cp_ui cp lang ''buttons.copy'')
       (cp_ui cp lang ''buttons.copied'') copied"

definition install_card :: "site_copy \<Rightarrow> ui_lang \<Rightarrow> install_steps option \<Rightarrow> (nat \<Rightarrow> bool) \<Rightarrow> node" where
  "install_card cp lang steps copied =
     dv [dv [Text ''Quick install (stepwise)''],
       (case steps of
          None \<Rightarrow> dv [Text ''Select a supported platform to generate commands, or use the source build path below.'']
        | Some s \<Rightarrow>
            dv [step_block cp lang ''1) Download'' (is_download s) ''Fetch both the artifact and its checksum file'' (copied 0),
                step_block cp lang ''2) Verify'' (is_verify s) ''Fails if the download was modified or corrupted'' (copied 1),
                step_block cp lang ''3) Install / run'' (is_install s) ''Installs a service on Linux bundles'' (copied 2)])]"

definition grid_offer :: "release_artifact option \<Rightarrow> node list" where
  "grid_offer a =
     (case a of
        None \<Rightarrow> [dv [Text ''No artifact available for this role in this release. Use source build or switch role/platform.'']]
      | Some a \<Rightarrow>
          [save_link (ra_href a) [Text ''Download''],
           dv [sp [Text (ra_fileName a)], Text bullet, sp [Text (formatBytes (ra_sizeBytes a))]],
           (case filled (ra_sha256Href a) of
              Some h \<Rightarrow> save_link h [Text ''Verification (SHA256)'']
            | None \<Rightarrow> dv [Text ''No checksum file present for this artifact.''])])"

definition grid_card :: "local_release option \<Rightarrow> release_role \<Rightarrow> platform_key \<Rightarrow> node" where
  "grid_card r role p =
     (let (description, support, method) = choice_texts p in
      dv [dv [dv [dv [Text (platformLabel p)], dv [Text description]], Elem ''button'' [] [Text ''Select'']],
          dv [dv [sp [Text ''Support''], sp [Text support]], dv [sp [Text ''Method''], sp [Text method]]],
          (if p = PSource then
             dv [route_link (sourceTarballUrl r) [Text ''Download source tarball''],
                 new_tab_link ''noreferrer'' githubRepo [Text ''Repository'']]
           else dv (grid_offer (gridArtifact r role p)))])"

section \<open>The section\<close>

definition listing :: "string list \<Rightarrow> node" where
  "listing xs = Elem ''ul'' [] (map (\<lambda>s. Elem ''li'' [] [Text s]) xs)"

definition missing_release_note :: "site_copy \<Rightarrow> ui_lang \<Rightarrow> node" where
  "missing_release_note cp lang =
     Callout (tx cp ''download'' lang ''No local release artifacts found'') ToneWarning
       [Text (tx cp ''download'' lang ''This site build does not include any files under ''), sp [Text ''website/public/downloads''],
        Text (tx cp ''download'' lang ''. You can still download from GitHub Releases and verify with published checksums when available.'')]"

definition project_status :: "site_copy \<Rightarrow> ui_lang \<Rightarrow> node" where
  "project_status cp lang =
     Callout (tx cp ''download'' lang ''Project status'') ToneWarning
       [Text (tx cp ''download'' lang ''SunLionet is currently an MVP/alpha. Linux bundles (`.tar.gz` + `.deb`) are the primary supported path. Android builds publish a signed release APK. Always verify checksums and the signed checksum bundle before installing.'')]"

definition recommendation_section ::
  "site_copy \<Rightarrow> ui_lang \<Rightarrow> local_release list \<Rightarrow> download_ui \<Rightarrow> (nat \<Rightarrow> bool) \<Rightarrow> node" where
  "recommendation_section cp lang releases ui copied =
     dv [SectionHeader (heading_text cp lang (recommendedHeading ui))
           [Text ''Pick the correct artifact for your machine, verify it, then install in steps. Auto-detection is conservative and never hides other options.'']
           (section_actions releases ui),
         dv [detected_card ui, release_card (selectedRelease releases ui), platform_card ui],
         dv [artifact_card (recommendedArtifact releases ui) (verificationFiles releases ui),
             install_card cp lang (installSteps releases ui) copied]]"

definition grid_section :: "local_release list \<Rightarrow> download_ui \<Rightarrow> node" where
  "grid_section releases ui =
     dv [SectionHeader ''Platform grid''
           [Text ''All primary artifacts and recommended methods. Nothing is hidden; you can always override the recommendation.''] [],
         dv (map (grid_card (selectedRelease releases ui) (dl_role ui)) platformChoices)]"

definition verification_section :: "string option \<Rightarrow> node" where
  "verification_section basePrefix =
     dv [SectionHeader ''Verification''
           [Text (''Verification protects you against corruption and tampering in transit. It does not magically make software '' @ quoted_safe @ ''.'')] [],
         dv [dv [dv [Text ''What the SHA256 check gives you''],
                 listing [''- File integrity: you got exactly the bytes the publisher intended to publish.'',
                   ''- Tamper detection: if a mirror/CDN modifies the file, the check fails.'',
                   ''- A consistent hash value you can compare across mirrors and friends.'',
                   ''- Signature validation (`cosign verify-blob`) confirms checksums were signed by a trusted release key.'']],
             dv [dv [Text ''What it does not guarantee''],
                 listing [''- No guarantee of anonymity or safety in your threat model.'',
                   ''- No guarantee the binary is bug-free or appropriate for your local legal risk.'',
                   ''- If an attacker controls both the binary and checksum source, checksums alone are not enough.'']]],
         Elem ''details'' []
           [Elem ''summary'' [] [Text ''Platform-specific commands''],
            dv [dv [dv [Text ''Linux''], CodeBlock (line ''sha256sum -c <file>.sha256'' @ cosign_cmd)],
                dv [dv [Text ''macOS''], CodeBlock ''shasum -a 256 -c <file>.sha256''],
                dv [dv [Text ''Windows (PowerShell)''], CodeBlock ''certutil -hashfile <file> SHA256''],
                dv [Text ''For bundle authenticity (publisher signatures enforced by the agent), see '',
                    route_link (hrefFor basePrefix ''/docs/outside/verification'') [Text ''/docs/outside/verification''],
                    Text ''.'']]]]"

definition build_example :: string where
  "build_example =
     (let build = (\<lambda>role. line (''go build -tags '' @ role @ '' -ldflags='' @ dquote @ ''-s -w -X main.version=v0.1.0'' @ dquote @
          '' -o bin/sunlionet-'' @ role @ '' ./cmd/'' @ role @ ''/''))
      in line (''git clone '' @ githubRepo) @ line ''cd sunlionet-core'' @ line ''mkdir -p bin'' @
         build ''inside'' @ build ''outside'')"

definition paths_section :: "site_copy \<Rightarrow> ui_lang \<Rightarrow> bool \<Rightarrow> node" where
  "paths_section cp lang copied =
     dv [SectionHeader ''Installation paths'' [Text ''Choose the flow that matches your skill level and risk tolerance.''] [],
         dv [dv [dv [Text ''Quick path''],
                 dv [Text ''Use the recommended artifact and the stepwise commands above. Intended for experienced users who still verify checksums.'']],
             dv [dv [Text ''Careful verified path''],
                 dv [Text ''Verify SHA256, verify `checksums.txt` signature with cosign, and cross-check key fingerprint from a second trusted channel.'']],
             dv [dv [Text ''Source build path''],
                 dv [Text ''Build from source if your platform is not covered. Use the repository-backed docs for build tags and Go toolchain details.''],
                 dv [step_block cp lang ''Build (example)'' build_example ''Requires Go toolchain as pinned in go.mod'' copied]]]]"

definition limits_section :: node where
  "limits_section =
     dv [SectionHeader ''Limitations / readiness'' [Text ''Truthful constraints so users can make informed decisions.''] [],
         dv [dv [dv [Text ''What works today''],
                 listing [''- Linux bundles with install script + systemd service (Inside/Outside).'',
                   ''- Linux `.deb` packaging for amd64 hosts.'',
                   ''- Bundle signature verification and strict parsing in the agent (trust is local and explicit).'',
                   ''- Android signed release APK and Android/Termux Inside CLI path.'']],
             dv [dv [Text ''What is still experimental''],
                 listing [''- Optional RPM packaging (builds only when rpm tooling is available).'',
                   ''- Full multi-maintainer release-signing policy and rotation tooling.'',
                   ''- Broader cross-device Android validation across OEMs/ROM variants.'']]]]"

definition targets_text :: "local_release option \<Rightarrow> string" where
  "targets_text r =
     (case r of
        None \<Rightarrow> ''n/a''
      | Some _ \<Rightarrow> (let s = join '', '' (supportedTargets r) in if s = [] then ''n/a'' else s))"

definition fallback_section :: "local_release option \<Rightarrow> string option \<Rightarrow> node" where
  "fallback_section r basePrefix =
     dv [SectionHeader ''Fallback sources'' [Text ''If a platform artifact or metadata is missing, these are the safe next steps.''] [],
         dv [dv [dv [Text ''Source tarball''], dv [Text ''Use a tagged source tarball when binaries are not suitable.''],
                 dv [route_link (sourceTarballUrl r)
                   [Text (case r of Some r \<Rightarrow> ''Download '' @ lr_tag r @ ''.tar.gz'' | None \<Rightarrow> ''Download source'')]]],
             dv [dv [Text ''Repository''], dv [Text ''Canonical code and docs, mirrored and reviewable.''],
                 dv [new_tab_link ''noreferrer'' githubRepo [Text ''GitHub repo'']]],
             dv [dv [Text ''Docs''], dv [Text ''Installation, safety guidance, and verification details.''],
                 dv [route_link (hrefFor basePrefix ''/docs/install'') [Text ''Install guide''],
                     route_link (hrefFor basePrefix ''/docs/outside/verification'') [Text ''Verification guide'']]]],
         Elem ''details'' []
           [Elem ''summary'' [] [Text ''Available targets in this release''], dv [dv [Text (targets_text r)]]]]"

text \<open>\<open>copied\<close> tells which of the four command blocks shows its message.\<close>

definition DownloadSection ::
  "site_copy \<Rightarrow> string option \<Rightarrow> local_release list \<Rightarrow> string option \<Rightarrow> download_ui \<Rightarrow> (nat \<Rightarrow> bool) \<Rightarrow> node" where
  "DownloadSection cp pathname releases basePrefix ui copied =
     (let lang = getUILangFromPathname pathname; r = selectedRelease releases ui in
      Elem ''section'' [(''id'', ''downloads'')]
        [dv ((if releases = [] then [missing_release_note cp lang] else []) @
          [project_status cp lang, recommendation_section cp lang releases ui copied, grid_section releases ui,
           verification_section basePrefix, paths_section cp lang (copied 3), limits_section,
           fallback_section r basePrefix])])"

section \<open>The pages around it\<close>

text \<open>\<open>resolved.lang === "fa" ? "/fa" : resolved.lang === "en" ? "/en" : ""\<close>.\<close>

definition page_base :: "string option \<Rightarrow> string" where
  "page_base lang = (if lang = Some ''fa'' then ''/fa'' else if lang = Some ''en'' then ''/en'' else [])"

definition DownloadPage ::
  "site_copy \<Rightarrow> string option \<Rightarrow> local_release list \<Rightarrow> string option \<Rightarrow> download_ui \<Rightarrow> (nat \<Rightarrow> bool) \<Rightarrow> node" where
  "DownloadPage cp pathname releases plang ui copied =
     (let copy = (\<lambda>k. cp_ui cp (resolveUILang plang) (''downloadPage.'' @ k)); base = page_base plang in
      dv [dv [PageHeader [] (copy ''title'') (text_of (copy ''subtitle''))
            [route_link (base @ ''/docs/outside/verification'') [Text (copy ''verificationGuide'')],
             route_link (base @ ''/docs/install'') [Text (copy ''install'')]],
          DownloadSection cp pathname releases (Some base) ui copied,
          dv [InfoCard (copy ''installationGuide'') (text_of (copy ''installationGuideDesc'')) (base @ ''/installation'') [] False [],
              InfoCard (copy ''repoDocs'') (text_of (copy ''repoDocsDesc'')) (base @ ''/docs'') [] False []]]])"

definition install_step :: "string \<Rightarrow> string \<Rightarrow> node list \<Rightarrow> node" where
  "install_step n title children = dv [dv [dv [Text n], dv [dv [Text title], dv children]]]"

definition installation_tag :: "local_release list \<Rightarrow> string" where
  "installation_tag releases = (case releases of r # _ \<Rightarrow> lr_tag r | [] \<Rightarrow> ''v0.1.0'')"

definition linuxAmd64 :: "local_release list \<Rightarrow> string" where
  "linuxAmd64 releases =
     (case Option.bind (case releases of r # _ \<Rightarrow> Some r | [] \<Rightarrow> None)
        (\<lambda>r. find (\<lambda>a. ra_role a = Some RoleInside \<and> ra_target a = Some ''linux-amd64'' \<and> ra_kind a = TarGz) (lr_artifacts r)) of
        Some a \<Rightarrow> ra_fileName a
      | None \<Rightarrow> ''sunlionet-inside-'' @ installation_tag releases @ ''-linux-amd64.tar.gz'')"

definition githubDocsInstall :: string where
  "githubDocsInstall = githubRepo @ ''/blob/main/docs/install.md''"

definition verify_commands :: "string \<Rightarrow> string \<Rightarrow> string" where
  "verify_commands tag file =
     line (''BASE_URL='' @ dquote @ ''https://sunlionet.example'' @ dquote) @
     line (''curl -fL -O '' @ dquote @ ''$BASE_URL/downloads/'' @ tag @ ''/'' @ file @ dquote) @
     line (''curl -fL -O '' @ dquote @ ''$BASE_URL/downloads/'' @ tag @ ''/'' @ file @ ''.sha256'' @ dquote) @
     ''sha256sum -c '' @ dquote @ file @ ''.sha256'' @ dquote"

definition unpack_commands :: "string \<Rightarrow> string" where
  "unpack_commands file =
     line (''tar -xzf '' @ file) @ line ''sudo ./install-linux.sh inside'' @
     ''sudo systemctl enable --now sunlionet-inside.service || sudo systemctl enable --now shadownet-inside.service''"

definition InstallationPage :: "site_copy \<Rightarrow> local_release list \<Rightarrow> string option \<Rightarrow> node" where
  "InstallationPage cp releases plang =
     (let lang = resolveUILang plang; copy = (\<lambda>k. cp_ui cp lang (''installationPage.'' @ k)); base = page_base plang;
          tag = installation_tag releases; file = linuxAmd64 releases;
          githubDownloads = githubRepo @ ''/tree/main/website/public/downloads/'' @ tag in
      dv [dv [PageHeader [] (copy ''title'') (text_of (copy ''subtitle''))
            [route_link (base @ ''/download'') [Text (cp_ui cp lang ''nav.download'')],
             new_tab_link ''noreferrer'' githubDocsInstall [Text (copy ''repoInstallDoc'')]],
          dv [install_step ''1'' ''Download + verify''
                [Text ''Go to '', route_link (base @ ''/download'') [Text ''/download''],
                 Text '' and download the artifact plus its '', sp [Text ''.sha256''], Text '' file. Always verify before running.'',
                 dv [Text ''These examples assume you set '', sp [Text ''BASE_URL''],
                     Text '' to the website you are using (example:'', sp [Text '' https://sunlionet.example''], Text '').''],
                 dv [Text ''You can also browse the exact files on GitHub: '',
                     new_tab_link ''noreferrer'' githubDownloads [Text (''downloads/'' @ tag)], Text ''.''],
                 dv [CodeBlockShell (verify_commands tag file) ''bash'' False]],
              install_step ''2'' ''Install (Linux bundle)''
                [Text ''Extract and install:'', dv [CodeBlockShell (unpack_commands file) ''bash'' False],
                 dv [Text ''Full install reference (GitHub source): '',
                     new_tab_link ''noreferrer'' githubDocsInstall [Text ''docs/install.md'']]],
              install_step ''3'' ''Install (Android app)''
                [Text ''Install SunLionet as a signed APK from GitHub Releases, then import a trusted bundle and connect.'',
                 dv [Text ''Follow: '', route_link (base @ ''/docs/install/android'') [Text ''/docs/install/android''], Text ''.'']],
              install_step ''4'' ''Seeds via Signal (trusted contact)''
                [Text ''Ask a trusted supporter to run Outside and send you signed + encrypted bundles via Signal. Inside accepts bundles only from explicitly trusted publisher keys. No domains are stored, and only a bounded event buffer is retained locally.'']]]])"

section \<open>Lemmas\<close>

lemma inert_blocks [simp]:
  "hrefs (CommandBlock l c g n a b s) = []" "saves (CommandBlock l c g n a b s) = []"
  "hrefs (step_block cp lang l c n s) = []" "saves (step_block cp lang l c n s) = []"
  "hrefs (CodeBlock c) = []" "saves (CodeBlock c) = []"
  "hrefs (TabButton t c) = []" "saves (TabButton t c) = []"
  "hrefs (listing xs) = []" "saves (listing xs) = []"
  "hrefs (choice_option v c) = []" "saves (choice_option v c) = []"
  by (simp_all add: CommandBlock_def step_block_def CodeBlock_def TabButton_def listing_def choice_option_def inert_reads)

lemma inert_cards [simp]:
  "all_hrefs (section_actions releases ui) = []" "all_saves (section_actions releases ui) = []"
  "hrefs (detected_card ui) = []" "saves (detected_card ui) = []"
  "hrefs (platform_card ui) = []" "saves (platform_card ui) = []"
  "hrefs (install_card cp lang s copied) = []" "saves (install_card cp lang s copied) = []"
  "hrefs (paths_section cp lang b) = []" "saves (paths_section cp lang b) = []"
  "hrefs limits_section = []" "saves limits_section = []"
  "hrefs (project_status cp lang) = []" "saves (project_status cp lang) = []"
  "hrefs (missing_release_note cp lang) = []" "saves (missing_release_note cp lang) = []"
  by (simp_all add: section_actions_def detected_card_def platform_card_def install_card_def paths_section_def
      limits_section_def project_status_def missing_release_note_def inert_reads split: option.split)

text \<open>The links of an artifact's card and of the card of a platform.\<close>

definition opt_list :: "string option \<Rightarrow> string list" where
  "opt_list x = (case filled x of None \<Rightarrow> [] | Some h \<Rightarrow> [h])"

definition artifact_links :: "release_artifact option \<Rightarrow> string list" where
  "artifact_links a = (case a of None \<Rightarrow> [] | Some a \<Rightarrow> ra_href a # opt_list (ra_sha256Href a))"

lemma maybe_save_reads [simp]:
  "all_hrefs (maybe_save h s) = opt_list h" "all_saves (maybe_save h s) = opt_list h"
  by (simp_all add: maybe_save_def opt_list_def split: option.split)

lemma artifact_card_links:
  "saves (artifact_card rec v) =
     (if rec = None then [] else artifact_links rec @ opt_list (rv_signatureHref v) @ opt_list (rv_keyHref v))"
  "set (hrefs (artifact_card rec v)) \<subseteq> set (saves (artifact_card rec v)) \<union> {h. starts_with githubRepo h}"
  by (auto simp: artifact_card_def artifact_links_def split: option.splits)

lemma grid_card_links:
  "saves (grid_card r role p) = (if p = PSource then [] else artifact_links (gridArtifact r role p))"
  "set (hrefs (grid_card r role p)) \<subseteq> set (saves (grid_card r role p)) \<union> {h. starts_with githubRepo h}"
proof -
  obtain d s m where c: "choice_texts p = (d, s, m)" by (cases "choice_texts p")
  show "saves (grid_card r role p) = (if p = PSource then [] else artifact_links (gridArtifact r role p))"
    by (simp add: grid_card_def c grid_offer_def artifact_links_def opt_list_def split: option.split)
  show "set (hrefs (grid_card r role p)) \<subseteq> set (saves (grid_card r role p)) \<union> {h. starts_with githubRepo h}"
    by (auto simp: grid_card_def c grid_offer_def sourceTarballUrl_def split: option.split)
qed

lemma release_card_links: "set (hrefs (release_card r)) \<subseteq> {h. starts_with githubRepo h}" "saves (release_card r) = []"
  by (auto simp: release_card_def releasePageUrl_def split: option.split)

lemma fallback_links:
  "set (hrefs (fallback_section r base)) \<subseteq>
     {hrefFor base ''/docs/install'', hrefFor base ''/docs/outside/verification''} \<union> {h. starts_with githubRepo h}"
  "saves (fallback_section r base) = []"
  by (auto simp: fallback_section_def sourceTarballUrl_def split: option.split)

lemma verification_links:
  "hrefs (verification_section base) = [hrefFor base ''/docs/outside/verification'']"
  "saves (verification_section base) = []"
  by (simp_all add: verification_section_def)

text \<open>All that the section saves, and all that it links.\<close>

lemma section_saves:
  "saves (DownloadSection cp pathname releases base ui copied) =
     saves (artifact_card (recommendedArtifact releases ui) (verificationFiles releases ui)) @
     all_saves (map (grid_card (selectedRelease releases ui) (dl_role ui)) platformChoices)"
  by (simp add: DownloadSection_def Let_def recommendation_section_def grid_section_def release_card_links
      fallback_links verification_links)

lemma section_hrefs:
  "set (hrefs (DownloadSection cp pathname releases base ui copied)) \<subseteq>
     set (saves (DownloadSection cp pathname releases base ui copied)) \<union> {h. starts_with githubRepo h} \<union>
     {hrefFor base ''/docs/install'', hrefFor base ''/docs/outside/verification''}"
proof -
  let ?r = "selectedRelease releases ui" and ?rec = "recommendedArtifact releases ui"
    and ?v = "verificationFiles releases ui"
  have grid: "set (all_hrefs (map (grid_card ?r (dl_role ui)) ps)) \<subseteq>
      set (all_saves (map (grid_card ?r (dl_role ui)) ps)) \<union> {h. starts_with githubRepo h}" for ps
    using grid_card_links(2) by (fastforce simp: all_hrefs_map all_saves_map)
  have "hrefs (DownloadSection cp pathname releases base ui copied) =
      hrefs (release_card ?r) @ hrefs (artifact_card ?rec ?v) @ all_hrefs (map (grid_card ?r (dl_role ui)) platformChoices) @
      hrefs (verification_section base) @ hrefs (fallback_section ?r base)"
    by (simp add: DownloadSection_def Let_def recommendation_section_def grid_section_def)
  then show ?thesis
    unfolding section_saves using release_card_links(1) artifact_card_links(2) grid fallback_links(1)
    by (fastforce simp: verification_links)
qed

section \<open>Lemmas: where the links lead\<close>

text \<open>The address of a regular file that the site publishes under \<open>public/downloads\<close>.\<close>

definition download_file :: "fs_node \<Rightarrow> string \<Rightarrow> bool" where
  "download_file cwd h \<longleftrightarrow>
     (\<exists>tag name n. h = download_href tag name \<and>
        fs_path cwd [''public'', ''downloads'', tag, name] = Some n \<and> is_file n)"

text \<open>Every checksum file is named after the file that it names.\<close>

definition names_its_file :: "string \<times> fs_node \<Rightarrow> bool" where
  "names_its_file f \<longleftrightarrow> (case sha_of f of None \<Rightarrow> True | Some (h, name) \<Rightarrow> fst f = name @ ''.sha256'')"

definition checksums_named :: "fs_node \<Rightarrow> bool" where
  "checksums_named cwd \<longleftrightarrow>
     (\<forall>tag files. fs_readdir (fs_path cwd [''public'', ''downloads'', tag]) = Some files \<longrightarrow> (\<forall>f \<in> set files. names_its_file f))"

lemma release_source:
  assumes "r \<in> set (getLocalReleases loc cwd)"
  shows "\<exists>dir. fs_path cwd [''public'', ''downloads'', lr_tag r] = Some dir \<and> readRelease dir (lr_tag r) = Some r"
proof -
  from assms obtain dl entries rs where d: "fs_path cwd [''public'', ''downloads''] = Some dl"
    and rs: "map_or_throw (release_in dl) (versionDirs loc entries) = Some rs" "r \<in> set rs"
    by (auto simp: getLocalReleases_def simp del: fs_path.simps split: option.split_asm dest!: sym [of "Some _"])
  from rs have "Some r \<in> set (map (release_in dl) (versionDirs loc entries))" by (simp add: map_or_throw_Some)
  then obtain tag dir where t: "fs_child dl tag = Some dir" "readRelease dir tag = Some r"
    by (auto simp: release_in_def split: option.splits)
  moreover have "lr_tag r = tag" using t(2) by (auto simp: readRelease_def split: option.splits)
  ultimately show ?thesis using d by (auto split: option.splits)
qed

lemma release_files:
  assumes "readRelease dir tag = Some r"
  shows "\<exists>files. fs_readdir (Some dir) = Some files \<and>
    (\<forall>a \<in> set (lr_artifacts r). ra_href a = download_href tag (ra_fileName a) \<and>
       (\<exists>n. (ra_fileName a, n) \<in> set files \<and> is_file n) \<and>
       (\<forall>h. ra_sha256Href a = Some h \<longrightarrow> h = download_href tag (ra_fileName a @ ''.sha256'') \<and>
          map_get (shaByFile files) (ra_fileName a) \<noteq> None)) \<and>
    rv_signatureHref (lr_verification r) = href_if_present tag files ''checksums.sig'' \<and>
    rv_keyHref (lr_verification r) = href_if_present tag files ''checksums.pub''"
proof -
  from assms obtain files where f: "fs_readdir (Some dir) = Some files"
    and arts: "map (mk_artifact tag (shaByFile files)) (filter is_artifact files) = map Some (lr_artifacts r)"
    and v: "rv_signatureHref (lr_verification r) = href_if_present tag files ''checksums.sig''"
      "rv_keyHref (lr_verification r) = href_if_present tag files ''checksums.pub''"
    by (auto simp: readRelease_def map_or_throw_Some split: option.splits)
  have "ra_href a = download_href tag (ra_fileName a) \<and> (\<exists>n. (ra_fileName a, n) \<in> set files \<and> is_file n) \<and>
      (\<forall>h. ra_sha256Href a = Some h \<longrightarrow> h = download_href tag (ra_fileName a @ ''.sha256'') \<and>
         map_get (shaByFile files) (ra_fileName a) \<noteq> None)" if "a \<in> set (lr_artifacts r)" for a
  proof -
    from that have "Some a \<in> set (map (mk_artifact tag (shaByFile files)) (filter is_artifact files))"
      unfolding arts by simp
    then obtain e where e: "mk_artifact tag (shaByFile files) e = Some a" "e \<in> set files" "is_artifact e" by auto
    then have "(ra_fileName a, snd e) \<in> set files \<and> is_file (snd e)" by (auto simp: mk_artifact_def is_artifact_def)
    with e(1) show ?thesis by (auto simp: mk_artifact_def map_has_def map_get_def split: if_splits)
  qed
  with f v show ?thesis by blast
qed

text \<open>An entry of the directory of a release is found under its path.\<close>

lemma download_file_entry:
  assumes "fs_ok cwd" and "fs_path cwd [''public'', ''downloads'', tag] = Some dir"
    and "fs_readdir (Some dir) = Some files" and "(name, n) \<in> set files" and "is_file n"
  shows "download_file cwd (download_href tag name)"
proof -
  have "distinct (map fst files)" using fs_ok_readdir [OF fs_ok_path [OF assms(1,2)] assms(3)] by blast
  then have "fs_child dir name = Some n" using assms(4) by (simp add: fs_child_readdir [OF assms(3)])
  with assms(2) have "fs_path cwd [''public'', ''downloads'', tag, name] = Some n" by (auto split: option.splits)
  with assms(5) show ?thesis unfolding download_file_def by blast
qed

lemma href_if_present_file:
  assumes "fs_ok cwd" and "fs_path cwd [''public'', ''downloads'', tag] = Some dir"
    and "fs_readdir (Some dir) = Some files" and "h \<in> set (opt_list (href_if_present tag files name))"
  shows "download_file cwd h"
proof -
  from assms(4) obtain n where "(name, n) \<in> set files" "is_file n" "h = download_href tag name"
    by (auto simp: opt_list_def filled_def href_if_present_def list_ex_iff split: if_splits option.splits)
  with download_file_entry [OF assms(1-3)] show ?thesis by blast
qed

lemma artifact_links_files:
  assumes "fs_ok cwd" and "checksums_named cwd" and "fs_path cwd [''public'', ''downloads'', lr_tag r] = Some dir"
    and "readRelease dir (lr_tag r) = Some r" and "a \<in> set (lr_artifacts r)" and "h \<in> set (artifact_links (Some a))"
  shows "download_file cwd h"
proof -
  from release_files [OF assms(4)] assms(5) obtain files where f: "fs_readdir (Some dir) = Some files"
    and a: "ra_href a = download_href (lr_tag r) (ra_fileName a)" "\<exists>n. (ra_fileName a, n) \<in> set files \<and> is_file n"
    and sha: "\<forall>h. ra_sha256Href a = Some h \<longrightarrow> h = download_href (lr_tag r) (ra_fileName a @ ''.sha256'') \<and>
      map_get (shaByFile files) (ra_fileName a) \<noteq> None" by metis
  note entry = download_file_entry [OF assms(1,3) f]
  from assms(6) consider "h = ra_href a" | "ra_sha256Href a = Some h"
    by (auto simp: artifact_links_def opt_list_def filled_def split: option.splits if_splits)
  then show ?thesis
  proof cases
    case 1
    with a entry show ?thesis by auto
  next
    case 2
    with sha obtain hash where h: "h = download_href (lr_tag r) (ra_fileName a @ ''.sha256'')"
      "map_get (shaByFile files) (ra_fileName a) = Some hash" by auto
    from shaByFile_SomeD [OF h(2)] obtain e c where e: "e \<in> set files" "is_file (snd e)" "ends_with ''.sha256'' (fst e)"
      "fs_read (Some (snd e)) = Some c" "parseSha256FileContents c = Some (hash, ra_fileName a)" by blast
    then have "sha_of e = Some (hash, ra_fileName a)" by (simp add: sha_of_def)
    moreover have "names_its_file e" using assms(2,3) f e(1) unfolding checksums_named_def by metis
    ultimately have "fst e = ra_fileName a @ ''.sha256''" by (simp add: names_its_file_def)
    with e(1,2) h(1) entry [of "fst e" "snd e"] show ?thesis by (simp add: prod_eq_iff) (metis prod.collapse)
  qed
qed

lemma offered_artifact:
  assumes "gridArtifact (Some r) role p = Some a \<or> recommendedFor (Some r) p role = Some a"
  shows "a \<in> set (lr_artifacts r)"
  using assms by (auto simp: gridArtifact_def recommendedFor_def split: platform_key.splits if_splits
      dest: findArtifact_SomeD androidArtifact_SomeD)

lemma section_saves_origin:
  assumes "h \<in> set (saves (DownloadSection cp pathname releases base ui copied))"
  shows "\<exists>r \<in> set releases. (\<exists>a \<in> set (lr_artifacts r). h \<in> set (artifact_links (Some a))) \<or>
    h \<in> set (opt_list (rv_signatureHref (lr_verification r))) \<or> h \<in> set (opt_list (rv_keyHref (lr_verification r)))"
proof (cases "selectedRelease releases ui")
  case None
  then have "recommendedArtifact releases ui = None" "gridArtifact None role p = None" for role p
    by (auto simp: recommendedArtifact_def recommendedFor_def gridArtifact_def findArtifact_def androidArtifact_def
        split: platform_key.split)
  with assms None have False
    by (auto simp: section_saves artifact_card_links grid_card_links artifact_links_def all_saves_map split: if_splits)
  then show ?thesis ..
next
  case (Some r)
  have v: "verificationFiles releases ui = lr_verification r" by (simp add: verificationFiles_def Some)
  have "h \<in> set (artifact_links x) \<Longrightarrow> \<exists>a. x = Some a" for x by (cases x) (simp_all add: artifact_links_def)
  moreover from assms have "h \<in> set (saves (artifact_card (recommendedArtifact releases ui) (lr_verification r))) \<or>
      (\<exists>p. h \<in> set (saves (grid_card (Some r) (dl_role ui) p)))"
    by (auto simp: section_saves all_saves_map Some v)
  then have "h \<in> set (artifact_links (recommendedFor (Some r) (effectivePlatform ui) (dl_role ui))) \<or>
      h \<in> set (opt_list (rv_signatureHref (lr_verification r))) \<or> h \<in> set (opt_list (rv_keyHref (lr_verification r))) \<or>
      (\<exists>p. h \<in> set (artifact_links (gridArtifact (Some r) (dl_role ui) p)))"
    by (auto simp: artifact_card_links grid_card_links recommendedArtifact_def Some split: if_splits)
  ultimately show ?thesis using selectedRelease_mem [OF Some] offered_artifact by metis
qed

section \<open>Properties\<close>

text \<open>C5: no download link is dead: if every checksum file of the release directories is named after the
  file that it names, every link of the download section that saves a file leads to a regular file
  under \<open>public/downloads\<close>, in any state of the section and for any page.\<close>

theorem download_links_are_files:
  assumes "fs_ok cwd" and "checksums_named cwd"
    and "h \<in> set (saves (DownloadSection cp pathname (getLocalReleases loc cwd) base ui copied))"
  shows "download_file cwd h"
proof -
  from section_saves_origin [OF assms(3)] obtain r where r: "r \<in> set (getLocalReleases loc cwd)"
    and h: "(\<exists>a \<in> set (lr_artifacts r). h \<in> set (artifact_links (Some a))) \<or>
      h \<in> set (opt_list (rv_signatureHref (lr_verification r))) \<or> h \<in> set (opt_list (rv_keyHref (lr_verification r)))"
    by blast
  obtain dir where dir: "fs_path cwd [''public'', ''downloads'', lr_tag r] = Some dir" "readRelease dir (lr_tag r) = Some r"
    using release_source [OF r] by blast
  from release_files [OF dir(2)] obtain files where f: "fs_readdir (Some dir) = Some files"
    "rv_signatureHref (lr_verification r) = href_if_present (lr_tag r) files ''checksums.sig''"
    "rv_keyHref (lr_verification r) = href_if_present (lr_tag r) files ''checksums.pub''" by blast
  from h show ?thesis
    using artifact_links_files [OF assms(1,2) dir] href_if_present_file [OF assms(1) dir(1) f(1)] f(2,3) by auto
qed

definition sample_bundle :: fs_dir where
  "sample_bundle =
     [(''sunlionet-inside-v1.0.0-linux-amd64.tar.gz'', File None 2048 0),
      (''sunlionet-inside-v1.0.0-linux-amd64.tar.gz.sha256'',
         File (Some (replicate 64 (CHR ''a'') @ ''  sunlionet-inside-v1.0.0-linux-amd64.tar.gz'')) 110 0)]"

definition sample_cwd :: fs_node where
  "sample_cwd = Dir [(''public'', Dir [(''downloads'', Dir [(''v1.0.0'', Dir sample_bundle)])])]"

lemma sample_cwd_checksums: "checksums_named sample_cwd"
proof -
  have "list_all names_its_file sample_bundle" by code_simp
  moreover have "fs_readdir (fs_path sample_cwd [''public'', ''downloads'', tag]) =
      (if tag = ''v1.0.0'' then Some sample_bundle else None)" for tag
    by (simp add: sample_cwd_def fs_child_def fs_readdir_def)
  ultimately show ?thesis by (simp add: checksums_named_def list_all_iff)
qed

lemma sample_cwd_links:
  "map artifact_links (map (gridArtifact (selectedRelease (getLocalReleases (\<lambda>_ _. 0) sample_cwd) sample_ui) RoleInside) [PLinuxAmd64]) =
     [[''/downloads/v1.0.0/sunlionet-inside-v1.0.0-linux-amd64.tar.gz'',
       ''/downloads/v1.0.0/sunlionet-inside-v1.0.0-linux-amd64.tar.gz.sha256'']]"
  by code_simp

theorem download_links_are_files_witness:
  "download_file sample_cwd ''/downloads/v1.0.0/sunlionet-inside-v1.0.0-linux-amd64.tar.gz.sha256''"
proof -
  let ?h = "''/downloads/v1.0.0/sunlionet-inside-v1.0.0-linux-amd64.tar.gz.sha256''"
  let ?rs = "getLocalReleases (\<lambda>_ _. 0) sample_cwd"
  have "?h \<in> set (saves (grid_card (selectedRelease ?rs sample_ui) (dl_role sample_ui) PLinuxAmd64))"
    using sample_cwd_links by (simp add: grid_card_links sample_ui_def)
  then have "?h \<in> set (saves (DownloadSection cp None ?rs None sample_ui copied))" for cp copied
    by (simp add: section_saves all_saves_map platformChoices_def)
  moreover have "fs_ok sample_cwd" by code_simp
  ultimately show ?thesis using download_links_are_files sample_cwd_checksums by blast
qed

text \<open>Without that hypothesis a link can be dead: a checksum file under another name makes the section link
  a file that is not there.\<close>

lemma misnamed_checksum_dead_link:
  "let r = the (readRelease (Dir [(''a.zip'', File None 7 0), (''sums.sha256'', File (Some (replicate 64 (CHR ''a'') @ ''  a.zip'')) 71 0)]) ''v1.0.0'')
   in map ra_sha256Href (lr_artifacts r) = [Some ''/downloads/v1.0.0/a.zip.sha256'']"
  by code_simp

text \<open>The events that the controls of a state can produce.\<close>

definition offers :: "local_release list \<Rightarrow> download_event \<Rightarrow> bool" where
  "offers releases e =
     (case e of
        ChooseRole _ \<Rightarrow> True
      | ChoosePlatform p \<Rightarrow> p = PUnknown \<or> p \<in> set platformChoices
      | ChooseTag t \<Rightarrow> t \<in> lr_tag ` set releases)"

lemma download_steps_invariant:
  assumes "list_all (offers releases) es" and "dl_selectedTag ui \<in> lr_tag ` set releases"
    and "dl_manualPlatform ui \<in> insert PUnknown (set platformChoices)"
  shows "dl_selectedTag (foldl download_step ui es) \<in> lr_tag ` set releases \<and>
    dl_manualPlatform (foldl download_step ui es) \<in> insert PUnknown (set platformChoices)"
  using assms
proof (induction es arbitrary: ui)
  case Nil
  then show ?case by simp
next
  case (Cons e es)
  have "dl_selectedTag (download_step ui e) \<in> lr_tag ` set releases \<and>
      dl_manualPlatform (download_step ui e) \<in> insert PUnknown (set platformChoices)"
    using Cons.prems by (cases e) (auto simp: download_step_def offers_def)
  with Cons.IH [of "download_step ui e"] Cons.prems(1) show ?case by simp
qed



end
