(* ===== verification/Site_Pages.thy ===== *)
theory Site_Pages
  imports Download_View
begin

text \<open>
  The pages without state of their own (\<open>app/*/page.tsx\<close>, which the routes under
  \<open>app/[lang]\<close> show with their language): what each shows for the language segment of its
  address, \<open>None\<close> on the routes without one. \<open>cp_site\<close> and \<open>cp_list\<close>
  are the texts and lists of \<open>content/siteCopy.ts\<close>, \<open>cp_ui\<close> those of
  \<open>lib/uiCopy.ts\<close>.
\<close>

definition arrow :: string where "arrow = utf8 [226, 134, 146]"
definition right_quote :: string where "right_quote = utf8 [226, 128, 153]"
definition nb_hyphen :: string where "nb_hyphen = utf8 [226, 128, 145]"
definition en_dash :: string where "en_dash = utf8 [226, 128, 147]"

definition para :: "string \<Rightarrow> node" where
  "para s = Elem ''p'' [] [Text s]"

definition item :: "string \<Rightarrow> node" where
  "item s = Elem ''li'' [] [Text s]"

definition info :: "string \<Rightarrow> string \<Rightarrow> string \<Rightarrow> node" where
  "info title desc href = InfoCard title (text_of desc) href [] False []"

lemma inert_text [simp]:
  "hrefs (para s) = []" "saves (para s) = []" "hrefs (item s) = []" "saves (item s) = []"
  "all_hrefs (map para ss) = []" "all_hrefs (map item ss) = []"
  "hrefs (info t d h) = (if h = [] then [] else [h])" "saves (info t d h) = []"
  by (simp_all add: para_def item_def info_def inert_reads)

section \<open>Start\<close>

text \<open>\<open>app/[lang]/page.tsx\<close>.\<close>

definition home_header :: "site_copy \<Rightarrow> ui_lang \<Rightarrow> string \<Rightarrow> node" where
  "home_header cp lang base =
     PageHeader [Text ''SunLionet''] (cp_site cp lang ''home.headline'') (text_of (cp_site cp lang ''home.subheadline''))
       [route_link (base @ ''/installation'') [Text (cp_site cp lang ''home.cta.getStarted'')],
        route_link (base @ ''/manifest'') [Text (cp_site cp lang ''home.cta.readManifest'')],
        route_link (base @ ''/download'') [Text (cp_site cp lang ''home.cta.download'')]]"

definition safety_notice :: "site_copy \<Rightarrow> ui_lang \<Rightarrow> string \<Rightarrow> node" where
  "safety_notice cp lang base =
     Callout (tx cp ''home'' lang ''Safety notice'') ToneWarning
       [Text (tx cp ''home'' lang ''Assume devices can be seized and traffic can be monitored. Prefer minimal logs, verify downloaded artifacts, and follow the operational safety guidance in ''),
        route_link (base @ ''/docs/user/safety'') [Text ''/docs/user/safety''], Text (tx cp ''home'' lang ''.'')]"

definition home_parts :: "site_copy \<Rightarrow> ui_lang \<Rightarrow> node" where
  "home_parts cp lang =
     Elem ''section'' []
       [SectionHeader (tx cp ''home'' lang ''Two-part architecture'')
          (text_of (tx cp ''home'' lang ''Inside runs the local detector/policy loop. Outside produces bundles and shares them through trusted channels.'')) [],
        dv [InfoCard ''SunLionet Inside''
              (text_of (tx cp ''home'' lang (''Detector '' @ arrow @ '' deterministic policy engine '' @ arrow @ '' sing-box reload. Operates locally and prioritizes predictable behavior.'')))
              [] (text_of (tx cp ''home'' lang ''On-device'')) False [],
            InfoCard ''SunLionet Outside''
              (text_of (tx cp ''home'' lang (''Discovery '' @ arrow @ '' validation '' @ arrow @ '' signed+encrypted bundles. Produces artifacts intended for controlled delivery (e.g., Signal).'')))
              [] (text_of (tx cp ''home'' lang ''Supporter node'')) False []]]"

definition home_abilities :: "site_copy \<Rightarrow> ui_lang \<Rightarrow> node" where
  "home_abilities cp lang =
     (let t = tx cp ''home'' lang in
      Elem ''section'' []
        [SectionHeader (t ''What it does'') (text_of (t ''A small set of capabilities, designed to be observable and testable.'')) [],
         dv [info (t ''DPI / blocking signals'') (t ''Collects local signals (DNS poisoning, resets, injection, UDP drops) and emits events.'') [],
             info (t ''Protocol/profile rotation'') (t ''Ranks candidate profiles deterministically and switches when the network changes.'') [],
             info (t ''Bundle verification'') (t ''Outside generates bundles; Inside verifies signatures and applies only trusted configs.'') [],
             info (t ''Offline transfer paths'') (t ''Designed to keep working during partial outages via out-of-band transfer.'') []]])"

definition home_start :: "site_copy \<Rightarrow> ui_lang \<Rightarrow> string \<Rightarrow> node" where
  "home_start cp lang base =
     (let t = tx cp ''home'' lang in
      Elem ''section'' []
        [SectionHeader (t ''Start here'') (text_of (t ''Use the website pages for quick orientation; use the repository-backed docs for depth.'')) [],
         dv [info (t ''Installation'') (t ''Common install paths and SHA256 verification examples.'') (base @ ''/installation''),
             info (t ''Documentation'') (t ''Repository-backed docs with a table of contents and stable URLs.'') (base @ ''/docs''),
             info (t ''Architecture'') (t ''Inside vs Outside data flow, components, and operational model.'') (base @ ''/architecture'')]])"

definition home_contribute :: "site_copy \<Rightarrow> ui_lang \<Rightarrow> string \<Rightarrow> node" where
  "home_contribute cp lang base =
     (let t = tx cp ''home'' lang in
      Elem ''section'' []
        [SectionHeader (t ''Contribute & cooperate'') (text_of (t ''Keep changes small, reviewable, and privacy-preserving. No personal data required.'')) [],
         dv [info (t ''Run Outside and deliver bundles'') (t ''Supporters can run SunLionet Outside and transfer artifacts through trusted channels.'') [],
             info (t ''Report field observations'') (t ''Share anonymized notes about new blocks/resets without linking personal identifiers.'') [],
             info (t ''Contribute code (AGPL-3.0)'') (t ''Anonymous GitHub contributions are welcome. Prefer incremental PRs with tests.'') [],
             info (t ''Support'') (t ''Anonymous donation options and other low-risk ways to help.'') (base @ ''/support'')]])"

definition home_license :: "site_copy \<Rightarrow> ui_lang \<Rightarrow> node" where
  "home_license cp lang =
     (let t = tx cp ''home'' lang in
      Elem ''section'' []
        [SectionHeader (t ''License & responsibility'') (text_of (t ''Understand your local laws and your personal risk model before running.'')) [],
         dv [dv [Callout (t ''License'') ToneInfo [Text (t ''SunLionet is licensed under AGPL-3.0.'')],
                 Callout (t ''Disclaimer'') ToneDefault
                   [Text (t ''The responsibility for installing and operating this software lies with the person who runs it. Use at your own risk and in accordance with your local laws.'')]]]])"

definition lang_attrs :: "ui_lang \<Rightarrow> (string \<times> string) list" where
  "lang_attrs lang =
     (''dir'', if lang = LangFa then ''rtl'' else ''ltr'') # (if lang = LangFa then [(''class'', ''font-fa'')] else [])"

definition HomePage ::
  "site_copy \<Rightarrow> string option \<Rightarrow> local_release list \<Rightarrow> string \<Rightarrow> download_ui \<Rightarrow> (nat \<Rightarrow> bool) \<Rightarrow> node" where
  "HomePage cp pathname releases plang ui copied =
     (let lang = resolveUILang (Some plang); base = ''/'' @ lang_code lang in
      Elem ''div'' (lang_attrs lang)
        [dv [dv [home_header cp lang base, safety_notice cp lang base, home_parts cp lang, home_abilities cp lang,
           home_start cp lang base,
           Elem ''div'' [(''id'', ''downloads'')] [DownloadSection cp pathname releases (Some base) ui copied],
           home_contribute cp lang base, home_license cp lang]]])"

text \<open>\<open>app/page.tsx\<close>: the language of the browser decides. The test
  \<open>/(^|,)\s*fa(?:-|;|,|$)/i\<close> is tried at the start and after every comma.\<close>

definition fa_token :: "string \<Rightarrow> bool" where
  "fa_token s =
     (let w = dropWhile is_ws s in
      to_lower (take 2 w) = ''fa'' \<and> (drop 2 w = [] \<or> hd (drop 2 w) \<in> {CHR ''-'', CHR '';'', CHR '',''}))"

fun fa_after_comma :: "string \<Rightarrow> bool" where
  "fa_after_comma [] = False"
| "fa_after_comma (c # s) = ((c = CHR '','' \<and> fa_token s) \<or> fa_after_comma s)"

definition prefersFa :: "string \<Rightarrow> bool" where
  "prefersFa s \<longleftrightarrow> fa_token s \<or> fa_after_comma s"

definition RootPage :: "string option \<Rightarrow> string" where
  "RootPage acceptLanguage = (if prefersFa (case acceptLanguage of Some s \<Rightarrow> s | None \<Rightarrow> []) then ''/fa'' else ''/en'')"

section \<open>Manifest, technology, security\<close>

definition ManifestPage :: "site_copy \<Rightarrow> string option \<Rightarrow> node" where
  "ManifestPage cp plang =
     (let lang = resolveUILang plang; base = page_base plang; copy = (\<lambda>k. cp_site cp lang (''manifest.'' @ k));
          list = (\<lambda>k. cp_list cp lang (''manifest.'' @ k)) in
      dv [dv [PageHeader [Text ''SunLionet''] (copy ''title'') (text_of (copy ''intro''))
            [route_link (base @ ''/installation'') [Text (cp_site cp lang ''home.cta.getStarted'')],
             route_link (base @ ''/download'') [Text (cp_site cp lang ''home.cta.download'')]],
          Elem ''section'' []
            [dv (map para (list ''body'') @
               [Elem ''ul'' [] (map item (list ''bullets'')), para (copy ''dedication''), dv (map para (list ''closing''))])]]])"

definition bullet_section :: "string list \<Rightarrow> node" where
  "bullet_section bs = Elem ''section'' [] [Elem ''ul'' [] (map item bs)]"

definition TechnologyPage :: "site_copy \<Rightarrow> string option \<Rightarrow> node" where
  "TechnologyPage cp plang =
     (let lang = resolveUILang plang; base = page_base plang in
      dv [dv [PageHeader [Text ''SunLionet''] (cp_site cp lang ''technology.title'') (text_of (cp_site cp lang ''technology.subtitle''))
            [route_link (base @ ''/architecture'') [Text (cp_site cp lang ''nav.architecture'')],
             route_link (base @ ''/download'') [Text (cp_site cp lang ''nav.download'')]],
          bullet_section (cp_list cp lang ''technology.bullets'')]])"

definition SecurityPage :: "site_copy \<Rightarrow> string option \<Rightarrow> node" where
  "SecurityPage cp plang =
     (let lang = resolveUILang plang; base = page_base plang in
      dv [dv [PageHeader [Text ''SunLionet''] (cp_site cp lang ''security.title'') (text_of (cp_site cp lang ''security.subtitle''))
            [route_link (base @ ''/docs/user/safety'') [Text (tx cp ''security'' lang ''Safety guide'')],
             route_link (base @ ''/download'') [Text (cp_site cp lang ''nav.download'')]],
          bullet_section (cp_list cp lang ''security.bullets'')]])"

section \<open>Roadmap and community\<close>

definition roadmap_items :: "(string \<times> string) list" where
  "roadmap_items =
     [(''Mesh transfer during blackouts'',
       ''Bluetooth/Wi'' @ nb_hyphen @ ''Fi Direct local exchange of signed, encrypted seed bundles when the internet is unavailable.''),
      (''Bounded advisor tuning (offline)'',
       ''Synthetic-data fine-tuning for the local advisor to improve profile selection without any external API calls.''),
      (''Android VPN wrapper'',
       ''Separate Android app (VpnService + foreground service) that embeds the Inside engine and exposes a safe UI.''),
      (''Release automation'', ''CI builds for all targets, checksum generation, and reproducible build steps.'')]"

definition RoadmapPage :: "string option \<Rightarrow> node" where
  "RoadmapPage plang =
     dv [dv [PageHeader [] ''Roadmap'' [Text ''Near-term work that improves safety, uptime, verification, and offline survivability.'']
           [route_link (page_base plang @ ''/docs/governance/model'') [Text ''Governance model'']],
         dv (map (\<lambda>i. info (fst i) (snd i) []) roadmap_items)]]"

definition CommunityPage :: "site_copy \<Rightarrow> string option \<Rightarrow> node" where
  "CommunityPage cp plang =
     (let lang = resolveUILang plang; base = page_base plang; t = tx cp ''community'' lang in
      dv [dv [PageHeader [Text ''SunLionet''] (cp_site cp lang ''community.title'') (text_of (cp_site cp lang ''community.intro''))
            [route_link (base @ ''/support'') [Text (cp_site cp lang ''nav.support'')],
             new_tab_link ''noopener noreferrer'' githubRepo [Text ''GitHub'']],
          Elem ''section'' []
            [info (t ''Contribute code'') (t ''The project is open-source. Small, reviewable pull requests help the most.'') githubRepo,
             info (t ''Run Outside and deliver bundles'') (t ''If you are on a more stable network, you can run Outside and deliver artifacts through trusted channels.'') [],
             info (t ''Share field observations'') (t ''Anonymous reports about new blocking patterns help improve detection and response.'') (base @ ''/docs/user/safety''),
             info (t ''Share the project'') (t ''Share the download or installation page with trusted contacts.'') (base @ ''/download'')]]])"

section \<open>Support\<close>

text \<open>\<open>config/support.ts\<close>: a value of the environment, if set, or the one written there.\<close>

record support_env =
  sv_referralUrl :: "string option"
  sv_maxReward :: "string option"
  sv_qrImage :: "string option"
  sv_xmr :: "string option"
  sv_btc :: "string option"
  sv_usdt :: "string option"

definition revolutReferralUrl :: "support_env \<Rightarrow> string" where
  "revolutReferralUrl env =
     or_text (sv_referralUrl env) ''https://revolut.com/referral/?referral-code=mostafy1un!APR1-26-VR-DE&geo-redirect''"

definition revolutMaxReward :: "support_env \<Rightarrow> string" where
  "revolutMaxReward env = or_text (sv_maxReward env) ''$200''"

definition revolutQrImagePath :: "support_env \<Rightarrow> string" where
  "revolutQrImagePath env = or_text (sv_qrImage env) ''/support/revolut-aff-link-qr-code.png''"

definition donationAddresses :: "support_env \<Rightarrow> donation_address list" where
  "donationAddresses env =
     [\<lparr>da_symbol = ''XMR'', da_network = ''Monero'', da_address = or_text (sv_xmr env) ''YOUR_XMR_ADDRESS_HERE''\<rparr>,
      \<lparr>da_symbol = ''BTC'', da_network = ''Bitcoin'', da_address = or_text (sv_btc env) ''YOUR_BTC_ADDRESS_HERE''\<rparr>,
      \<lparr>da_symbol = ''USDT'', da_network = ''TRC20'', da_address = or_text (sv_usdt env) ''YOUR_USDT_TRC20_ADDRESS_HERE''\<rparr>]"

definition primaryQrValue :: "support_env \<Rightarrow> string" where
  "primaryQrValue env = (case donationAddresses env of a # _ \<Rightarrow> da_address a | [] \<Rightarrow> [])"

text \<open>\<open>components/RevolutReferralCard.tsx\<close>. A text with the reward in it is its three parts, of which
  the Persian one is built around the same reward.\<close>

definition referral_steps :: "string list" where
  "referral_steps =
     [''Open the link, sign up, and verify your identity.'', ''Add money to your account.'',
      ''Make the required qualifying transactions (usually a few small purchases).'']"

definition RevolutReferralCard :: "site_copy \<Rightarrow> ui_lang \<Rightarrow> string \<Rightarrow> string \<Rightarrow> string \<Rightarrow> node" where
  "RevolutReferralCard cp lang referralUrl maxRewardText qrImageSrc =
     (let t = tx cp ''revolut'' lang in
      Elem ''section'' []
        ([Elem ''h2'' [(''id'', ''revolut-referral-title'')] [Text (t ''Earn up to '' @ maxRewardText @ t '' with Revolut'')],
          para (if lang = LangFa then t ''Create a free Revolut account'' @ maxRewardText @ t ''you may earn up to''
            else ''Create a free Revolut account using our referral link. Complete the required steps and you may earn up to '' @
              maxRewardText @ ''. It'' @ right_quote @ ''s a win-win: you get the reward, and using our link helps sustain SunLionet.''),
          dv [new_tab_link ''noopener noreferrer'' referralUrl
            [Text (t ''Create Revolut Account & Earn up to '' @ maxRewardText)]]] @
         (if qrImageSrc \<noteq> [] then
            [dv [para (t ''Scan Revolut QR''),
                 new_tab_link ''noopener noreferrer'' referralUrl [Elem ''img'' [(''src'', qrImageSrc)] []],
                 para (t ''Tip: On mobile, tap the button above. On desktop, scan this QR with your phone.'')]]
          else []) @
         [Elem ''ol'' [] (map (\<lambda>s. item (t s)) referral_steps),
          para (t ''Terms and bonus amounts are set by Revolut and may vary by country, account eligibility, and active campaign. We only provide the referral link as one optional way to support the project indirectly. Using our link helps sustain development of SunLionet.'')]))"

definition support_crumbs :: "site_copy \<Rightarrow> ui_lang \<Rightarrow> string \<Rightarrow> node" where
  "support_crumbs cp lang base =
     Elem ''nav'' []
       [Elem ''ol'' []
          [Elem ''li'' [] [route_link (base @ ''/'') [Text (cp_ui cp lang ''supportPage.home'')]],
           item arrow, item (cp_ui cp lang ''supportPage.support'')]]"

definition support_intro :: "site_copy \<Rightarrow> ui_lang \<Rightarrow> node" where
  "support_intro cp lang =
     (let t = tx cp ''support'' lang in
      Elem ''section'' []
        [Elem ''h1'' [] [Text (t (''Support SunLionet '' @ en_dash @ '' Keep the Light On for Free Internet''))],
         para (t ''Every contribution helps maintain and improve the tool that bypasses censorship. You can support us while earning rewards yourself.''),
         para (t ''Supporting is optional. SunLionet remains fully free and open-source for everyone.'')])"

definition support_details :: "support_env \<Rightarrow> node list" where
  "support_details env =
     [Elem ''section'' []
        [Elem ''h2'' [] [Text ''Revolut Referral (Win-Win)''],
         para (''If you create a Revolut account from our referral link and complete the required steps, you may earn up to '' @
           revolutMaxReward env @ ''. Using our link also supports SunLionet indirectly.''),
         Elem ''ol'' [] (map item [''Sign up with the link and verify your identity.'', ''Add money to your account.'',
           ''Make the required qualifying transactions (usually a few small purchases).'']),
         para ''Terms and bonus amounts are set by Revolut and may vary. We only provide the referral link as one optional way to support the project indirectly.''],
      Elem ''section'' []
        [Elem ''h2'' [] [Text ''Direct Support via Cryptocurrency (Fully Anonymous)''],
         para (''Scan to donate BTC / XMR / USDT or copy the address. One-time or recurring '' @ en_dash @
           '' every satoshi helps keep SunLionet updated against new DPI techniques.'')],
      Elem ''section'' []
        [Elem ''h2'' [] [Text ''Other Support Options''],
         Elem ''ul'' []
           [item ''Run the Outside version and share fresh configs via Signal with trusted contacts.'',
            Elem ''li'' [] [Text ''Contribute code on '', new_tab_link ''noopener noreferrer'' githubRepo [Text ''GitHub (AGPL-3.0)''], Text ''.''],
            item ''Spread the word by sharing the landing page, docs, or architecture video.'']],
      Elem ''section'' []
        [Elem ''h2'' [] [Text ''Transparency & Responsibility''],
         para ''SunLionet is 100% free and open-source. All donations go directly to development, server costs for testing, and maintaining config seeds. No company or organization takes a cut.'',
         para ''Responsibility for using SunLionet lies with the user. The goal is bypassing blockers of the free flow of information.'']]"

definition SupportPage :: "site_copy \<Rightarrow> support_env \<Rightarrow> string option \<Rightarrow> string option \<Rightarrow> node" where
  "SupportPage cp env plang copied =
     (let lang = resolveUILang plang in
      dv ([support_crumbs cp lang (page_base plang), support_intro cp lang,
           Elem ''section'' []
             [RevolutReferralCard cp lang (revolutReferralUrl env) (revolutMaxReward env) (revolutQrImagePath env),
              DonationQRCard cp lang (primaryQrValue env) (donationAddresses env) copied]] @
          support_details env))"

section \<open>Architecture, video, not found\<close>

definition info_list :: "string \<Rightarrow> string \<Rightarrow> bool \<Rightarrow> string list \<Rightarrow> node" where
  "info_list title eyebrow panel ss = InfoCard title [Elem ''ul'' [] (map item ss)] [] (text_of eyebrow) panel []"

definition ArchitecturePage :: "string option \<Rightarrow> node" where
  "ArchitecturePage plang =
     (let base = page_base plang in
      dv [dv [PageHeader [] ''Architecture''
            [Text (''SunLionet separates the data plane (sing-box) from the local control plane (detector '' @ arrow @ '' policy engine '' @ arrow @ '' optional bounded advisor). Two binaries cooperate: Inside (restricted networks) and Outside (stable networks) for curated delivery via trusted channels.'')]
            [route_link (base @ ''/docs/architecture'') [Text ''Read full doc''], route_link (base @ ''/download'') [Text ''Download'']],
          Elem ''section'' []
            [SectionHeader ''Planes'' [Text ''A strict separation keeps the tunnel simple and the decision logic auditable.''] [],
             dv [info_list ''Data plane'' ''Network'' False
                   [''sing-box runs the tunnel/outbound.'', ''Atomic reload applies new config without losing process state.'',
                    ''No telemetry or external control channel required.''],
                 info_list ''Control plane'' ''Local'' False
                   [''Detector emits privacy-safe events (no domains, bounded buffer).'',
                    ''Policy Engine resolves routine cases deterministically.'',
                    ''Advisor is invoked only for ambiguous multi-signal cases.'']]],
          Elem ''section'' []
            [SectionHeader ''Coordination'' [Text ''Distribution stays peer-to-peer to reduce blocking and central points of failure.''] [],
             info_list ''Delivery model'' [] True
               [''Signal bundles: Outside '' @ arrow @ '' Inside signed + encrypted profile delivery.'',
                ''Offline mesh: Bluetooth / Wi'' @ nb_hyphen @ ''Fi Direct for local transfer during partial outages.'',
                ''No central seed API: the website never hosts live proxy seeds.'']],
          Elem ''section'' []
            [SectionHeader ''Flow'' [Text (''Core loop: observe '' @ arrow @ '' decide '' @ arrow @ '' apply '' @ arrow @ '' measure.'')] [],
             dv [InfoCard ''Detector'' [Text (''Active probes + passive stats '' @ arrow @ '' event stream with jitter and budgets.'')] [] [Text ''Signals''] False [],
                 InfoCard ''Policy engine'' [Text ''Scores and ranks profiles, applies switch/cooldown rules and diversity.''] [] [Text ''Deterministic''] False [],
                 InfoCard ''Supervisor'' [Text (''Generates config '' @ arrow @ '' atomic reload '' @ arrow @ '' updates health metrics.'')] [] [Text ''Apply''] False []]]]])"

definition video_cards :: "string \<Rightarrow> (string \<times> string \<times> string) list" where
  "video_cards base =
     [(base @ ''/docs'', ''Docs'', ''Full documentation and guides.''),
      (base @ ''/architecture'', ''Architecture'', ''Inside vs Outside design and data flow.''),
      (base @ ''/installation'', ''Installation'', ''Step-by-step setup.''),
      (base @ ''/roadmap'', ''Roadmap'', ''Planned features and milestones.'')]"

definition VideoPage :: "string option \<Rightarrow> node" where
  "VideoPage plang =
     dv [Elem ''h1'' [] [Text ''Video''],
       para (''SunLionet overview video (local file, no telemetry). If the player doesn'' @ right_quote @ ''t load, use the direct download link below.''),
       dv [Elem ''video'' [(''src'', ''/media/SunLionet.mp4'')] [], dv [save_link ''/media/SunLionet.mp4'' [Text ''Download video'']]],
       dv [Elem ''h2'' [] [Text ''More about the project''],
           para ''Learn how SunLionet works, how to install it, and where to find the full documentation.'',
           dv (map (\<lambda>(h, t, d). route_link h [dv [Text t], dv [Text d]]) (video_cards (page_base plang))),
           dv [new_tab_link ''noreferrer'' githubRepo [Text ''View the GitHub repository'']]]]"

definition NotFoundPage :: node where
  "NotFoundPage =
     dv [Elem ''h1'' [] [Text ''Page not found''],
       para ''If you followed a download link, visit the Download page to ensure the artifact exists for this release.'',
       dv [route_link ''/'' [Text ''Home''], route_link ''/download'' [Text ''Download'']]]"

section \<open>Lemmas and property\<close>

text \<open>One language of the header.\<close>

definition names_farsi :: "string \<Rightarrow> bool" where
  "names_farsi part =
     (let w = dropWhile is_ws part in to_lower (take 2 w) = ''fa'' \<and> (drop 2 w = [] \<or> hd (drop 2 w) \<in> {CHR ''-'', CHR '';''}))"

lemma fa_token_part: "fa_token s \<longleftrightarrow> names_farsi (hd (split_on (CHR '','') s))"
proof -
  let ?cut = "takeWhile (\<lambda>c. c \<noteq> CHR '','')"
  have blank: "dropWhile is_ws (?cut s) = ?cut (dropWhile is_ws s)"
  proof (induction s)
    case (Cons c s)
    have "\<not> is_ws (CHR '','')" by code_simp
    with Cons show ?case by (cases "c = CHR '',''") auto
  qed simp
  have comma: "lower_char (CHR '','') = CHR '',''" by code_simp
  have "to_lower (take 2 w) = ''fa'' \<and> (drop 2 w = [] \<or> hd (drop 2 w) \<in> {CHR ''-'', CHR '';'', CHR '',''}) \<longleftrightarrow>
      to_lower (take 2 (?cut w)) = ''fa'' \<and> (drop 2 (?cut w) = [] \<or> hd (drop 2 (?cut w)) \<in> {CHR ''-'', CHR '';''})" for w
  proof (cases w rule: list.exhaust)
    case a: (Cons a v)
    show ?thesis
    proof (cases v)
      case b: (Cons b r)
      show ?thesis using comma by (cases r) (auto simp: a b to_lower_def)
    qed (simp add: a to_lower_def)
  qed (simp add: to_lower_def)
  then show ?thesis by (simp add: fa_token_def names_farsi_def hd_split_on blank Let_def)
qed

lemma fa_after_comma_parts: "fa_after_comma s \<longleftrightarrow> (\<exists>part \<in> set (tl (split_on (CHR '','') s)). names_farsi part)"
proof (induction s)
  case Nil
  then show ?case by simp
next
  case (Cons c s)
  show ?case
  proof (cases "c = CHR '',''")
    case True
    have "set (split_on (CHR '','') s) = insert (hd (split_on (CHR '','') s)) (set (tl (split_on (CHR '','') s)))"
      by (cases "split_on (CHR '','') s") auto
    with True Cons fa_token_part show ?thesis by auto
  next
    case False
    with Cons show ?thesis by (simp add: Let_def split: list.split)
  qed
qed

text \<open>C40: the start page without a language leads to the Persian one exactly if one of the languages that the
  browser accepts, whatever its place or weight in the list, is Persian.\<close>

theorem root_language:
  "RootPage accept =
     (if \<exists>part \<in> set (split_on (CHR '','') (case accept of None \<Rightarrow> [] | Some s \<Rightarrow> s)). names_farsi part
      then ''/fa'' else ''/en'')"
proof -
  have "prefersFa s \<longleftrightarrow> (\<exists>part \<in> set (split_on (CHR '','') s). names_farsi part)" for s
  proof -
    have "set (split_on (CHR '','') s) = insert (hd (split_on (CHR '','') s)) (set (tl (split_on (CHR '','') s)))"
      by (cases "split_on (CHR '','') s") auto
    then show ?thesis by (auto simp: prefersFa_def fa_token_part fa_after_comma_parts)
  qed
  then show ?thesis by (simp add: RootPage_def)
qed

text \<open>So a reader who prefers English and merely accepts Persian, with the least weight, gets the Persian site.\<close>

lemma weight_ignored: "RootPage (Some ''en-US,en;q=0.9,fa;q=0.1'') = ''/fa''"
  by code_simp

end
