(* ===== verification/Site_Frame.thy ===== *)
theory Site_Frame
  imports Site_Pages
begin

text \<open>
  What surrounds every page: the header with its menu (\<open>components/SiteHeader.tsx\<close>, whose
  addresses are computed in \<open>Site_Locale\<close>), the theme switch
  (\<open>components/ThemeToggle.tsx\<close>), the footer with the latest release
  (\<open>components/SiteFooter.tsx\<close>) and the layouts. The footer reads the directory of the
  downloads itself; its own copies of the version parser and comparison are
  those of \<open>lib/releases/local.ts\<close>.
\<close>

section \<open>Header\<close>

datatype header_event = MenuButton | LogoLink | BarLink | MenuLink

definition header_step :: "bool \<Rightarrow> header_event \<Rightarrow> bool" where
  "header_step menu e = (case e of MenuButton \<Rightarrow> \<not> menu | LogoLink \<Rightarrow> False | BarLink \<Rightarrow> menu | MenuLink \<Rightarrow> False)"

definition navItems :: "(string \<times> string) list" where
  "navItems = [(''/'', ''home''), (''/manifest'', ''manifest''), (''/technology'', ''technology''), (''/security'', ''security''),
     (''/docs'', ''docs''), (''/blog'', ''blog''), (''/updates'', ''updates''), (''/download'', ''download''),
     (''/architecture'', ''architecture''), (''/dashboard'', ''dashboard''), (''/roadmap'', ''roadmap''),
     (''/community'', ''community''), (''/support'', ''support'')]"

lemma nav_hrefs_items: "map fst navItems = nav_hrefs"
  by (simp add: navItems_def nav_hrefs_def)

definition ThemeToggle :: "theme \<Rightarrow> node" where
  "ThemeToggle th =
     Elem ''button'' [(''aria-label'', ''Switch to '' @ theme_name (nextTheme th) @ '' mode'')]
       [Elem ''svg'' []
          (map (\<lambda>d. Elem ''path'' [(''d'', d)] [])
            (if th = Dark then [''M21 12.8A8.5 8.5 0 0 1 11.2 3a7 7 0 1 0 9.8 9.8Z'']
             else [''M12 17a5 5 0 1 0 0-10 5 5 0 0 0 0 10Z'',
               ''M12 1v3M12 20v3M4.22 4.22l2.12 2.12M17.66 17.66l2.12 2.12M1 12h3M20 12h3M4.22 19.78l2.12-2.12M17.66 6.34l2.12-2.12''])),
        sp [Text (if th = Dark then ''Dark'' else ''Light'')]]"

definition header_link :: "site_copy \<Rightarrow> string option \<Rightarrow> string \<Rightarrow> string \<times> string \<Rightarrow> node" where
  "header_link cp pathname base i =
     Elem ''a'' [(''href'', header_hrefFor pathname (fst i)),
        (''class'', cx [Some base, if activeHref pathname = fst i then Some ''text-foreground'' else None])]
       [Text (cp_ui cp (getUILangFromPathname pathname) (''nav.'' @ snd i))]"

definition SiteHeader :: "site_copy \<Rightarrow> string option \<Rightarrow> theme \<Rightarrow> bool \<Rightarrow> node" where
  "SiteHeader cp pathname th menu =
     (let lang = route_link (otherLangHref pathname) [Text (to_upper (lang_code (otherLang pathname)))];
          download = route_link (header_hrefFor pathname ''/download'')
            [Text (cp_ui cp (getUILangFromPathname pathname) ''nav.download'')] in
      Elem ''header'' []
        (dv [route_link (homeHref pathname) [sp [Elem ''img'' [(''alt'', ''SunLionet'')] []], Text ''SunLionet''],
             Elem ''nav'' [] (map (header_link cp pathname ''transition-colors hover:text-foreground'') navItems),
             dv [lang, ThemeToggle th, download, Elem ''button'' [(''aria-label'', ''Open navigation menu'')] []]] #
         (if menu then
            [dv [dv (map (header_link cp pathname ''rounded-lg border border-border bg-card/60 px-4 py-3 text-sm font-semibold text-muted-foreground hover:text-foreground hover:bg-card transition-colors'') navItems @
              [lang, download])]]
          else [])))"

section \<open>Footer\<close>

definition compareRelease :: "(string \<Rightarrow> string \<Rightarrow> int) \<Rightarrow> string \<Rightarrow> string \<Rightarrow> int" where
  "compareRelease loc a b =
     (case (parseSemver a, parseSemver b) of
        (Some pa, Some pb) \<Rightarrow>
          if sv_major pa \<noteq> sv_major pb then int (sv_major pa) - int (sv_major pb)
          else if sv_minor pa \<noteq> sv_minor pb then int (sv_minor pa) - int (sv_minor pb)
          else int (sv_patch pa) - int (sv_patch pb)
      | _ \<Rightarrow> loc a b)"

record release_info =
  ri_version :: string
  ri_buildRef :: "string option"

definition getLatestRelease :: "(string \<Rightarrow> string \<Rightarrow> int) \<Rightarrow> fs_node \<Rightarrow> release_info option" where
  "getLatestRelease loc cwd =
     (case fs_readdir (fs_path cwd [''public'', ''downloads'']) of
        None \<Rightarrow> None
      | Some entries \<Rightarrow>
          let versions = js_sort (compareRelease loc) (map fst (filter is_version_dir entries)) in
          if versions = [] then None
          else (case fs_read (fs_path cwd [''public'', ''downloads'', last versions, ''VERSION.txt'']) of
              None \<Rightarrow> None
            | Some c \<Rightarrow> Some \<lparr>ri_version = last versions, ri_buildRef = (if trim c = [] then None else Some (trim c))\<rparr>))"

definition middot :: string where "middot = utf8 [32, 194, 183, 32]"
definition copyright_sign :: string where "copyright_sign = utf8 [194, 169]"

definition LocalizedLink :: "string option \<Rightarrow> string \<Rightarrow> string \<Rightarrow> node" where
  "LocalizedLink pathname href s = route_link (localizedHref pathname href) [Text s]"

definition release_note :: "release_info \<Rightarrow> node" where
  "release_note r =
     dv (Text (''Release '' @ ri_version r) # when_some (\<lambda>b. Text (middot @ b)) (filled (ri_buildRef r)))"

definition SiteFooter :: "string option \<Rightarrow> release_info option \<Rightarrow> nat \<Rightarrow> node" where
  "SiteFooter pathname release year =
     Elem ''footer'' []
       [dv [dv [dv (dv [Text ''SunLionet''] #
                    Elem ''p'' [] [Text ''Offline-first, privacy-preserving DPI resistance with a dual Inside/Outside architecture. No accounts. No analytics. No live seed hosting on this website.''] #
                    when_some release_note release),
                dv [dv [Text ''Docs''], LocalizedLink pathname ''/docs'' ''Documentation'',
                    LocalizedLink pathname ''/docs/install'' ''Installation'',
                    LocalizedLink pathname ''/docs/architecture'' ''Architecture'',
                    LocalizedLink pathname ''/docs/threat-model'' ''Threat model''],
                dv [dv [Text ''Project''], LocalizedLink pathname ''/download'' ''Downloads'',
                    LocalizedLink pathname ''/support'' ''Support'', route_link githubRepo [Text ''GitHub''],
                    route_link (githubRepo @ ''/blob/main/LICENSE'') [Text ''License (AGPL-3.0)'']]],
            dv [dv [Text ''Safety note: treat local devices as potentially seized. Prefer minimal logs, verify downloads, and use trusted channels for seed delivery.''],
                dv [Text (copyright_sign @ '' '' @ show_nat year @ '' SunLionet contributors'')]]]]"

section \<open>Layouts\<close>

definition RootLayout ::
  "site_copy \<Rightarrow> string option \<Rightarrow> theme \<Rightarrow> bool \<Rightarrow> release_info option \<Rightarrow> nat \<Rightarrow> node list \<Rightarrow> node" where
  "RootLayout cp pathname th menu release year children =
     Elem ''html'' [(''lang'', ''en'')]
       [Elem ''head'' [] [Elem ''ThemeInitScript'' [] []],
        Elem ''body'' [] [SiteHeader cp pathname th menu, Elem ''main'' [] children, SiteFooter pathname release year]]"

definition LangLayout :: "string \<Rightarrow> node list \<Rightarrow> node" where
  "LangLayout plang children = Elem ''div'' (lang_attrs (resolveUILang (Some plang))) children"

definition dashboard_tabs :: "(string \<times> string) list" where
  "dashboard_tabs =
     [(''/dashboard/runtime'', ''Runtime''), (''/dashboard/global'', ''Global''), (''/dashboard/iran'', ''Iran Focus''),
      (''/dashboard/protocols'', ''Protocols''), (''/dashboard/releases'', ''Releases'')]"

definition DashboardLayout :: "node list \<Rightarrow> node" where
  "DashboardLayout children =
     dv [dv [dv [Elem ''h1'' [] [Text ''Dashboard''],
                 Elem ''p'' [] [Text ''Local runtime monitoring plus optional aggregate operator views (when a live feed is configured).'']],
             dv (map (\<lambda>t. route_link (fst t) [Text (snd t)]) dashboard_tabs)],
         dv children]"

definition DashboardIndex :: string where
  "DashboardIndex = ''/dashboard/runtime''"

section \<open>Lemmas\<close>

lemma compareRelease_eq: "compareRelease loc = compareReleaseAsc loc"
  by (intro ext) (simp add: compareRelease_def compareReleaseAsc_def)

text \<open>Under version numbers the order of the directories is already that of the releases.\<close>

lemma releases_in_order:
  assumes "fs_ok cwd" and "fs_path cwd [''public'', ''downloads''] = Some downloads"
    and "fs_readdir (Some downloads) = Some entries"
    and "\<forall>e \<in> set entries. is_version_dir e \<longrightarrow> parseSemver (fst e) \<noteq> None"
  shows "map lr_tag (getLocalReleases loc cwd) = rev (versionDirs loc entries)"
proof -
  obtain rs where rs: "getLocalReleases loc cwd = rev (js_sort (by_tag loc) rs)"
    "map lr_tag rs = versionDirs loc entries" using getLocalReleases_eq [OF assms(1-3)] by blast
  have "sorted_wrt (\<lambda>a b. compareReleaseAsc loc a b \<le> 0) (versionDirs loc entries)"
    unfolding versionDirs_def using assms(4) by (intro tags.sorted_js_sort) auto
  then have "sorted_wrt (\<lambda>a b. by_tag loc a b \<le> 0) rs"
    unfolding rs(2) [symmetric] by (simp add: by_tag_def sorted_wrt_map)
  then have "js_sort (by_tag loc) rs = rs" by (rule js_sort_sorted_id)
  with rs show ?thesis by (simp add: rev_map [symmetric])
qed

section \<open>Properties\<close>

text \<open>C20: the footer names the release that the download page offers first: if the names of the version
  directories are version numbers and the newest one has a readable \<open>VERSION.txt\<close>, the footer's
  version and build reference are those of the first release.\<close>

theorem footer_matches_downloads:
  assumes "fs_ok cwd" and "fs_path cwd [''public'', ''downloads''] = Some downloads"
    and "fs_readdir (Some downloads) = Some entries"
    and "\<forall>e \<in> set entries. is_version_dir e \<longrightarrow> parseSemver (fst e) \<noteq> None"
    and "getLocalReleases loc cwd = r # rs"
    and "fs_read (fs_path cwd [''public'', ''downloads'', lr_tag r, ''VERSION.txt'']) = Some c"
  shows "getLatestRelease loc cwd = Some \<lparr>ri_version = lr_tag r, ri_buildRef = lr_buildRef r\<rparr>"
proof -
  let ?vs = "versionDirs loc entries"
  have tags: "lr_tag r # map lr_tag rs = rev ?vs" using releases_in_order [OF assms(1-4), of loc] assms(5) by simp
  then have "?vs = rev (lr_tag r # map lr_tag rs)" by (metis rev_rev_ident)
  then have vs: "?vs \<noteq> []" "last ?vs = lr_tag r" by simp_all
  obtain dir where dir: "fs_path cwd [''public'', ''downloads'', lr_tag r] = Some dir" "readRelease dir (lr_tag r) = Some r"
    using release_source [of r loc cwd] assms(5) by auto
  then have "fs_path cwd [''public'', ''downloads'', lr_tag r, ''VERSION.txt''] = fs_child dir ''VERSION.txt''"
    by (auto split: option.splits)
  with assms(6) have c: "fs_read (fs_child dir ''VERSION.txt'') = Some c" by simp
  then have "fs_stat (fs_child dir ''VERSION.txt'') \<noteq> None"
    by (auto simp: fs_read_def fs_stat_def split: option.split_asm fs_node.split_asm)
  then have "fst (readVersion dir) = (if trim c = [] then None else Some (trim c))"
    using c by (auto simp: readVersion_def)
  moreover have "lr_buildRef r = fst (readVersion dir)" using dir(2)
    by (auto simp: readRelease_def split: option.splits dest!: arg_cong [of _ r lr_buildRef])
  moreover have "fs_readdir (fs_path cwd [''public'', ''downloads'']) = Some entries" using assms(2,3) by simp
  ultimately show ?thesis
    using vs assms(6) by (simp add: getLatestRelease_def compareRelease_eq versionDirs_def [symmetric] Let_def del: fs_path.simps)
qed

definition sample_published :: fs_dir where
  "sample_published =
     [(''v1.10.0'', Dir [(''VERSION.txt'', File (Some '' abc '') 5 0)]), (''v1.9.2'', Dir [])]"

theorem footer_matches_downloads_witness:
  "getLatestRelease (\<lambda>_ _. 0) (Dir [(''public'', Dir [(''downloads'', Dir sample_published)])]) =
     Some \<lparr>ri_version = ''v1.10.0'', ri_buildRef = Some ''abc''\<rparr>"
proof -
  let ?cwd = "Dir [(''public'', Dir [(''downloads'', Dir sample_published)])]"
  let ?loc = "\<lambda>_ _. 0"
  have ok: "fs_ok ?cwd" "fs_path ?cwd [''public'', ''downloads''] = Some (Dir sample_published)"
    "fs_readdir (Some (Dir sample_published)) = Some sample_published"
    "\<forall>e \<in> set sample_published. is_version_dir e \<longrightarrow> parseSemver (fst e) \<noteq> None" by code_simp+
  have "map (\<lambda>r. (lr_tag r, lr_buildRef r)) (getLocalReleases ?loc ?cwd) =
      [(''v1.10.0'', Some ''abc''), (''v1.9.2'', None)]" by code_simp
  then obtain r rs where r: "getLocalReleases ?loc ?cwd = r # rs" "lr_tag r = ''v1.10.0''" "lr_buildRef r = Some ''abc''"
    by auto
  have "fs_read (fs_path ?cwd [''public'', ''downloads'', lr_tag r, ''VERSION.txt'']) = Some '' abc ''"
    unfolding r(2) by code_simp
  from footer_matches_downloads [OF ok r(1) this] r show ?thesis by simp
qed

text \<open>Without the file the footer names no release, although the download page offers it.\<close>

lemma footer_without_version:
  "getLatestRelease (\<lambda>_ _. 0) (Dir [(''public'', Dir [(''downloads'', Dir [(''v1.0.0'', Dir [])])])]) = None"
  "map lr_tag (getLocalReleases (\<lambda>_ _. 0) (Dir [(''public'', Dir [(''downloads'', Dir [(''v1.0.0'', Dir [])])])])) = [''v1.0.0'']"
  by code_simp+

end
