(* ===== verification/Doc_Views.thy ===== *)
theory Doc_Views
  imports Doc_Pages Site_Frame
begin

text \<open>
  What the documentation, the blog and the updates show: the elements of a rendered document
  (\<open>lib/docs/markdown.tsx\<close>), the page around it with breadcrumbs and table of contents
  (\<open>app/docs/[...slug]/page.tsx\<close>, \<open>app/blog/[...slug]/page.tsx\<close> and the same for
  updates), the index pages, the list of all documents and the two layouts with the navigation. Which
  document a page shows is decided in \<open>Doc_Pages\<close>.
\<close>

section \<open>Elements of a document\<close>

fun part_node :: "part \<Rightarrow> node" where
  "part_node (PText s) = Text s"
| "part_node (PCode i s) = Elem ''code'' [] [Text s]"
| "part_node (PStrong i s) = Elem ''strong'' [] [Text s]"
| "part_node (PLink i href l) = route_link href [Text l]"

definition align_name :: "text_align \<Rightarrow> string" where
  "align_name a = (case a of ALeft \<Rightarrow> ''left'' | ACenter \<Rightarrow> ''center'' | ARight \<Rightarrow> ''right'')"

text \<open>Cell \<open>i\<close> of a row; a row may be longer than the row of the alignments.\<close>

definition cell_node :: "string \<Rightarrow> text_align list \<Rightarrow> nat \<times> part list \<Rightarrow> node" where
  "cell_node tag aligns c =
     Elem tag (if fst c < length aligns then [(''style.textAlign'', align_name (aligns ! fst c))] else [])
       (map part_node (snd c))"

definition row_node :: "string \<Rightarrow> text_align list \<Rightarrow> part list list \<Rightarrow> node" where
  "row_node tag aligns row = Elem ''tr'' [] (map (cell_node tag aligns) (enumerate 0 row))"

definition heading_tag :: "nat \<Rightarrow> string" where
  "heading_tag level = (if level = 1 then ''h1'' else if level = 2 then ''h2'' else if level = 3 then ''h3'' else ''h4'')"

fun block_node :: "block \<Rightarrow> node" where
  "block_node (Heading level hid ps) = Elem (heading_tag level) [(''id'', hid)] (map part_node ps)"
| "block_node (block.CodeBlock k code lang) = CodeBlockShell code (or_text lang []) False"
| "block_node (Quote k ls) = Elem ''blockquote'' [] (map (\<lambda>l. Elem ''p'' [] (map part_node l)) ls)"
| "block_node (Bullets k ls) = Elem ''ul'' [] (map (\<lambda>l. Elem ''li'' [] (map part_node l)) ls)"
| "block_node (Numbered k ls) = Elem ''ol'' [] (map (\<lambda>l. Elem ''li'' [] (map part_node l)) ls)"
| "block_node (Rule k) = Elem ''hr'' [] []"
| "block_node (Table k aligns headers rows) =
     dv [Elem ''table'' []
       [Elem ''thead'' [] [row_node ''th'' aligns headers], Elem ''tbody'' [] (map (row_node ''td'' aligns) rows)]]"
| "block_node (Paragraph k n ps) = Elem ''p'' [] (map part_node ps)"

definition prose :: "bool \<Rightarrow> block list \<Rightarrow> node" where
  "prose isFa nodes =
     Elem ''article'' (if isFa then [(''lang'', ''fa''), (''dir'', ''rtl'')] else []) (map block_node nodes)"

section \<open>A document\<close>

definition displaySlug :: "string \<Rightarrow> string list \<Rightarrow> site_entry \<Rightarrow> string list" where
  "displaySlug base nslug e =
     filter (\<lambda>p. p \<noteq> ''index'') (if base = ''/fa'' \<and> take 1 nslug = [''fa''] then drop 1 nslug else se_slug e)"

definition crumbs :: "site_copy \<Rightarrow> string \<Rightarrow> string list \<Rightarrow> (string \<times> string) list" where
  "crumbs cp base segs =
     (base @ ''/docs'', tx cp ''doc'' (if base = ''/fa'' then LangFa else LangEn) ''Docs'') #
     map (\<lambda>idx. (base @ ''/docs/'' @ join ''/'' (take (idx + 1) segs), segs ! idx)) [0..<length segs]"

definition crumb_node :: "nat \<times> string \<times> string \<Rightarrow> node" where
  "crumb_node c =
     sp ((if fst c = 0 then [] else [Text '' / '']) @ [route_link (fst (snd c)) [Text (snd (snd c))]])"

definition toc_links :: "toc_item list \<Rightarrow> toc_link list" where
  "toc_links toc = map (\<lambda>t. \<lparr>tl_id = t_id t, tl_text = t_text t, tl_level = t_level t\<rparr>) toc"

definition doc_safety :: "site_copy \<Rightarrow> bool \<Rightarrow> node" where
  "doc_safety cp isFarsi =
     (let t = tx cp ''doc'' (if isFarsi then LangFa else LangEn) in
      Callout (t ''Safety'') ToneWarning
        [Text (t ''Assume devices may be seized. Prefer minimal logs, verify artifacts, and use trusted channels for seed delivery.'')])"

text \<open>The note on a missing translation exists in Persian only; it is named here by its meaning.\<close>

definition untranslated_note :: "site_copy \<Rightarrow> string \<Rightarrow> node" where
  "untranslated_note cp place =
     Callout (cp_fa cp place ''The Persian version is not ready yet'') ToneWarning
       [Text (cp_fa cp place ''Not translated yet, the English version is shown.'')]"

definition DocView ::
  "site_copy \<Rightarrow> string \<Rightarrow> string list \<Rightarrow> site_entry \<Rightarrow> bool \<Rightarrow> block list \<Rightarrow> toc_item list \<Rightarrow> node" where
  "DocView cp base nslug e usedEnglishFallback nodes toc =
     (let isFarsi = (take 1 (se_slug e) = [''fa'']) in
      dv [dv (map crumb_node (enumerate 0 (crumbs cp base (displaySlug base nslug e)))),
          PageHeader [] (se_title e) [] [],
          dv [dv ((if usedEnglishFallback then [untranslated_note cp ''doc''] else []) @ [prose isFarsi nodes]),
              dv [dv (DocToc (toc_links toc) (if isFarsi then Some (cp_fa cp ''doc'' ''On this page'') else None) @
                [doc_safety cp isFarsi])]]])"

section \<open>Index of the documentation\<close>

text \<open>\<open>app/docs/page.tsx\<close>. The overview may be missing; rendering it may not end.\<close>

definition titleFor :: "site_entry list \<Rightarrow> bool \<Rightarrow> string \<Rightarrow> string \<Rightarrow> string" where
  "titleFor entries isFa key fallback =
     (case map_get (fold (\<lambda>e m. map_set (slug_key (se_slug e)) e m) entries []) (if isFa then ''fa/'' @ key else key) of
        Some e \<Rightarrow> se_title e
      | None \<Rightarrow> fallback)"

definition docs_start :: "site_copy \<Rightarrow> site_entry list \<Rightarrow> string \<Rightarrow> node" where
  "docs_start cp entries base =
     (let isFa = (base = ''/fa''); t = tx cp ''docs'' (if isFa then LangFa else LangEn) in
      Elem ''section'' []
        [SectionHeader (t ''Start here'')
           (text_of (t ''The quickest path to installing safely and understanding how Inside/Outside work together.'')) [],
         dv [info (titleFor entries isFa ''install'' (t ''Installation''))
               (t ''Release artifacts, verification, and basic setup.'') (base @ ''/docs/install''),
             info (titleFor entries isFa ''user/safety'' (t ''Safety''))
               (t ''Operational safety principles for high-risk environments.'') (base @ ''/docs/user/safety''),
             info (titleFor entries isFa ''architecture'' (t ''Architecture''))
               (t ''Inside vs Outside, data plane vs control plane.'') (base @ ''/docs/architecture''),
             info (titleFor entries isFa ''outside/verification'' (t ''Verification''))
               (t ''Verify artifacts and bundles before use.'') (base @ ''/docs/outside/verification'')]])"

text \<open>The section in Persian on the English page; its texts are named by their meaning.\<close>

definition docs_farsi :: "site_copy \<Rightarrow> node" where
  "docs_farsi cp =
     (let t = cp_fa cp ''docs'' in
      Elem ''section'' [(''lang'', ''fa''), (''dir'', ''rtl'')]
        [SectionHeader farsi_title (text_of (t ''The main pages in Persian'')) [],
         dv [info (t ''Persian documentation'') (t ''List of the Persian documents'') ''/fa/docs'',
             info (t ''Safety'') (t ''Operational safety in high-risk environments'') ''/fa/docs/user/safety'']])"

definition DocsIndexView :: "site_copy \<Rightarrow> site_entry list \<Rightarrow> string \<Rightarrow> block list option \<Rightarrow> node" where
  "DocsIndexView cp entries base overview =
     (let isFa = (base = ''/fa''); t = tx cp ''docs'' (if isFa then LangFa else LangEn) in
      dv ([PageHeader [] (t ''Documentation'')
             (text_of (t ''Repository-backed docs for SunLionet. Local-first, no analytics, no live seed hosting.''))
             [route_link (base @ ''/download'') [Text (t ''Download'')],
              route_link (base @ ''/architecture'') [Text (t ''Website architecture page'')]]] @
          when_some (\<lambda>nodes. dv [prose isFa nodes]) overview @
          [docs_start cp entries base] @ (if isFa then [] else [docs_farsi cp])))"

text \<open>The page is shown unless the tree cannot be read or the overview does not render.\<close>

datatype 'a view = Broken | Endless | Seen 'a

definition DocsIndexPage ::
  "site_copy \<Rightarrow> site_entry list option \<Rightarrow> (string list \<Rightarrow> (site_entry \<times> string) option option) \<Rightarrow> string option \<Rightarrow> node view" where
  "DocsIndexPage cp index rd plang =
     (let base = page_base plang; overviewSlug = (if base = ''/fa'' then [''fa'', ''index''] else [''index'']) in
      case (index, rd overviewSlug) of
        (Some entries, Some None) \<Rightarrow> Seen (DocsIndexView cp entries base None)
      | (Some entries, Some (Some d)) \<Rightarrow>
          (case renderMarkdown (doc_opts overviewSlug base None) (snd d) of
             None \<Rightarrow> Endless
           | Some (nodes, toc) \<Rightarrow> Seen (DocsIndexView cp entries base (Some nodes)))
      | _ \<Rightarrow> Broken)"

section \<open>All documents, navigation\<close>

definition docs_group :: "string \<times> doc_item list \<Rightarrow> node" where
  "docs_group g =
     Elem ''section'' []
       [dv [Text (fst g)],
        dv (map (\<lambda>i. InfoCard (di_title i) [sp [Text (join ''/'' (di_slug i))]] (di_href i) [] False []) (snd g))]"

definition DocsAllView :: "site_copy \<Rightarrow> (string \<Rightarrow> string \<Rightarrow> int) \<Rightarrow> site_entry list \<Rightarrow> string option \<Rightarrow> node" where
  "DocsAllView cp loc entries plang =
     (let base = page_base plang; t = tx cp ''all'' (if base = ''/fa'' then LangFa else LangEn) in
      dv [PageHeader [] (t ''Browse all docs'') (text_of (t ''All markdown documents found under /docs in the repository.''))
            [route_link (base @ ''/docs'') [Text (t ''Back to docs'')]],
          dv (map docs_group (DocsAll loc base entries))])"

definition docs_nav_section :: "string \<times> (string \<times> string) list \<Rightarrow> node" where
  "docs_nav_section s =
     Elem ''div'' (if fst s = farsi_title then [(''lang'', ''fa''), (''dir'', ''rtl'')] else [])
       [dv [Text (fst s)], dv (map (\<lambda>i. route_link (snd i) [Text (fst i)]) (snd s))]"

definition DocsShell :: "string \<Rightarrow> site_entry list \<Rightarrow> node list \<Rightarrow> node" where
  "DocsShell base entries children =
     dv [dv [Elem ''aside'' []
           [dv [dv [dv [Text ''Docs''], dv [Text ''This website renders documentation directly from the repository.'']],
                Elem ''nav'' [] (map docs_nav_section (docs_sections base entries) @
                  [route_link (base @ ''/docs/all'') [Text ''Browse all docs'']])]],
         dv children]]"

text \<open>The layouts of \<open>app/docs\<close> and of \<open>app/[lang]/docs\<close>, whose language is English for
  every segment other than \<open>fa\<close>.\<close>

definition DocsLayout :: "site_entry list \<Rightarrow> node list \<Rightarrow> node" where
  "DocsLayout entries children = DocsShell [] entries children"

definition LangDocsLayout :: "string \<Rightarrow> site_entry list \<Rightarrow> node list \<Rightarrow> node" where
  "LangDocsLayout plang entries children =
     DocsShell (''/'' @ lang_code (resolveUILang (Some plang))) entries children"

section \<open>Blog and updates\<close>

definition post_card :: "string \<Rightarrow> string \<Rightarrow> content_entry \<Rightarrow> node" where
  "post_card base route p =
     (let key = join ''/'' (se_slug p) in
      InfoCard (se_title p) [sp [Text key]] (base @ ''/'' @ route @ ''/'' @ key) [] False [])"

definition post_index ::
  "site_copy \<Rightarrow> string \<Rightarrow> string \<times> string \<Rightarrow> string \<times> string \<Rightarrow> string \<times> string \<Rightarrow> string option \<Rightarrow> content_entry list \<Rightarrow> node" where
  "post_index cp route heading other listed plang posts =
     (let t = tx cp route (resolveUILang plang); base = page_base plang in
      dv [PageHeader [] (t (fst heading)) (text_of (t (snd heading))) [route_link (base @ fst other) [Text (t (snd other))]],
          Elem ''section'' []
            [SectionHeader (t (fst listed)) (text_of (t (snd listed))) [], dv (map (post_card base route) posts)]])"

definition BlogIndexPage :: "site_copy \<Rightarrow> string option \<Rightarrow> content_entry list \<Rightarrow> node" where
  "BlogIndexPage cp plang posts =
     post_index cp ''blog'' (''Blog'', ''Technical and explanatory posts for project direction.'') (''/updates'', ''Updates'')
       (''Latest posts'', ''Every post must ship in both EN and FA.'') plang posts"

definition UpdatesIndexPage :: "site_copy \<Rightarrow> string option \<Rightarrow> content_entry list \<Rightarrow> node" where
  "UpdatesIndexPage cp plang updates =
     post_index cp ''updates'' (''Updates'', ''Short, operational notes for each change and release.'') (''/blog'', ''Blog'')
       (''Latest changes'', ''Every update must ship in both EN and FA.'') plang updates"

definition PostView ::
  "site_copy \<Rightarrow> string \<Rightarrow> string \<Rightarrow> string \<Rightarrow> string list \<Rightarrow> content_entry \<Rightarrow> bool \<Rightarrow> block list \<Rightarrow> node" where
  "PostView cp route name base slug e usedEnglishFallback nodes =
     (let isFa = (base = ''/fa'') in
      dv ([dv [route_link (base @ ''/'' @ route) [Text (tx cp route (if isFa then LangFa else LangEn) name)],
               sp [Text '' / ''], sp [Text (join ''/'' slug)]]] @
          (if usedEnglishFallback then [untranslated_note cp route] else []) @
          [PageHeader [] (se_title e) [] [], prose isFa nodes]))"

section \<open>Lemmas\<close>

lemma part_node_ids [simp]: "anchor_ids (part_node p) = []" "saves (part_node p) = []"
  by (cases p; simp)+

lemma part_nodes_ids [simp]: "all_ids (map part_node ps) = []" "all_saves (map part_node ps) = []"
  by (simp_all add: inert_reads)

lemma row_node_ids [simp]: "anchor_ids (row_node tag aligns row) = []" "saves (row_node tag aligns row) = []"
  by (simp_all add: row_node_def cell_node_def inert_reads)

lemma block_ids: "anchor_ids (block_node b) = (case heading_of b of None \<Rightarrow> [] | Some h \<Rightarrow> [fst h])"
  by (cases b) (simp_all add: heading_of_def inert_reads)

lemma prose_ids: "anchor_ids (prose isFa nodes) = map fst (headings nodes)"
proof -
  have "all_ids (map block_node nodes) = map fst (headings nodes)"
    by (induction nodes) (simp_all add: block_ids headings_def map_filter_def split: option.split)
  then show ?thesis by (simp add: prose_def)
qed

lemma doc_view_ids: "set (anchor_ids (DocView cp base nslug e fb nodes toc)) = fst ` set (headings nodes)"
proof -
  have "all_ids (map crumb_node xs) = []" for xs by (simp add: crumb_node_def inert_reads)
  then show ?thesis by (simp add: DocView_def Let_def prose_ids doc_safety_def untranslated_note_def)
qed

lemma doc_view_hrefs:
  "set (hrefs (DocView cp base nslug e fb nodes toc)) =
     fst ` set (crumbs cp base (displaySlug base nslug e)) \<union> set (hrefs (prose (take 1 (se_slug e) = [''fa'']) nodes)) \<union>
     (\<lambda>i. CHR ''#'' # t_id i) ` set toc"
proof -
  have "set (all_hrefs (map crumb_node (enumerate n xs))) = fst ` set xs" for n xs
    by (induction xs arbitrary: n) (simp_all add: crumb_node_def)
  then show ?thesis by (auto simp: DocView_def Let_def doc_safety_def untranslated_note_def toc_links_def)
qed

definition from_markdown :: "'a page_answer \<Rightarrow> bool" where
  "from_markdown a \<longleftrightarrow>
     (\<forall>e fb nodes toc. a = Shown e fb nodes toc \<longrightarrow> (\<exists>o1 md. renderMarkdown o1 md = Some (nodes, toc)))"

lemma from_markdown_simps [simp]:
  "from_markdown (RedirectTo l)" "from_markdown NotFound" "from_markdown Fails"
  "from_markdown (render_answer d b (renderMarkdown o1 md))"
  by (auto simp: from_markdown_def render_answer_def split: option.splits)

lemma from_markdown_branch:
  "from_markdown a \<Longrightarrow> from_markdown b \<Longrightarrow> from_markdown (if c then a else b)"
  "from_markdown a \<Longrightarrow> (\<And>x. from_markdown (f x)) \<Longrightarrow> from_markdown (case z of None \<Rightarrow> a | Some x \<Rightarrow> f x)"
  by (simp_all split: option.split)

lemma shown_rendered:
  assumes "docPageAt loc fs cwd base slug = Shown e fb nodes toc"
  shows "\<exists>o1 md. renderMarkdown o1 md = Some (nodes, toc)"
proof -
  have "from_markdown (docPageAt loc fs cwd base slug)"
    unfolding docPageAt_def DocPage_def Let_def by (intro from_markdown_branch) simp_all
  with assms show ?thesis by (auto simp: from_markdown_def)
qed

section \<open>Properties\<close>

text \<open>C17: the contents beside a document work: on every documentation page that is shown, the links within the
  page lead to anchors of that page, and every heading below the first level is linked.\<close>

theorem doc_contents_links:
  assumes "docPageAt loc fs cwd basePrefix slug = Shown e fb nodes toc"
  shows "(\<forall>i \<in> set toc. (CHR ''#'' # t_id i) \<in> set (hrefs (DocView cp base nslug e fb nodes toc)) \<and>
      t_id i \<in> set (anchor_ids (DocView cp base nslug e fb nodes toc))) \<and>
    (\<forall>h \<in> set (headings nodes). 2 \<le> snd h \<longrightarrow>
      (CHR ''#'' # fst h) \<in> set (hrefs (DocView cp base nslug e fb nodes toc)))"
proof (intro conjI)
  obtain o1 md where "renderMarkdown o1 md = Some (nodes, toc)" using shown_rendered [OF assms] by blast
  from render_toc [OF this] have "map (\<lambda>t. (t_id t, t_level t)) toc = filter (\<lambda>h. 2 \<le> snd h) (headings nodes)" by blast
  from arg_cong [OF this, of set] have t: "(\<lambda>t. (t_id t, t_level t)) ` set toc = {h \<in> set (headings nodes). 2 \<le> snd h}"
    by simp
  show "\<forall>i \<in> set toc. (CHR ''#'' # t_id i) \<in> set (hrefs (DocView cp base nslug e fb nodes toc)) \<and>
      t_id i \<in> set (anchor_ids (DocView cp base nslug e fb nodes toc))"
  proof
    fix i assume i: "i \<in> set toc"
    with t have "(t_id i, t_level i) \<in> set (headings nodes)" by blast
    then have "t_id i \<in> fst ` set (headings nodes)" by (rule rev_image_eqI) simp
    with i show "(CHR ''#'' # t_id i) \<in> set (hrefs (DocView cp base nslug e fb nodes toc)) \<and>
        t_id i \<in> set (anchor_ids (DocView cp base nslug e fb nodes toc))"
      unfolding doc_view_ids doc_view_hrefs by blast
  qed
  show "\<forall>h \<in> set (headings nodes). 2 \<le> snd h \<longrightarrow>
      (CHR ''#'' # fst h) \<in> set (hrefs (DocView cp base nslug e fb nodes toc))"
  proof (intro ballI impI)
    fix h assume "h \<in> set (headings nodes)" "2 \<le> snd h"
    with t obtain i where "i \<in> set toc" "h = (t_id i, t_level i)" by blast
    then show "(CHR ''#'' # fst h) \<in> set (hrefs (DocView cp base nslug e fb nodes toc))"
      unfolding doc_view_hrefs by auto
  qed
qed

definition sample_doc :: fs_node where
  "sample_doc = Dir [(''docs'', Dir [(''guide.md'', File (Some ''## Use'') 6 0)])]"

theorem doc_contents_links_witness:
  "\<exists>e nodes toc. docPageAt (\<lambda>_ _. 0) sample_doc [] None [''guide''] = Shown e False nodes toc \<and>
     (\<forall>cp. ''use'' \<in> set (anchor_ids (DocView cp [] [''guide''] e False nodes toc)) \<and>
        ''#use'' \<in> set (hrefs (DocView cp [] [''guide''] e False nodes toc)))"
proof -
  have "(case docPageAt (\<lambda>_ _. 0) sample_doc [] None [''guide''] of
      Shown e fb nodes toc \<Rightarrow> Some (fb, map t_id toc) | _ \<Rightarrow> None) = Some (False, [''use''])" by code_simp
  then obtain e nodes toc where s: "docPageAt (\<lambda>_ _. 0) sample_doc [] None [''guide''] = Shown e False nodes toc"
    and t: "map t_id toc = [''use'']" by (auto split: page_answer.splits)
  from t obtain i where "i \<in> set toc" "t_id i = ''use''" by auto
  with doc_contents_links [OF s] s show ?thesis by metis
qed

end
