(* ===== verification/Site_Routes.thy ===== *)
theory Site_Routes
  imports Doc_Views
begin

text \<open>
  The site as a whole: which page file of \<open>src/website/src/app\<close> answers a path, and what a
  visitor gets for it, layouts included. A path is its segments; the router prefers a fixed segment to
  \<open>[lang]\<close> and that to \<open>[...slug]\<close>, so that a path is first tried in the tree without
  a language. Every page is computed for the request; which addresses a static export
  writes is \<open>docStaticParams\<close> and its relatives in \<open>Doc_Pages\<close>. The dashboards
  are modelled in \<open>Dashboard_Pages\<close>; here their content is a field of the visit.
\<close>

section \<open>Page files\<close>

datatype page_name =
    PgManifest | PgTechnology | PgSecurity | PgRoadmap | PgCommunity | PgSupport | PgArchitecture | PgVideo
  | PgDownload | PgInstallation

definition all_pages :: "page_name list" where
  "all_pages = [PgManifest, PgTechnology, PgSecurity, PgRoadmap, PgCommunity, PgSupport, PgArchitecture, PgVideo,
     PgDownload, PgInstallation]"

definition page_segment :: "page_name \<Rightarrow> string" where
  "page_segment p =
     (case p of
        PgManifest \<Rightarrow> ''manifest'' | PgTechnology \<Rightarrow> ''technology'' | PgSecurity \<Rightarrow> ''security''
      | PgRoadmap \<Rightarrow> ''roadmap'' | PgCommunity \<Rightarrow> ''community'' | PgSupport \<Rightarrow> ''support''
      | PgArchitecture \<Rightarrow> ''architecture'' | PgVideo \<Rightarrow> ''video'' | PgDownload \<Rightarrow> ''download''
      | PgInstallation \<Rightarrow> ''installation'')"

datatype site_route =
    RRoot                                   \<comment> \<open>\<open>app/page.tsx\<close>\<close>
  | RHome string                            \<comment> \<open>\<open>app/[lang]/page.tsx\<close>\<close>
  | RPage "string option" page_name         \<comment> \<open>\<open>app/x/page.tsx\<close>, \<open>app/[lang]/x/page.tsx\<close>\<close>
  | RDocsIndex "string option"
  | RDocsAll "string option"
  | RDoc "string option" "string list"
  | RBlog "string option"
  | RBlogPost "string option" "string list"
  | RUpdates "string option"
  | RUpdatesPost "string option" "string list"
  | RDashboard
  | RDashboardView string

definition dashboard_views :: "string list" where
  "dashboard_views = [''runtime'', ''global'', ''iran'', ''protocols'', ''releases'']"

text \<open>The page files that exist both at the top and under \<open>[lang]\<close>.\<close>

definition shared_route :: "string option \<Rightarrow> string list \<Rightarrow> site_route option" where
  "shared_route plang segs =
     (case segs of
        [] \<Rightarrow> None
      | s # rest \<Rightarrow>
          if s = ''docs'' then
            Some (if rest = [] then RDocsIndex plang else if rest = [''all''] then RDocsAll plang else RDoc plang rest)
          else if s = ''blog'' then Some (if rest = [] then RBlog plang else RBlogPost plang rest)
          else if s = ''updates'' then Some (if rest = [] then RUpdates plang else RUpdatesPost plang rest)
          else if rest \<noteq> [] then None
          else map_option (RPage plang) (find (\<lambda>p. page_segment p = s) all_pages))"

definition top_route :: "string list \<Rightarrow> site_route option" where
  "top_route segs =
     (if segs = [] then Some RRoot
      else if segs = [''dashboard''] then Some RDashboard
      else if length segs = 2 \<and> hd segs = ''dashboard'' \<and> last segs \<in> set dashboard_views then Some (RDashboardView (last segs))
      else shared_route None segs)"

definition lang_route :: "string list \<Rightarrow> site_route option" where
  "lang_route segs =
     (case segs of [] \<Rightarrow> None | l # rest \<Rightarrow> if rest = [] then Some (RHome l) else shared_route (Some l) rest)"

definition route_of :: "string list \<Rightarrow> site_route option" where
  "route_of segs = (case top_route segs of Some r \<Rightarrow> Some r | None \<Rightarrow> lang_route segs)"

definition segments :: "string \<Rightarrow> string list" where
  "segments path = filter (\<lambda>s. s \<noteq> []) (split_on (CHR ''/'') path)"

section \<open>Site and visit\<close>

text \<open>What the server reads, and the state of a visitor's components.\<close>

record site =
  st_loc :: "string \<Rightarrow> string \<Rightarrow> int"
  st_fs :: fs_node
  st_cwd :: "string list"
  st_copy :: site_copy
  st_env :: support_env
  st_year :: nat

record visit =
  vs_download :: download_ui
  vs_copied :: "nat \<Rightarrow> bool"
  vs_donation :: "string option"
  vs_menu :: bool
  vs_theme :: theme
  vs_accept :: "string option"
  vs_dashboard :: "string \<Rightarrow> node"

definition site_releases :: "site \<Rightarrow> local_release list" where
  "site_releases st =
     (case fs_path (st_fs st) (st_cwd st) of None \<Rightarrow> [] | Some cwd \<Rightarrow> getLocalReleases (st_loc st) cwd)"

definition site_latest :: "site \<Rightarrow> release_info option" where
  "site_latest st =
     (case fs_path (st_fs st) (st_cwd st) of None \<Rightarrow> None | Some cwd \<Rightarrow> getLatestRelease (st_loc st) cwd)"

definition site_docs :: "site \<Rightarrow> site_entry list option" where
  "site_docs st = getDocsIndex (st_loc st) (st_fs st) (st_cwd st)"

definition site_posts :: "site \<Rightarrow> content_type \<Rightarrow> string option \<Rightarrow> content_entry list option" where
  "site_posts st t plang =
     getContentIndex (st_loc st) (st_fs st) (st_cwd st) t (if plang = Some ''fa'' then Fa else En)"

section \<open>Answers\<close>

datatype outcome = ShowPage node | GoTo string | NoPage | Failed | Loops

definition wrapped :: "(node \<Rightarrow> node) \<Rightarrow> outcome \<Rightarrow> outcome" where
  "wrapped f r = (case r of ShowPage n \<Rightarrow> ShowPage (f n) | _ \<Rightarrow> r)"

definition in_lang :: "string option \<Rightarrow> node \<Rightarrow> node" where
  "in_lang plang n = (case plang of None \<Rightarrow> n | Some l \<Rightarrow> LangLayout l [n])"

definition in_docs :: "string option \<Rightarrow> site_entry list \<Rightarrow> node \<Rightarrow> node" where
  "in_docs plang entries n = (case plang of None \<Rightarrow> DocsLayout entries [n] | Some l \<Rightarrow> LangDocsLayout l entries [n])"

definition framed :: "site \<Rightarrow> visit \<Rightarrow> string \<Rightarrow> node \<Rightarrow> node" where
  "framed st vs path n =
     RootLayout (st_copy st) (Some path) (vs_theme vs) (vs_menu vs) (site_latest st) (st_year st) [n]"

definition static_page :: "site \<Rightarrow> visit \<Rightarrow> string \<Rightarrow> string option \<Rightarrow> page_name \<Rightarrow> node" where
  "static_page st vs path plang p =
     (case p of
        PgManifest \<Rightarrow> ManifestPage (st_copy st) plang
      | PgTechnology \<Rightarrow> TechnologyPage (st_copy st) plang
      | PgSecurity \<Rightarrow> SecurityPage (st_copy st) plang
      | PgRoadmap \<Rightarrow> RoadmapPage plang
      | PgCommunity \<Rightarrow> CommunityPage (st_copy st) plang
      | PgSupport \<Rightarrow> SupportPage (st_copy st) (st_env st) plang (vs_donation vs)
      | PgArchitecture \<Rightarrow> ArchitecturePage plang
      | PgVideo \<Rightarrow> VideoPage plang
      | PgDownload \<Rightarrow> DownloadPage (st_copy st) (Some path) (site_releases st) plang (vs_download vs) (vs_copied vs)
      | PgInstallation \<Rightarrow> InstallationPage (st_copy st) (site_releases st) plang)"

text \<open>The base and the slug that a documentation or post route passes on.\<close>

definition route_prefix :: "string option \<Rightarrow> string option" where
  "route_prefix plang = map_option (\<lambda>l. ''/'' @ l) plang"

definition route_slug :: "string option \<Rightarrow> string list \<Rightarrow> string list" where
  "route_slug plang slug = (if plang = Some ''fa'' \<and> take 1 slug \<noteq> [''fa''] then ''fa'' # slug else slug)"

definition page_outcome :: "('a \<Rightarrow> bool \<Rightarrow> block list \<Rightarrow> toc_item list \<Rightarrow> node) \<Rightarrow> 'a page_answer \<Rightarrow> outcome" where
  "page_outcome f a =
     (case a of
        RedirectTo l \<Rightarrow> GoTo l | NotFound \<Rightarrow> NoPage | Fails \<Rightarrow> Failed | Hangs \<Rightarrow> Loops
      | Shown e fb nodes toc \<Rightarrow> ShowPage (f e fb nodes toc))"

definition doc_outcome :: "site \<Rightarrow> string option \<Rightarrow> string list \<Rightarrow> outcome" where
  "doc_outcome st plang slug =
     (let s = route_slug plang slug in
      page_outcome (DocView (st_copy st) (resolved_base (route_prefix plang)) (normalizeSlug s))
        (docPageAt (st_loc st) (st_fs st) (st_cwd st) (route_prefix plang) s))"

definition post_view :: "site \<Rightarrow> content_type \<Rightarrow> string \<Rightarrow> string option \<Rightarrow> string list \<Rightarrow> content_entry page_answer \<Rightarrow> outcome" where
  "post_view st t name plang slug =
     page_outcome
       (\<lambda>e fb nodes toc. PostView (st_copy st) (type_dir t) name (resolved_base (route_prefix plang)) slug e fb nodes)"

definition blog_outcome :: "site \<Rightarrow> string option \<Rightarrow> string list \<Rightarrow> outcome" where
  "blog_outcome st plang slug =
     post_view st CBlog ''Blog'' plang slug (blogPageAt (st_loc st) (st_fs st) (st_cwd st) (route_prefix plang) slug)"

definition update_outcome :: "site \<Rightarrow> string option \<Rightarrow> string list \<Rightarrow> outcome" where
  "update_outcome st plang slug =
     post_view st CUpdates ''Updates'' plang slug (updatePageAt (st_loc st) (st_fs st) (st_cwd st) (route_prefix plang) slug)"

definition docs_index_outcome :: "site \<Rightarrow> string option \<Rightarrow> outcome" where
  "docs_index_outcome st plang =
     (case DocsIndexPage (st_copy st) (site_docs st) (readDocMarkdownBySlug (st_loc st) (st_fs st) (st_cwd st)) plang of
        Broken \<Rightarrow> Failed | Endless \<Rightarrow> Loops | Seen n \<Rightarrow> ShowPage n)"

definition with_docs :: "site \<Rightarrow> string option \<Rightarrow> (site_entry list \<Rightarrow> outcome) \<Rightarrow> outcome" where
  "with_docs st plang f =
     (case site_docs st of None \<Rightarrow> Failed | Some entries \<Rightarrow> wrapped (in_docs plang entries) (f entries))"

definition with_posts :: "site \<Rightarrow> content_type \<Rightarrow> string option \<Rightarrow> (content_entry list \<Rightarrow> node) \<Rightarrow> outcome" where
  "with_posts st t plang f = (case site_posts st t plang of None \<Rightarrow> Failed | Some posts \<Rightarrow> ShowPage (f posts))"

definition content_of :: "site \<Rightarrow> visit \<Rightarrow> string \<Rightarrow> site_route \<Rightarrow> string option \<times> outcome" where
  "content_of st vs path r =
     (case r of
        RRoot \<Rightarrow> (None, GoTo (RootPage (vs_accept vs)))
      | RHome l \<Rightarrow>
          (Some l, ShowPage (HomePage (st_copy st) (Some path) (site_releases st) l (vs_download vs) (vs_copied vs)))
      | RPage l p \<Rightarrow> (l, ShowPage (static_page st vs path l p))
      | RDocsIndex l \<Rightarrow> (l, with_docs st l (\<lambda>_. docs_index_outcome st l))
      | RDocsAll l \<Rightarrow> (l, with_docs st l (\<lambda>entries. ShowPage (DocsAllView (st_copy st) (st_loc st) entries l)))
      | RDoc l slug \<Rightarrow> (l, with_docs st l (\<lambda>_. doc_outcome st l slug))
      | RBlog l \<Rightarrow> (l, with_posts st CBlog l (BlogIndexPage (st_copy st) l))
      | RBlogPost l slug \<Rightarrow> (l, blog_outcome st l slug)
      | RUpdates l \<Rightarrow> (l, with_posts st CUpdates l (UpdatesIndexPage (st_copy st) l))
      | RUpdatesPost l slug \<Rightarrow> (l, update_outcome st l slug)
      | RDashboard \<Rightarrow> (None, GoTo DashboardIndex)
      | RDashboardView v \<Rightarrow> (None, ShowPage (DashboardLayout [vs_dashboard vs v])))"

definition serve :: "site \<Rightarrow> visit \<Rightarrow> string \<Rightarrow> outcome" where
  "serve st vs path =
     (case route_of (segments path) of
        None \<Rightarrow> NoPage
      | Some r \<Rightarrow> (case content_of st vs path r of (l, out) \<Rightarrow> wrapped (\<lambda>n. framed st vs path (in_lang l n)) out))"

text \<open>The browser follows redirects, at most \<open>n\<close> of them.\<close>

fun follow_path :: "site \<Rightarrow> visit \<Rightarrow> nat \<Rightarrow> string \<Rightarrow> outcome" where
  "follow_path st vs 0 path = serve st vs path"
| "follow_path st vs (Suc n) path = (case serve st vs path of GoTo p \<Rightarrow> follow_path st vs n p | r \<Rightarrow> r)"

end
