(* ===== verification/Site_Links.thy ===== *)
theory Site_Links
  imports Site_Routes
begin

text \<open>
  The links of the site, followed: every link that the fixed pages, the header and the footer show to
  a page of the site is answered by a page (\<open>Site_Routes\<close>), in the tree without a language
  and in both languages, on a site that has the documents which the pages name
  (\<open>site_ready\<close>). Links to files of releases are the matter of \<open>Download_View\<close>,
  those between documents of \<open>Docs_Links\<close>.
\<close>

section \<open>Lemmas: the links of the pages\<close>

definition site_langs :: "string option list" where
  "site_langs = [None, Some ''en'', Some ''fa'']"

text \<open>A link to a page of the site, as against a file or another site.\<close>

definition page_link :: "string \<Rightarrow> bool" where
  "page_link h \<longleftrightarrow> starts_with ''/'' h \<and> \<not> starts_with ''/downloads/'' h \<and> \<not> starts_with ''/media/'' h"

definition needed_docs :: "string list list" where
  "needed_docs = [[''install''], [''install'', ''android''], [''user'', ''safety''], [''outside'', ''verification''],
     [''architecture''], [''threat-model''], [''governance'', ''model'']]"

definition link_targets :: "string list" where
  "link_targets = map (\<lambda>p. ''/'' @ page_segment p) all_pages @ map (\<lambda>d. ''/docs/'' @ join ''/'' d) needed_docs @ [''/docs'', ''/'']"

lemma starts_hash: "starts_with ''#'' h \<Longrightarrow> \<not> starts_with githubRepo h \<and> h \<noteq> download_href tag name \<and> \<not> starts_with ''/'' h"
  by (auto simp: starts_with_iff githubRepo_def download_href_def)

lemma not_page_link:
  "starts_with githubRepo h \<Longrightarrow> \<not> page_link h" "\<not> page_link (githubRepo @ s)" "\<not> page_link githubRepo"
  "\<not> page_link (download_href tag name)" "\<not> page_link ''/media/SunLionet.mp4''"
  "\<not> starts_with ''/'' h \<Longrightarrow> \<not> page_link h"
  by (auto simp: page_link_def starts_with_iff githubRepo_def download_href_def)

lemma link_targets_mem [simp]:
  "''/installation'' \<in> set link_targets" "''/manifest'' \<in> set link_targets" "''/download'' \<in> set link_targets"
  "''/architecture'' \<in> set link_targets" "''/support'' \<in> set link_targets" "''/roadmap'' \<in> set link_targets"
  "''/docs'' \<in> set link_targets" "''/'' \<in> set link_targets" "''/docs/user/safety'' \<in> set link_targets"
  "''/docs/install'' \<in> set link_targets" "''/docs/install/android'' \<in> set link_targets"
  "''/docs/outside/verification'' \<in> set link_targets" "''/docs/architecture'' \<in> set link_targets"
  "''/docs/governance/model'' \<in> set link_targets" "''/docs/threat-model'' \<in> set link_targets"
  by (simp_all add: link_targets_def all_pages_def page_segment_def needed_docs_def)

lemma hrefFor_base: "hrefFor (Some (page_base l)) s = page_base l @ s"
  by (simp add: hrefFor_def page_base_def) code_simp

lemma download_links_saves:
  assumes "readRelease dir tag = Some r"
    and "(\<exists>a \<in> set (lr_artifacts r). h \<in> set (artifact_links (Some a))) \<or>
      h \<in> set (opt_list (rv_signatureHref (lr_verification r))) \<or> h \<in> set (opt_list (rv_keyHref (lr_verification r)))"
  shows "\<exists>name. h = download_href tag name"
proof -
  from release_files [OF assms(1)] obtain files where
    a: "\<And>a. a \<in> set (lr_artifacts r) \<Longrightarrow> ra_href a = download_href tag (ra_fileName a) \<and>
      (\<forall>h. ra_sha256Href a = Some h \<longrightarrow> h = download_href tag (ra_fileName a @ ''.sha256''))"
    and v: "rv_signatureHref (lr_verification r) = href_if_present tag files ''checksums.sig''"
      "rv_keyHref (lr_verification r) = href_if_present tag files ''checksums.pub''" by blast
  from assms(2) show ?thesis
  proof (elim disjE bexE)
    fix x assume "x \<in> set (lr_artifacts r)" "h \<in> set (artifact_links (Some x))"
    with a [of x] show ?thesis
      by (auto simp: artifact_links_def opt_list_def filled_def split: option.splits if_splits)
  qed (auto simp: v opt_list_def filled_def href_if_present_def split: option.splits if_splits)
qed

lemma section_saves_address:
  assumes "h \<in> set (saves (DownloadSection cp pathname (site_releases st) base ui copied))"
  shows "\<exists>tag name. h = download_href tag name"
proof -
  from section_saves_origin [OF assms] obtain r where r: "r \<in> set (site_releases st)"
    and o: "(\<exists>a \<in> set (lr_artifacts r). h \<in> set (artifact_links (Some a))) \<or>
      h \<in> set (opt_list (rv_signatureHref (lr_verification r))) \<or> h \<in> set (opt_list (rv_keyHref (lr_verification r)))"
    by blast
  from r obtain cwd where "r \<in> set (getLocalReleases (st_loc st) cwd)" by (auto simp: site_releases_def split: option.splits)
  from release_source [OF this] obtain dir where "readRelease dir (lr_tag r) = Some r" by blast
  from download_links_saves [OF this o] show ?thesis by blast
qed

lemma section_page_links:
  assumes "h \<in> set (hrefs (DownloadSection cp pathname (site_releases st) base ui copied))" and "page_link h"
  shows "h \<in> {hrefFor base ''/docs/install'', hrefFor base ''/docs/outside/verification''}"
proof -
  have "\<not> page_link h" if "h \<in> set (saves (DownloadSection cp pathname (site_releases st) base ui copied))"
    using section_saves_address [OF that] not_page_link(4) by blast
  with section_hrefs assms not_page_link(1) show ?thesis by blast
qed

definition links_ok :: "string option \<Rightarrow> string list \<Rightarrow> bool" where
  "links_ok l hs \<longleftrightarrow> (\<forall>h \<in> set hs. page_link h \<longrightarrow> (\<exists>s \<in> set link_targets. h = page_base l @ s))"

lemma links_ok_simps [simp]:
  "links_ok l []" "links_ok l (hs @ hs2) \<longleftrightarrow> links_ok l hs \<and> links_ok l hs2"
  "s \<in> set link_targets \<Longrightarrow> links_ok l ((page_base l @ s) # hs) \<longleftrightarrow> links_ok l hs"
  "\<not> page_link h \<Longrightarrow> links_ok l (h # hs) \<longleftrightarrow> links_ok l hs"
  by (auto simp: links_ok_def)

lemma links_ok_section:
  "links_ok l (hrefs (DownloadSection cp pathname (site_releases st) (Some (page_base l)) ui copied))"
  using section_page_links by (fastforce simp: links_ok_def hrefFor_base)

lemma donation_links [simp]: "hrefs (DonationQRCard cp lang qr as copied) = []"
  by (simp add: DonationQRCard_def donation_row_def head_cell_def inert_reads)

lemma referral_links:
  "\<not> page_link url \<Longrightarrow> links_ok l (hrefs (RevolutReferralCard cp lang url reward qr))"
  by (simp add: RevolutReferralCard_def Let_def inert_reads)

lemma static_page_links:
  assumes "\<not> page_link (revolutReferralUrl (st_env st))"
  shows "links_ok l (hrefs (static_page st vs path l p))"
proof (cases p)
  case PgSupport
  with assms show ?thesis
    by (simp add: static_page_def SupportPage_def Let_def support_crumbs_def support_intro_def support_details_def
        referral_links not_page_link)
next
  case PgVideo
  then show ?thesis
    by (simp add: static_page_def VideoPage_def Let_def video_cards_def not_page_link)
next
  case PgDownload
  then show ?thesis
    using links_ok_section by (simp add: static_page_def DownloadPage_def Let_def)
qed (simp_all add: static_page_def ManifestPage_def TechnologyPage_def SecurityPage_def RoadmapPage_def CommunityPage_def
    ArchitecturePage_def InstallationPage_def Let_def bullet_section_def info_list_def install_step_def
    githubDocsInstall_def not_page_link inert_reads)

lemma home_page_links:
  "links_ok l (hrefs (HomePage cp pathname (site_releases st) x ui copied))" if "l = Some x" "x \<in> {''en'', ''fa''}"
proof -
  have base: "''/'' @ lang_code (resolveUILang (Some x)) = page_base l"
    using that by (auto simp: resolveUILang_def lang_code_def page_base_def)
  show ?thesis
    unfolding HomePage_def Let_def base using links_ok_section
    by (simp add: home_header_def safety_notice_def home_parts_def home_abilities_def home_start_def
        home_contribute_def home_license_def lang_attrs_def Let_def)
qed

section \<open>Lemmas: what is served\<close>

text \<open>A site whose documents and posts can be read, none with a line that the renderer is stuck on, and that
  has the documents which the pages link.\<close>

definition site_ready :: "site \<Rightarrow> site_entry list \<Rightarrow> bool" where
  "site_ready st entries \<longleftrightarrow>
     fs_ok (st_fs st) \<and> site_docs st = Some entries \<and>
     (\<forall>d \<in> set entries. case fs_read (fs_path (st_fs st) (se_path d)) of
        None \<Rightarrow> True | Some raw \<Rightarrow> (\<forall>l \<in> set (split_lines raw). \<not> stuck_line l)) \<and>
     (\<forall>k \<in> set needed_docs. \<exists>e \<in> set entries. slug_key (se_slug e) = slug_key k) \<and>
     (\<forall>t \<in> {CBlog, CUpdates}. \<forall>l \<in> {En, Fa}. getContentIndex (st_loc st) (st_fs st) (st_cwd st) t l \<noteq> None)"

lemma ready_facts:
  assumes "site_ready st entries"
  shows "fs_ok (st_fs st)" "site_docs st = Some entries" "getDocsIndex (st_loc st) (st_fs st) (st_cwd st) = Some entries"
    "d \<in> set entries \<Longrightarrow> fs_read (fs_path (st_fs st) (se_path d)) = Some raw \<Longrightarrow> l \<in> set (split_lines raw) \<Longrightarrow> \<not> stuck_line l"
    "k \<in> set needed_docs \<Longrightarrow> \<exists>e \<in> set entries. slug_key (se_slug e) = slug_key k"
    "t = CBlog \<or> t = CUpdates \<Longrightarrow> site_posts st t pl \<noteq> None"
  using assms by (auto simp: site_ready_def site_docs_def site_posts_def)

lemma ready_read:
  assumes "site_ready st entries"
  shows "\<exists>r. read_with_index (readDocMarkdownBySlug (st_loc st) (st_fs st) (st_cwd st)) s = Some r \<and>
    (\<forall>d raw. r = Some (d, raw) \<longrightarrow> d \<in> set entries \<and> fs_read (fs_path (st_fs st) (se_path d)) = Some raw) \<and>
    ((\<exists>e \<in> set entries. slug_key (se_slug e) = slug_key s) \<longrightarrow> r \<noteq> None)"
proof -
  let ?rd = "readDocMarkdownBySlug (st_loc st) (st_fs st) (st_cwd st)"
  have ix: "fs_ok (st_fs st)" "getDocsIndex (st_loc st) (st_fs st) (st_cwd st) = Some entries"
    using ready_facts [OF assms] by blast+
  note rd = doc_read [OF ix]
  obtain r where r: "?rd s = Some r" "r = None \<longleftrightarrow> (\<forall>e \<in> set entries. slug_key (se_slug e) \<noteq> slug_key s)"
    "\<forall>d raw. r = Some (d, raw) \<longrightarrow> d \<in> set entries \<and> fs_read (fs_path (st_fs st) (se_path d)) = Some raw"
    using rd [of s] by blast
  show ?thesis
  proof (cases r)
    case (Some d)
    with r show ?thesis by (simp add: read_with_index_def)
  next
    case None
    show ?thesis
    proof (cases "tryIndexFallback s")
      case None
      with r \<open>r = None\<close> show ?thesis by (auto simp: read_with_index_def)
    next
      case (Some t)
      with r \<open>r = None\<close> rd [of t] show ?thesis by (auto simp: read_with_index_def)
    qed
  qed
qed

lemma ready_render:
  assumes "site_ready st entries" and "d \<in> set entries" and "fs_read (fs_path (st_fs st) (se_path d)) = Some raw"
  shows "\<exists>nodes toc. render_answer d b (renderMarkdown o1 raw) = Shown d b nodes toc"
proof -
  have "\<forall>l \<in> set (split_lines raw). \<not> stuck_line l" using ready_facts(4) [OF assms(1-3)] by blast
  with renderMarkdown_hangs have "renderMarkdown o1 raw \<noteq> None" by blast
  then show ?thesis by (auto simp: render_answer_def)
qed

lemma route_prefix_base: "l \<in> set site_langs \<Longrightarrow> resolved_base (route_prefix l) = page_base l"
  by (auto simp: site_langs_def route_prefix_def resolved_base_def page_base_def) code_simp+

text \<open>A document is found under a slug, directly or as the index of a directory.\<close>

definition found_at :: "site \<Rightarrow> string list \<Rightarrow> bool" where
  "found_at st s \<longleftrightarrow>
     (\<exists>p. read_with_index (readDocMarkdownBySlug (st_loc st) (st_fs st) (st_cwd st)) s = Some (Some p))"

lemma found_rendered:
  assumes ready: "site_ready st entries" and "read_with_index (readDocMarkdownBySlug (st_loc st) (st_fs st) (st_cwd st)) s = Some (Some p)"
  shows "\<exists>nodes toc. render_answer (fst p) b (renderMarkdown o1 (snd p)) = Shown (fst p) b nodes toc"
proof -
  from ready_read [OF ready, of s] assms(2)
  have "fst p \<in> set entries \<and> fs_read (fs_path (st_fs st) (se_path (fst p))) = Some (snd p)" by (cases p) simp
  with ready_render [OF ready] show ?thesis by blast
qed

lemma doc_shown:
  assumes ready: "site_ready st entries" and l: "l \<in> set site_langs"
    and f: "found_at st (route_slug l t) \<or> (l = Some ''fa'' \<and> take 1 t \<noteq> [''fa''] \<and> found_at st t)"
    and t: "t \<noteq> []" "route_slug l t \<noteq> [''index'']" "tryLegacyRedirect (route_slug l t) = None"
      "take 2 (route_slug l t) \<noteq> [''fa'', ''fa'']"
  shows "\<exists>n. doc_outcome st l t = ShowPage n"
proof -
  let ?rd = "readDocMarkdownBySlug (st_loc st) (st_fs st) (st_cwd st)" and ?s = "route_slug l t"
  have base: "resolved_base (route_prefix l) = page_base l" using route_prefix_base [OF l] .
  have ne: "?s \<noteq> []" using t(1) by (simp add: route_slug_def)
  have "\<exists>d b nodes toc. docPageAt (st_loc st) (st_fs st) (st_cwd st) (route_prefix l) ?s = Shown d b nodes toc"
  proof (cases "found_at st ?s")
    case True
    then obtain p where p: "read_with_index ?rd ?s = Some (Some p)" by (auto simp: found_at_def)
    with found_rendered [OF ready p] t ne show ?thesis
      by (simp add: docPageAt_def DocPage_def base normalizeSlug_def Let_def) blast
  next
    case False
    with f have fa: "l = Some ''fa''" "take 1 t \<noteq> [''fa'']" and ft: "found_at st t" by blast+
    then have s: "?s = ''fa'' # t" "page_base l = ''/fa''" by (simp_all add: route_slug_def page_base_def)
    from ft obtain p where p: "read_with_index ?rd t = Some (Some p)" by (auto simp: found_at_def)
    from ready_read [OF ready, of ?s] False have "read_with_index ?rd ?s = Some None" by (auto simp: found_at_def)
    with found_rendered [OF ready p] t ne s p show ?thesis
      by (simp add: docPageAt_def DocPage_def base normalizeSlug_def Let_def) blast
  qed
  then show ?thesis by (auto simp: doc_outcome_def page_outcome_def Let_def)
qed

lemma entry_found:
  assumes "site_ready st entries" and "e \<in> set entries" and "slug_key (se_slug e) = slug_key s"
  shows "found_at st s"
  using ready_read [OF assms(1), of s] assms(2,3) by (auto simp: found_at_def)

lemma needed_doc_shown:
  assumes ready: "site_ready st entries" and l: "l \<in> set site_langs" and k: "k \<in> set needed_docs"
  shows "\<exists>n. doc_outcome st l k = ShowPage n"
proof (rule doc_shown [OF ready l])
  have f: "found_at st k" using ready_facts(5) [OF ready k] entry_found [OF ready] by blast
  have c: "\<forall>k \<in> set needed_docs. \<forall>l \<in> set site_langs. k \<noteq> [] \<and> take 1 k \<noteq> [''fa''] \<and> route_slug l k \<noteq> [''index''] \<and>
      tryLegacyRedirect (route_slug l k) = None \<and> take 2 (route_slug l k) \<noteq> [''fa'', ''fa'']" by code_simp
  show "found_at st (route_slug l k) \<or> (l = Some ''fa'' \<and> take 1 k \<noteq> [''fa''] \<and> found_at st k)"
    using f c k l by (cases "l = Some ''fa''") (auto simp: route_slug_def)
  show "k \<noteq> []" "route_slug l k \<noteq> [''index'']" "tryLegacyRedirect (route_slug l k) = None"
    "take 2 (route_slug l k) \<noteq> [''fa'', ''fa'']" using c k l by blast+
qed

text \<open>A page in the language \<open>l\<close> is shown for a path, at once or after one redirect, which leads to
  the tree without a language or to one of the two languages. The language counts, because the route
  \<open>[lang]\<close> takes every segment for a language.\<close>

definition page_lang :: "site \<Rightarrow> visit \<Rightarrow> string \<Rightarrow> string option option" where
  "page_lang st vs path = map_option (\<lambda>r. fst (content_of st vs path r)) (route_of (segments path))"

definition shows_page :: "site \<Rightarrow> visit \<Rightarrow> string option \<Rightarrow> string \<Rightarrow> bool" where
  "shows_page st vs l path \<longleftrightarrow> page_lang st vs path = Some l \<and>
     (case serve st vs path of
        ShowPage _ \<Rightarrow> True
      | GoTo q \<Rightarrow>
          page_lang st vs q \<in> Some ` set site_langs \<and> (case serve st vs q of ShowPage _ \<Rightarrow> True | _ \<Rightarrow> False)
      | _ \<Rightarrow> False)"

lemma routes:
  "\<forall>l \<in> set site_langs. \<forall>p \<in> set all_pages. route_of (segments (page_base l @ ''/'' @ page_segment p)) = Some (RPage l p)"
  "\<forall>l \<in> set site_langs. \<forall>k \<in> set needed_docs. route_of (segments (page_base l @ ''/docs/'' @ join ''/'' k)) = Some (RDoc l k)"
  "\<forall>l \<in> set site_langs. route_of (segments (page_base l @ ''/docs'')) = Some (RDocsIndex l)"
  "\<forall>l \<in> set site_langs. route_of (segments (page_base l @ ''/docs/all'')) = Some (RDocsAll l)"
  "\<forall>l \<in> set site_langs. route_of (segments (page_base l @ ''/blog'')) = Some (RBlog l)"
  "\<forall>l \<in> set site_langs. route_of (segments (page_base l @ ''/updates'')) = Some (RUpdates l)"
  "\<forall>s \<in> {''en'', ''fa''}. route_of (segments (''/'' @ s)) = Some (RHome s) \<and> route_of (segments (''/'' @ s @ ''/'')) = Some (RHome s)"
  "route_of (segments ''/'') = Some RRoot" "route_of (segments ''/dashboard'') = Some RDashboard"
  "route_of (segments ''/dashboard/runtime'') = Some (RDashboardView ''runtime'')"
  by code_simp+

lemma serve_shows:
  assumes "route_of (segments path) = Some r" and "content_of st vs path r = (l, ShowPage n)"
  shows "shows_page st vs l path"
proof -
  from assms have "serve st vs path = ShowPage (framed st vs path (in_lang l n))" by (simp add: serve_def wrapped_def)
  with assms show ?thesis by (simp add: shows_page_def page_lang_def)
qed

lemma serve_redirects:
  assumes "route_of (segments path) = Some r" and "content_of st vs path r = (l, GoTo q)"
    and "route_of (segments q) = Some r2" and "content_of st vs q r2 = (l2, ShowPage n)" and "l2 \<in> set site_langs"
  shows "shows_page st vs l path"
proof -
  from assms have "serve st vs path = GoTo q" by (simp add: serve_def wrapped_def)
  moreover from assms have "serve st vs q = ShowPage (framed st vs q (in_lang l2 n))" by (simp add: serve_def wrapped_def)
  ultimately show ?thesis using assms by (simp add: shows_page_def page_lang_def)
qed

text \<open>Whether a page is shown depends on the segments of the path only; so a slash at the end, which the
  configuration of the site asks for, makes no difference.\<close>

lemma content_kind:
  "(\<exists>n. snd (content_of st vs p r) = ShowPage n) \<longleftrightarrow> (\<exists>n. snd (content_of st vs q r) = ShowPage n)"
  "snd (content_of st vs p r) = GoTo x \<longleftrightarrow> snd (content_of st vs q r) = GoTo x"
  "fst (content_of st vs p r) = fst (content_of st vs q r)"
  by (cases r; simp add: content_of_def)+

lemma serve_cases:
  "serve st vs p =
     (case route_of (segments p) of None \<Rightarrow> NoPage
      | Some r \<Rightarrow> wrapped (\<lambda>n. framed st vs p (in_lang (fst (content_of st vs p r)) n)) (snd (content_of st vs p r)))"
  by (simp add: serve_def split: option.split prod.split)

lemma wrapped_simps [simp]:
  "wrapped f r = ShowPage n \<longleftrightarrow> (\<exists>m. r = ShowPage m \<and> n = f m)" "wrapped f r = GoTo x \<longleftrightarrow> r = GoTo x"
  by (cases r; auto simp: wrapped_def)+

lemma shows_page_iff:
  "shows_page st vs l p \<longleftrightarrow> page_lang st vs p = Some l \<and>
     ((\<exists>n. serve st vs p = ShowPage n) \<or>
      (\<exists>q n. serve st vs p = GoTo q \<and> page_lang st vs q \<in> Some ` set site_langs \<and> serve st vs q = ShowPage n))"
  by (auto simp: shows_page_def split: outcome.splits)

lemma shows_page_segments:
  assumes "segments p = segments q"
  shows "shows_page st vs l p \<longleftrightarrow> shows_page st vs l q"
proof -
  have "(\<exists>n. serve st vs p = ShowPage n) \<longleftrightarrow> (\<exists>n. serve st vs q = ShowPage n)"
    using content_kind(1) [of st vs p _ q] by (simp add: serve_cases assms split: option.split)
  moreover have "serve st vs p = GoTo x \<longleftrightarrow> serve st vs q = GoTo x" for x
    using content_kind(2) [of st vs p _ x q] by (simp add: serve_cases assms split: option.split)
  moreover have "page_lang st vs p = page_lang st vs q"
    using content_kind(3) [of st vs p _ q] by (simp add: page_lang_def assms split: option.split)
  ultimately show ?thesis by (simp add: shows_page_iff)
qed

lemma segments_slash [simp]: "segments (p @ ''/'') = segments p"
  by (simp add: segments_def split_on_append)

lemma shows_page_slash: "shows_page st vs l (p @ ''/'') \<longleftrightarrow> shows_page st vs l p"
  by (rule shows_page_segments) simp

lemma with_docs_shown:
  "site_ready st entries \<Longrightarrow> f entries = ShowPage n \<Longrightarrow> \<exists>m. with_docs st l f = ShowPage m"
  by (simp add: with_docs_def ready_facts wrapped_def)

lemma docs_index_shown:
  assumes "site_ready st entries"
  shows "\<exists>n. docs_index_outcome st l = ShowPage n"
proof -
  let ?o = "if page_base l = ''/fa'' then [''fa'', ''index''] else [''index'']"
  have ix: "fs_ok (st_fs st)" "getDocsIndex (st_loc st) (st_fs st) (st_cwd st) = Some entries"
    using ready_facts [OF assms] by blast+
  obtain r where r: "readDocMarkdownBySlug (st_loc st) (st_fs st) (st_cwd st) ?o = Some r"
    "\<forall>d raw. r = Some (d, raw) \<longrightarrow> d \<in> set entries \<and> fs_read (fs_path (st_fs st) (se_path d)) = Some raw"
    using doc_read [OF ix] by blast
  have "\<exists>n. DocsIndexPage (st_copy st) (Some entries) (readDocMarkdownBySlug (st_loc st) (st_fs st) (st_cwd st)) l = Seen n"
  proof (cases r)
    case None
    with r show ?thesis by (simp add: DocsIndexPage_def Let_def)
  next
    case (Some p)
    with r have "fst p \<in> set entries" "fs_read (fs_path (st_fs st) (se_path (fst p))) = Some (snd p)" by (cases p; simp)+
    then have "\<forall>l \<in> set (split_lines (snd p)). \<not> stuck_line l" using ready_facts(4) [OF assms] by blast
    with renderMarkdown_hangs have "renderMarkdown (doc_opts ?o (page_base l) None) (snd p) \<noteq> None" by blast
    then obtain nodes toc where "renderMarkdown (doc_opts ?o (page_base l) None) (snd p) = Some (nodes, toc)" by auto
    with r(1) Some show ?thesis by (simp add: DocsIndexPage_def Let_def split: if_splits)
  qed
  then obtain n where
    "DocsIndexPage (st_copy st) (Some entries) (readDocMarkdownBySlug (st_loc st) (st_fs st) (st_cwd st)) l = Seen n" ..
  moreover have "site_docs st = Some entries" using ready_facts [OF assms] by blast
  ultimately show ?thesis by (simp add: docs_index_outcome_def)
qed

lemma docs_all_content:
  assumes "site_ready st entries" and "route_of (segments path) = Some (RDocsAll l)"
  shows "shows_page st vs l path"
proof -
  obtain m where "with_docs st l (\<lambda>entries. ShowPage (DocsAllView (st_copy st) (st_loc st) entries l)) = ShowPage m"
    using with_docs_shown [OF assms(1), of "\<lambda>entries. ShowPage (DocsAllView (st_copy st) (st_loc st) entries l)"] by blast
  then show ?thesis by (intro serve_shows [OF assms(2)]) (simp add: content_of_def)
qed

lemma docs_index_content:
  assumes "site_ready st entries" and "route_of (segments path) = Some (RDocsIndex l)"
  shows "shows_page st vs l path"
proof -
  obtain n where "docs_index_outcome st l = ShowPage n" using docs_index_shown [OF assms(1)] by blast
  then obtain m where "with_docs st l (\<lambda>_. docs_index_outcome st l) = ShowPage m"
    using with_docs_shown [OF assms(1), of "\<lambda>_. docs_index_outcome st l"] by blast
  then show ?thesis by (intro serve_shows [OF assms(2)]) (simp add: content_of_def)
qed

lemma docs_all_shown:
  assumes "site_ready st entries" and "l \<in> set site_langs"
  shows "shows_page st vs l (page_base l @ ''/docs/all'')"
  using routes(4) assms(2) by (intro docs_all_content [OF assms(1)]) blast

lemma page_base_cases:
  assumes "l \<in> set site_langs" and "l \<noteq> None"
  shows "\<exists>x \<in> {''en'', ''fa''}. l = Some x \<and> page_base l = ''/'' @ x"
proof -
  from assms consider "l = Some ''en''" | "l = Some ''fa''" unfolding site_langs_def by fastforce
  then show ?thesis by cases (simp_all add: page_base_def)
qed

lemma RootPage_cases: "\<exists>x \<in> {''en'', ''fa''}. RootPage a = ''/'' @ x"
  by (simp add: RootPage_def)

lemma home_route:
  "x \<in> {''en'', ''fa''} \<Longrightarrow> route_of (segments (''/'' @ x)) = Some (RHome x)"
  "x \<in> {''en'', ''fa''} \<Longrightarrow> route_of (segments (''/'' @ x @ ''/'')) = Some (RHome x)"
  using routes(7) by blast+

lemma home_content:
  "content_of st vs path (RHome x) = (Some x,
     ShowPage (HomePage (st_copy st) (Some path) (site_releases st) x (vs_download vs) (vs_copied vs)))"
  by (simp add: content_of_def)

lemma target_shown:
  assumes ready: "site_ready st entries" and l: "l \<in> set site_langs" and s: "s \<in> set link_targets"
  shows "shows_page st vs l (page_base l @ s)"
proof -
  from s consider (page) p where "p \<in> set all_pages" "s = ''/'' @ page_segment p"
    | (doc) k where "k \<in> set needed_docs" "s = ''/docs/'' @ join ''/'' k" | (docs) "s = ''/docs''" | (home) "s = ''/''"
    by (auto simp: link_targets_def)
  then show ?thesis
  proof cases
    case page
    with l routes(1) have "route_of (segments (page_base l @ s)) = Some (RPage l p)" by blast
    then show ?thesis by (rule serve_shows) (simp add: content_of_def)
  next
    case doc
    with l routes(2) have r: "route_of (segments (page_base l @ s)) = Some (RDoc l k)" by blast
    obtain n where "doc_outcome st l k = ShowPage n" using needed_doc_shown [OF ready l doc(1)] by blast
    then obtain m where "with_docs st l (\<lambda>_. doc_outcome st l k) = ShowPage m"
      using with_docs_shown [OF ready, of "\<lambda>_. doc_outcome st l k"] by blast
    then show ?thesis by (intro serve_shows [OF r]) (simp add: content_of_def)
  next
    case docs
    with l routes(3) have r: "route_of (segments (page_base l @ s)) = Some (RDocsIndex l)" by blast
    from docs_index_content [OF ready r] show ?thesis .
  next
    case home
    show ?thesis
    proof (cases "l = None")
      case True
      then have r: "route_of (segments (page_base l @ s)) = Some RRoot" using home routes(8) by (simp add: page_base_def)
      obtain x where q: "x \<in> {''en'', ''fa''}" "RootPage (vs_accept vs) = ''/'' @ x" using RootPage_cases by blast
      have g: "content_of st vs (page_base l @ s) RRoot = (l, GoTo (RootPage (vs_accept vs)))"
        using True by (simp add: content_of_def)
      have "Some x \<in> set site_langs" using q(1) by (auto simp: site_langs_def)
      with serve_redirects [OF r g home_route(1) [OF q(1), folded q(2)] home_content] show ?thesis .
    next
      case False
      with l obtain x where x: "x \<in> {''en'', ''fa''}" "page_base l = ''/'' @ x" "l = Some x" using page_base_cases by blast
      then have "page_base l @ s = ''/'' @ x @ ''/''" using home by simp
      with home_route(2) [OF x(1)] have "route_of (segments (page_base l @ s)) = Some (RHome x)" by simp
      then show ?thesis unfolding x(3) by (rule serve_shows [OF _ home_content])
    qed
  qed
qed

text \<open>The header and the footer on a path with the language prefix of \<open>l\<close>.\<close>

lemma header_links:
  assumes "header_basePrefix (Some path) = page_base l" and "h \<in> set (hrefs (SiteHeader cp (Some path) th menu))"
  shows "h = otherLangHref (Some path) \<or> h = homeHref (Some path) \<or> (\<exists>s \<in> set nav_hrefs. h = header_hrefFor (Some path) s)"
proof -
  have nav: "set (all_hrefs (map (header_link cp (Some path) c) navItems)) = header_hrefFor (Some path) ` set nav_hrefs" for c
    unfolding nav_hrefs_items [symmetric] by (simp add: all_hrefs_map header_link_def image_Union image_image) auto
  have "hrefs (ThemeToggle th) = []" by (simp add: ThemeToggle_def inert_reads)
  with assms(2) nav show ?thesis by (auto simp: SiteHeader_def Let_def nav_hrefs_def split: if_splits)
qed


lemma nav_shown:
  assumes ready: "site_ready st entries" and l: "l \<in> set site_langs" and s: "s \<in> set nav_hrefs"
    and d: "s \<noteq> ''/dashboard'' \<or> l = None"
  shows "shows_page st vs l (page_base l @ s)"
proof -
  from s have "s \<in> set link_targets \<or> s = ''/blog'' \<or> s = ''/updates'' \<or> s = ''/dashboard''"
    by (auto simp: nav_hrefs_def link_targets_def all_pages_def page_segment_def)
  then consider "s \<in> set link_targets" | "s = ''/blog''" | "s = ''/updates''" | "s = ''/dashboard''" by blast
  then show ?thesis
  proof cases
    case 1
    with target_shown [OF ready l] show ?thesis by blast
  next
    case 2
    with l routes(5) have r: "route_of (segments (page_base l @ s)) = Some (RBlog l)" by blast
    have "site_posts st CBlog l \<noteq> None" using ready_facts(6) [OF ready] by blast
    then obtain posts where "site_posts st CBlog l = Some posts" by auto
    then show ?thesis by (intro serve_shows [OF r]) (simp add: content_of_def with_posts_def)
  next
    case 3
    with l routes(6) have r: "route_of (segments (page_base l @ s)) = Some (RUpdates l)" by blast
    have "site_posts st CUpdates l \<noteq> None" using ready_facts(6) [OF ready] by blast
    then obtain posts where "site_posts st CUpdates l = Some posts" by auto
    then show ?thesis by (intro serve_shows [OF r]) (simp add: content_of_def with_posts_def)
  next
    case 4
    with d routes(9) have r: "route_of (segments (page_base l @ s)) = Some RDashboard" by (simp add: page_base_def)
    have g: "content_of st vs (page_base l @ s) RDashboard = (l, GoTo ''/dashboard/runtime'')"
      using 4 d by (simp add: content_of_def DashboardIndex_def)
    have n: "content_of st vs ''/dashboard/runtime'' (RDashboardView ''runtime'') =
        (None, ShowPage (DashboardLayout [vs_dashboard vs ''runtime'']))" by (simp add: content_of_def)
    show ?thesis by (rule serve_redirects [OF r g routes(10) n]) (simp add: site_langs_def)
  qed
qed

text \<open>The paths of the main pages, after the language.\<close>

definition main_paths :: "string list" where
  "main_paths = [] # map (\<lambda>p. ''/'' @ page_segment p) all_pages @ [''/docs'', ''/docs/all'', ''/blog'', ''/updates'']"

lemma frame_bases:
  "\<forall>l \<in> set site_langs. \<forall>s \<in> set main_paths. \<forall>t \<in> {[], ''/''}. l \<noteq> None \<or> s \<noteq> [] \<longrightarrow>
     header_basePrefix (Some (page_base l @ s @ t)) = page_base l \<and> getLangPrefix (Some (page_base l @ s @ t)) = page_base l \<and>
     (let other = (if l = Some ''fa'' then ''/en'' else ''/fa'') in
      otherLangHref (Some (page_base l @ s @ t)) \<in> {other @ s, other @ s @ ''/''})"
  by code_simp

definition footer_hrefs :: "string list" where
  "footer_hrefs = [''/docs'', ''/docs/install'', ''/docs/architecture'', ''/docs/threat-model'', ''/download'', ''/support'']"

lemma localized:
  assumes "getLangPrefix (Some path) = page_base l" and "l \<in> set site_langs" and "h \<in> set footer_hrefs"
  shows "localizedHref (Some path) h = page_base l @ h"
proof -
  have "\<forall>l \<in> set site_langs. \<forall>h \<in> set footer_hrefs. starts_with ''/'' h \<and> h \<noteq> ''/'' \<and> (page_base l = [] \<or> \<not> under (page_base l) h)"
    by code_simp
  with assms show ?thesis by (auto simp: localizedHref_def Let_def)
qed

lemma footer_links:
  assumes "h \<in> set (hrefs (SiteFooter (Some path) rel yr))" and "page_link h"
  shows "\<exists>s \<in> set footer_hrefs. h = localizedHref (Some path) s"
proof -
  have "all_hrefs (when_some release_note rel) = []"
    by (cases rel) (simp_all add: release_note_def split: option.split)
  with assms show ?thesis by (auto simp: SiteFooter_def LocalizedLink_def not_page_link footer_hrefs_def)
qed

text \<open>The start page of a language, and every main page of it.\<close>

lemma home_shown:
  assumes "site_ready st entries" and "l \<in> set site_langs"
  shows "shows_page st vs l (if page_base l = [] then ''/'' else page_base l)"
proof (cases "l = None")
  case True
  then show ?thesis using target_shown [OF assms, of "''/''" vs] by (simp add: page_base_def)
next
  case False
  then obtain x where x: "x \<in> {''en'', ''fa''}" "page_base l = ''/'' @ x" "l = Some x"
    using page_base_cases [OF assms(2)] by blast
  with home_route(1) [OF x(1)] have "route_of (segments (page_base l)) = Some (RHome x)" by simp
  from serve_shows [OF this home_content] x(2,3) show ?thesis by simp
qed

lemma main_shown:
  assumes ready: "site_ready st entries" and x: "x = ''/en'' \<and> l = Some ''en'' \<or> x = ''/fa'' \<and> l = Some ''fa''"
    and s: "s \<in> set main_paths"
  shows "shows_page st vs l (x @ s)"
proof -
  have l: "l \<in> set site_langs" "page_base l = x" "page_base l \<noteq> []"
    using x by (auto simp: site_langs_def page_base_def)
  have "\<forall>s \<in> set main_paths. s = [] \<or> s \<in> set link_targets \<or> s = ''/docs/all'' \<or> (s \<in> set nav_hrefs \<and> s \<noteq> ''/dashboard'')"
    by code_simp
  with s consider "s = []" | "s \<in> set link_targets" | "s = ''/docs/all''" | "s \<in> set nav_hrefs" "s \<noteq> ''/dashboard''"
    by blast
  then show ?thesis
  proof cases
    case 1
    with home_shown [OF ready l(1)] l(2,3) show ?thesis by simp
  next
    case 2
    with target_shown [OF ready l(1)] l(2) show ?thesis by blast
  next
    case 3
    with docs_all_shown [OF ready l(1)] l(2) show ?thesis by simp
  next
    case 4
    with nav_shown [OF ready l(1)] l(2) show ?thesis by blast
  qed
qed

text \<open>What the header and the footer of such a path compute, and that the links of the header are answered.\<close>

lemma frame_facts:
  assumes "l \<in> set site_langs" and "s \<in> set main_paths" and "l \<noteq> None \<or> s \<noteq> []"
    and "path = page_base l @ s \<or> path = page_base l @ s @ ''/''"
  shows "header_basePrefix (Some path) = page_base l" and "getLangPrefix (Some path) = page_base l"
    and "otherLangHref (Some path) \<in> {(if l = Some ''fa'' then ''/en'' else ''/fa'') @ s,
      ((if l = Some ''fa'' then ''/en'' else ''/fa'') @ s) @ ''/''}"
proof -
  from assms(4) obtain t where "t \<in> {[], ''/''}" "path = page_base l @ s @ t" by auto
  with frame_bases assms(1-3)
  show "header_basePrefix (Some path) = page_base l" "getLangPrefix (Some path) = page_base l"
    "otherLangHref (Some path) \<in> {(if l = Some ''fa'' then ''/en'' else ''/fa'') @ s,
      ((if l = Some ''fa'' then ''/en'' else ''/fa'') @ s) @ ''/''}"
    unfolding Let_def append_assoc by blast+
qed

definition other_of :: "string option \<Rightarrow> string option" where
  "other_of l = (if l = Some ''fa'' then Some ''en'' else Some ''fa'')"

lemma other_lang_shown:
  assumes "site_ready st entries" and "l \<in> set site_langs" and "s \<in> set main_paths" and "l \<noteq> None \<or> s \<noteq> []"
    and "path = page_base l @ s \<or> path = page_base l @ s @ ''/''"
  shows "shows_page st vs (other_of l) (otherLangHref (Some path))"
proof -
  have "shows_page st vs (other_of l) ((if l = Some ''fa'' then ''/en'' else ''/fa'') @ s)"
    using main_shown [OF assms(1) _ assms(3), of "''/en''" "Some ''en''" vs]
      main_shown [OF assms(1) _ assms(3), of "''/fa''" "Some ''fa''" vs] by (simp add: other_of_def)
  with frame_facts(3) [OF assms(2-5)] show ?thesis
    unfolding insert_iff empty_iff by (elim disjE FalseE) (simp_all only: shows_page_slash)
qed

lemma header_shown:
  assumes ready: "site_ready st entries" "l \<in> set site_langs" "s \<in> set main_paths" "l \<noteq> None \<or> s \<noteq> []"
    "path = page_base l @ s \<or> path = page_base l @ s @ ''/''"
    and h: "h \<in> set (hrefs (SiteHeader cp (Some path) th menu))" and d: "l \<noteq> None \<longrightarrow> h \<noteq> page_base l @ ''/dashboard''"
  shows "h = otherLangHref (Some path) \<or> shows_page st vs l h"
proof -
  note b = frame_facts(1) [OF ready(2-5)]
  have home: "shows_page st vs l (if page_base l = [] then ''/'' else page_base l)"
    using home_shown [OF ready(1,2)] .
  from header_links [OF b h] consider "h = otherLangHref (Some path)" | "h = homeHref (Some path)"
    | x where "x \<in> set nav_hrefs" "h = header_hrefFor (Some path) x" by blast
  then show ?thesis
  proof cases
    case 1
    then show ?thesis by simp
  next
    case 2
    with home b show ?thesis by (simp add: homeHref_def Let_def)
  next
    case 3
    show ?thesis
    proof (cases "x = ''/''")
      case True
      with 3 home b show ?thesis by (simp add: header_hrefFor_def Let_def split: if_splits)
    next
      case False
      with 3 b have "h = page_base l @ x" by (simp add: header_hrefFor_def Let_def)
      with nav_shown [OF ready(1,2) 3(1)] d show ?thesis by blast
    qed
  qed
qed

section \<open>Lemmas: the anchor of the downloads\<close>

text \<open>The start page has the section under two elements with the same id, and no link to it, which the end-to-end
  test of the start page looks for.\<close>

lemma lang_attrs_reads:
  "(case map_of (lang_attrs l) ''href'' of None \<Rightarrow> [] | Some h \<Rightarrow> [h]) = []"
  "(case map_of (lang_attrs l) ''id'' of None \<Rightarrow> [] | Some h \<Rightarrow> [h]) = []"
  by (simp_all add: lang_attrs_def)

lemma home_hrefs:
  "hrefs (HomePage cp pathname releases x ui copied) =
     (let lang = resolveUILang (Some x); base = ''/'' @ lang_code lang in
      hrefs (home_header cp lang base) @ hrefs (safety_notice cp lang base) @ hrefs (home_parts cp lang) @
      hrefs (home_abilities cp lang) @ hrefs (home_start cp lang base) @
      hrefs (DownloadSection cp pathname releases (Some base) ui copied) @
      hrefs (home_contribute cp lang base) @ hrefs (home_license cp lang))"
  unfolding HomePage_def Let_def hrefs_simps all_hrefs_simps lang_attrs_reads by simp

lemma home_ids:
  "anchor_ids (HomePage cp pathname releases x ui copied) =
     (let lang = resolveUILang (Some x); base = ''/'' @ lang_code lang in
      anchor_ids (home_header cp lang base) @ anchor_ids (safety_notice cp lang base) @ anchor_ids (home_parts cp lang) @
      anchor_ids (home_abilities cp lang) @ anchor_ids (home_start cp lang base) @
      ''downloads'' # anchor_ids (DownloadSection cp pathname releases (Some base) ui copied) @
      anchor_ids (home_contribute cp lang base) @ anchor_ids (home_license cp lang))"
  unfolding HomePage_def Let_def anchor_ids_simps all_ids_simps lang_attrs_reads by simp

lemma home_anchor_twice:
  "\<exists>xs ys zs. anchor_ids (HomePage cp pathname releases x ui copied) = xs @ ''downloads'' # ys @ ''downloads'' # zs"
proof -
  let ?base = "''/'' @ lang_code (resolveUILang (Some x))"
  have "\<exists>ys. anchor_ids (DownloadSection cp pathname releases (Some ?base) ui copied) = ''downloads'' # ys"
    by (simp add: DownloadSection_def Let_def)
  then obtain ys where ys: "anchor_ids (DownloadSection cp pathname releases (Some ?base) ui copied) = ''downloads'' # ys" ..
  have "xs @ ''downloads'' # (''downloads'' # ys) @ zs = xs @ ''downloads'' # [] @ ''downloads'' # (ys @ zs)" for xs zs
    by simp
  then show ?thesis unfolding home_ids Let_def ys append_assoc [symmetric] by (metis append_assoc)
qed

lemma section_addresses:
  assumes "h \<in> set (hrefs (DownloadSection cp pathname (site_releases st) (Some (page_base l)) ui copied))" and "l \<noteq> None"
    and "l \<in> set site_langs"
  shows "\<not> starts_with ''#'' h"
proof -
  from section_hrefs [of cp pathname "site_releases st" "Some (page_base l)" ui copied] assms(1)
  consider "h \<in> set (saves (DownloadSection cp pathname (site_releases st) (Some (page_base l)) ui copied))"
    | "starts_with githubRepo h" | s where "h = page_base l @ s" unfolding hrefFor_base by blast
  then show ?thesis
  proof cases
    case 1
    with section_saves_address starts_hash show ?thesis by blast
  next
    case 2
    with starts_hash show ?thesis by blast
  next
    case 3
    with page_base_cases [OF assms(3,2)] show ?thesis by (auto simp: starts_with_iff)
  qed
qed

lemma home_no_anchor_link: "''#downloads'' \<notin> set (hrefs (HomePage cp pathname (site_releases st) x ui copied))"
proof -
  define l where "l = Some (lang_code (resolveUILang (Some x)))"
  have l: "l \<noteq> None" "l \<in> set site_langs" "''/'' @ lang_code (resolveUILang (Some x)) = page_base l"
    by (simp_all add: l_def site_langs_def resolveUILang_def lang_code_def page_base_def)
  have a: "''#downloads'' \<notin> set (hrefs (DownloadSection cp pathname (site_releases st) (Some (page_base l)) ui copied))"
    using section_addresses [OF _ l(1,2), of "''#downloads''"] by (auto simp: starts_with_def)
  obtain b where b: "page_base l = CHR ''/'' # b" using page_base_cases [OF l(2,1)] by auto
  have "''#downloads'' \<notin> set (hrefs (home_header cp lang (CHR ''/'' # b)))"
    "''#downloads'' \<notin> set (hrefs (safety_notice cp lang (CHR ''/'' # b)))"
    "''#downloads'' \<notin> set (hrefs (home_parts cp lang))" "''#downloads'' \<notin> set (hrefs (home_abilities cp lang))"
    "''#downloads'' \<notin> set (hrefs (home_start cp lang (CHR ''/'' # b)))"
    "''#downloads'' \<notin> set (hrefs (home_contribute cp lang (CHR ''/'' # b)))"
    "''#downloads'' \<notin> set (hrefs (home_license cp lang))" for lang
    by (simp_all add: home_header_def home_parts_def home_abilities_def safety_notice_def home_start_def
        home_contribute_def home_license_def Let_def)
  then show ?thesis using a unfolding home_hrefs Let_def l(3) b set_append Un_iff by blast
qed

section \<open>A sample site\<close>

definition md_file :: "string \<times> string \<Rightarrow> string \<times> fs_node" where
  "md_file f = (fst f @ ''.md'', File (Some (''# '' @ snd f)) 10 0)"

definition sample_docs_dir :: fs_node where
  "sample_docs_dir =
     Dir (map md_file [(''index'', ''Docs''), (''install'', ''Install''), (''architecture'', ''Architecture''), (''threat-model'', ''Threats'')] @
       [(''install'', Dir [md_file (''android'', ''Android'')]),
        (''user'', Dir [md_file (''safety'', ''Safety'')]),
        (''outside'', Dir [md_file (''verification'', ''Verification'')]),
        (''governance'', Dir [md_file (''model'', ''Model'')]),
        (''fa'', Dir [md_file (''index'', ''Docs''), md_file (''install'', ''Install'')])])"

definition sample_posts_dir :: fs_node where
  "sample_posts_dir = Dir [(''blog'', Dir [md_file (''first'', ''First'')]), (''updates'', Dir [])]"

definition sample_env :: support_env where
  "sample_env = \<lparr>sv_referralUrl = None, sv_maxReward = None, sv_qrImage = None, sv_xmr = None, sv_btc = None, sv_usdt = None\<rparr>"

definition sample_copy :: site_copy where
  "sample_copy = \<lparr>cp_ui = \<lambda>_ k. k, cp_site = \<lambda>_ k. k, cp_list = \<lambda>_ _. [], cp_fa = \<lambda>_ s. s\<rparr>"

definition ready_site :: site where
  "ready_site = \<lparr>st_loc = \<lambda>_ _. 0,
     st_fs = Dir [(''docs'', sample_docs_dir), (''content'', Dir [(''en'', sample_posts_dir), (''fa'', sample_posts_dir)])],
     st_cwd = [], st_copy = sample_copy, st_env = sample_env, st_year = 2025\<rparr>"
definition sample_visit :: visit where
  "sample_visit =
     \<lparr>vs_download = download_init [] None, vs_copied = \<lambda>_. False, vs_donation = None, vs_menu = False, vs_theme = Dark,
      vs_accept = None, vs_dashboard = \<lambda>v. Text v\<rparr>"

definition ready_entry :: "string list \<times> string list \<times> string \<Rightarrow> site_entry" where
  "ready_entry e = \<lparr>se_slug = fst e, se_path = ''docs'' # fst (snd e), se_title = snd (snd e)\<rparr>"

definition ready_entries :: "site_entry list" where
  "ready_entries = map ready_entry
     [([''index''], [''index.md''], ''Docs''), ([''install''], [''install.md''], ''Install''),
      ([''architecture''], [''architecture.md''], ''Architecture''), ([''threat-model''], [''threat-model.md''], ''Threats''),
      ([''install'', ''android''], [''install'', ''android.md''], ''Android''),
      ([''user'', ''safety''], [''user'', ''safety.md''], ''Safety''),
      ([''outside'', ''verification''], [''outside'', ''verification.md''], ''Verification''),
      ([''governance'', ''model''], [''governance'', ''model.md''], ''Model''),
      ([''fa'', ''index''], [''fa'', ''index.md''], ''Docs''), ([''fa'', ''install''], [''fa'', ''install.md''], ''Install'')]"

lemma ready_site_index: "site_docs ready_site = Some ready_entries"
  by code_simp

lemma ready_site_docs:
  "\<exists>entries. entries = ready_entries \<and> site_docs ready_site = Some entries \<and> site_ready ready_site entries \<and> single_index entries \<and>
     (\<forall>e \<in> set entries. take 2 (se_slug e) \<noteq> [''fa'', ''fa'']) \<and> [''user'', ''safety''] \<in> se_slug ` set entries"
proof -
  have "fs_ok (st_fs ready_site)" by code_simp
  moreover have "\<forall>e \<in> set ready_entries.
      case fs_read (fs_path (st_fs ready_site) (se_path e)) of None \<Rightarrow> True | Some raw \<Rightarrow> \<forall>l \<in> set (split_lines raw). \<not> stuck_line l"
    by code_simp
  moreover have "\<forall>k \<in> set needed_docs. \<exists>e \<in> set ready_entries. slug_key (se_slug e) = slug_key k" by code_simp
  moreover have "\<forall>t \<in> {CBlog, CUpdates}. \<forall>l \<in> {En, Fa}.
      getContentIndex (st_loc ready_site) (st_fs ready_site) (st_cwd ready_site) t l \<noteq> None" by code_simp
  ultimately have "site_ready ready_site ready_entries" using ready_site_index unfolding site_ready_def by blast
  moreover have "single_index ready_entries"
    "(\<forall>e \<in> set ready_entries. take 2 (se_slug e) \<noteq> [''fa'', ''fa'']) \<and> [''user'', ''safety''] \<in> se_slug ` set ready_entries"
    by code_simp+
  ultimately show ?thesis using ready_site_index by blast
qed

text \<open>Every segment is a language to the route \<open>[lang]\<close>: an address that does not exist shows the English start
  page.\<close>

lemma unknown_address_shows_home:
  "serve st vs ''/no-such-page'' = ShowPage (framed st vs ''/no-such-page'' (LangLayout ''no-such-page''
     [HomePage (st_copy st) (Some ''/no-such-page'') (site_releases st) ''no-such-page'' (vs_download vs) (vs_copied vs)]))"
proof -
  have r: "route_of (segments ''/no-such-page'') = Some (RHome ''no-such-page'')" by code_simp
  show ?thesis by (simp add: serve_def r content_of_def in_lang_def wrapped_def)
qed

section \<open>Properties\<close>

text \<open>C3: no page has a dead link: on a site whose documents and posts can be read and that has the documents which
  the pages name, every link of the start page and of each of the ten fixed pages to a page of the site, in the
  tree without a language and in both languages, is answered by a page of the same tree, after at most one
  redirect.\<close>

theorem page_links_served:
  assumes "site_ready st entries" and "l \<in> set site_langs" and "\<not> page_link (revolutReferralUrl (st_env st))"
    and "(\<exists>p. r = RPage l p) \<or> (\<exists>x. l = Some x \<and> r = RHome x)"
    and "content_of st vs path r = (l, ShowPage n)" and "h \<in> set (hrefs n)" and "page_link h"
  shows "shows_page st vs2 l h"
proof -
  have "links_ok l (hrefs n)"
    using assms(4)
  proof (elim disjE exE conjE)
    fix p assume "r = RPage l p"
    with assms(5) have "n = static_page st vs path l p" by (simp add: content_of_def)
    with static_page_links [OF assms(3)] show ?thesis by simp
  next
    fix x assume x: "l = Some x" "r = RHome x"
    with assms(2) have "x \<in> {''en'', ''fa''}" by (simp add: site_langs_def)
    moreover from x assms(5)
    have "n = HomePage (st_copy st) (Some path) (site_releases st) x (vs_download vs) (vs_copied vs)"
      by (simp add: content_of_def)
    ultimately show ?thesis using home_page_links [OF x(1)] by simp
  qed
  with assms(6,7) obtain s where "s \<in> set link_targets" "h = page_base l @ s" by (auto simp: links_ok_def)
  with target_shown [OF assms(1,2)] show ?thesis by blast
qed

theorem page_links_served_witness: "shows_page ready_site sample_visit (Some ''fa'') ''/fa/docs/install''"
proof -
  obtain entries where e: "site_ready ready_site entries" using ready_site_docs by blast
  have a: "Some ''fa'' \<in> set site_langs" "\<not> page_link (revolutReferralUrl (st_env ready_site))" "page_link ''/fa/docs/install''"
    by code_simp+
  have h: "''/fa/docs/install'' \<in> set (hrefs (static_page ready_site sample_visit ''/fa/download'' (Some ''fa'') PgDownload))"
    by code_simp
  have c: "content_of ready_site sample_visit ''/fa/download'' (RPage (Some ''fa'') PgDownload) =
      (Some ''fa'', ShowPage (static_page ready_site sample_visit ''/fa/download'' (Some ''fa'') PgDownload))"
    by (simp add: content_of_def)
  show ?thesis by (rule page_links_served [OF e a(1,2) _ c h a(3)]) blast
qed



end
