(* ===== verification/Docs_Links.thy ===== *)
theory Docs_Links
  imports Site_Links
begin

text \<open>
  The links of the documentation, followed: the navigation beside every documentation page and the
  list of all documents (\<open>Doc_Pages\<close>, \<open>Doc_Views\<close>) lead to pages, and the list
  has every document of the language once; and the old addresses, which ones are redirected and
  where they lead.
\<close>

section \<open>Lemmas: slugs and their addresses\<close>

definition clean_slug :: "string list \<Rightarrow> bool" where
  "clean_slug slug \<longleftrightarrow> (\<forall>w \<in> set slug. w \<noteq> [] \<and> CHR ''/'' \<notin> set w)"

lemma slug_of_clean: "clean_slug (slug_of rel)"
  by (auto simp: clean_slug_def slug_of_def dest: split_on_no_sep)

lemma docs_clean:
  assumes "getDocsIndex loc fs cwd = Some entries" and "e \<in> set entries"
  shows "clean_slug (se_slug e)"
proof -
  from assms(1) obtain ws es where w: "walk (findDocsRoot fs cwd) [] es = Some ws" "set entries = set ws"
    by (auto simp: getDocsIndex_def walk_tree_def split: option.splits)
  from assms(2) w(2) have "(se_slug e, se_path e) \<in> (\<lambda>e. (se_slug e, se_path e)) ` set ws" by auto
  with walk_visible [OF w(1)] have "\<exists>p. se_slug e = slug_of p" by auto
  with slug_of_clean show ?thesis by metis
qed

lemma clean_with_index_parent: "clean_slug s \<Longrightarrow> t \<in> set (with_index_parent s) \<Longrightarrow> clean_slug t"
  by (auto simp: clean_slug_def with_index_parent_def dest: in_set_butlastD split: if_splits)

definition base_segments :: "string option \<Rightarrow> string list" where
  "base_segments l = (if l = Some ''fa'' then [''fa''] else if l = Some ''en'' then [''en''] else [])"

lemma clean_slug_append:
  "clean_slug (xs @ ys) \<longleftrightarrow> clean_slug xs \<and> clean_slug ys"
  "clean_slug (w # ys) \<longleftrightarrow> w \<noteq> [] \<and> CHR ''/'' \<notin> set w \<and> clean_slug ys"
  by (auto simp: clean_slug_def)

lemma clean_base: "clean_slug (base_segments l)"
  by (simp add: clean_slug_def base_segments_def)

lemma join_Cons: "ws \<noteq> [] \<Longrightarrow> join d (w # ws) = w @ d @ join d ws"
  by (cases ws) auto

lemma segments_join:
  assumes "clean_slug ws" and "ws \<noteq> []"
  shows "segments (''/'' @ join ''/'' ws) = ws"
proof -
  have "''/'' @ join ''/'' ws = join ''/'' ([] # ws)" using assms(2) by (simp add: join_Cons)
  moreover have "split_on (CHR ''/'') (join ''/'' ([] # ws)) = [] # ws"
    using assms(1) by (intro split_on_join) (auto simp: clean_slug_def)
  ultimately show ?thesis using assms(1) by (auto simp: segments_def clean_slug_def filter_id_conv)
qed

lemma base_path:
  assumes "ws \<noteq> []"
  shows "page_base l @ ''/'' @ join ''/'' ws = ''/'' @ join ''/'' (base_segments l @ ws)"
proof -
  have "page_base l = concat (map (\<lambda>s. ''/'' @ s) (base_segments l))" "length (base_segments l) \<le> 1"
    by (simp_all add: page_base_def base_segments_def)
  then show ?thesis using assms by (cases "base_segments l") (simp_all add: join_Cons)
qed

lemma docs_segments:
  assumes "clean_slug t" and "t \<noteq> []"
  shows "segments (page_base l @ ''/docs/'' @ join ''/'' t) = base_segments l @ ''docs'' # t"
proof -
  have "''/docs/'' @ join ''/'' t = ''/'' @ join ''/'' (''docs'' # t)" using assms(2) by (simp add: join_Cons)
  then have "page_base l @ ''/docs/'' @ join ''/'' t = ''/'' @ join ''/'' (base_segments l @ ''docs'' # t)"
    using base_path [of "''docs'' # t" l] by simp
  moreover have "clean_slug (base_segments l @ ''docs'' # t)" using assms(1) clean_base by (simp add: clean_slug_append)
  ultimately show ?thesis using segments_join by simp
qed

lemma docs_route:
  assumes "l \<in> set site_langs" and "t \<noteq> []"
  shows "route_of (base_segments l @ ''docs'' # t) = Some (if t = [''all''] then RDocsAll l else RDoc l t)"
proof -
  have a: "route_of (''docs'' # t) = Some (if t = [''all''] then RDocsAll None else RDoc None t)"
    using assms(2) by (simp add: route_of_def top_route_def shared_route_def)
  have b: "route_of (x # ''docs'' # t) = Some (if t = [''all''] then RDocsAll (Some x) else RDoc (Some x) t)"
    if "x \<in> {''en'', ''fa''}" for x
  proof -
    have "x \<noteq> ''docs''" "x \<noteq> ''blog''" "x \<noteq> ''updates''" "x \<noteq> ''dashboard''" using that by auto
    then show ?thesis using assms(2) by (simp add: route_of_def top_route_def lang_route_def shared_route_def)
  qed
  show ?thesis
  proof (cases "l = None")
    case True
    with a show ?thesis by (simp add: base_segments_def)
  next
    case False
    then obtain x where "x \<in> {''en'', ''fa''}" "l = Some x" using page_base_cases [OF assms(1)] by blast
    moreover from this have "base_segments l = [x]" by (auto simp: base_segments_def)
    ultimately show ?thesis using b by simp
  qed
qed

text \<open>The address of a document: that of its directory if it is an index.\<close>

definition shown_slug :: "string list \<Rightarrow> string list" where
  "shown_slug slug = (if 2 \<le> length slug \<and> ends_index slug then butlast slug else slug)"

lemma shown_slug_param: "shown_slug slug \<in> set (with_index_parent slug)"
  by (simp add: shown_slug_def with_index_parent_def)

lemma docHref_shown: "slug \<noteq> [''index''] \<Longrightarrow> docHref base slug = base @ ''/docs/'' @ join ''/'' (shown_slug slug)"
  by (simp add: docHref_def shown_slug_def Let_def)

lemma param_found:
  assumes ready: "site_ready st entries" and "single_index entries" and "e \<in> set entries"
    and "t \<in> set (with_index_parent (se_slug e))"
  shows "found_at st t"
  using read_param [OF ready_facts(1,3) [OF ready] assms(2-4)] by (auto simp: found_at_def)

lemma shown_slug_prefix: "\<exists>r. s = shown_slug s @ r"
proof (cases "2 \<le> length s \<and> ends_index s")
  case True
  then have "s = butlast s @ [last s]" by (cases s rule: rev_cases) auto
  with True show ?thesis by (auto simp: shown_slug_def)
qed (auto simp: shown_slug_def)

lemma take_shown_slug:
  assumes "take n (shown_slug s) = xs" and "length xs = n"
  shows "take n s = xs"
proof -
  obtain r where r: "s = shown_slug s @ r" using shown_slug_prefix by blast
  from assms have "n \<le> length (shown_slug s)" by auto
  then have "take n (shown_slug s @ r) = xs" using assms(1) by simp
  with r show ?thesis by simp
qed

lemma shown_slug_Cons: "slug \<noteq> [''index''] \<Longrightarrow> x # shown_slug slug \<in> set (with_index_parent (x # slug))"
  by (cases slug) (auto simp: shown_slug_def with_index_parent_def ends_index_def)

text \<open>What the route makes of such an address, and that no rule of the page redirects it.\<close>

lemma route_slug_facts:
  assumes ready: "site_ready st entries" and single: "single_index entries"
    and nofa: "\<forall>e \<in> set entries. take 2 (se_slug e) \<noteq> [''fa'', ''fa'']"
    and e: "e \<in> set entries" and slug: "se_slug e = slug \<or> (l = Some ''fa'' \<and> se_slug e = ''fa'' # slug)"
    and t: "t = shown_slug slug" "t \<noteq> []" and no: "slug \<noteq> [''index'']"
  shows "found_at st (route_slug l t) \<or> (l = Some ''fa'' \<and> take 1 t \<noteq> [''fa''] \<and> found_at st t)"
    and "route_slug l t \<noteq> [''index'']" and "take 2 (route_slug l t) \<noteq> [''fa'', ''fa'']"
    and "l = Some ''fa'' \<Longrightarrow> take 1 (route_slug l t) = [''fa'']"
proof -
  show fa: "take 1 (route_slug l t) = [''fa'']" if "l = Some ''fa''"
    using that t(2) by (auto simp: route_slug_def)
  have two: "take 2 slug \<noteq> [''fa'', ''fa'']" if "se_slug e = slug" using that nofa e by blast
  have hd1: "take 1 t \<noteq> [''fa'']" if "se_slug e = ''fa'' # slug"
  proof
    assume "take 1 t = [''fa'']"
    then have "take 1 slug = [''fa'']" using take_shown_slug [of 1 slug] t(1) by simp
    then have "take 2 (''fa'' # slug) = [''fa'', ''fa'']" by (cases slug) auto
    with nofa e that show False by metis
  qed
  show "found_at st (route_slug l t) \<or> (l = Some ''fa'' \<and> take 1 t \<noteq> [''fa''] \<and> found_at st t)"
  proof (cases "se_slug e = slug")
    case True
    then have "found_at st t" using param_found [OF ready single e] shown_slug_param t(1) by simp
    then show ?thesis by (auto simp: route_slug_def)
  next
    case False
    with slug have l: "l = Some ''fa''" and es: "se_slug e = ''fa'' # slug" by blast+
    then have "found_at st (''fa'' # t)" using param_found [OF ready single e] shown_slug_Cons [OF no] t(1) by simp
    with l hd1 [OF es] show ?thesis by (simp add: route_slug_def)
  qed
  show "route_slug l t \<noteq> [''index'']"
  proof (cases "l = Some ''fa''")
    case True
    show ?thesis
    proof
      assume "route_slug l t = [''index'']"
      with fa [OF True] show False by simp
    qed
  next
    case False
    with slug have es: "se_slug e = slug" by blast
    have "t \<noteq> [''index'']"
    proof
      assume x: "t = [''index'']"
      with no t(1) have "2 \<le> length slug \<and> ends_index slug" "butlast slug = [''index'']"
        by (auto simp: shown_slug_def split: if_splits)
      then have "ends_index (se_slug e) \<and> ends_index (butlast (se_slug e))" by (simp add: es ends_index_def)
      with single e show False by (auto simp: single_index_def)
    qed
    with False show ?thesis by (simp add: route_slug_def)
  qed
  show "take 2 (route_slug l t) \<noteq> [''fa'', ''fa'']"
  proof (cases "route_slug l t = t")
    case True
    show ?thesis
    proof
      assume x: "take 2 (route_slug l t) = [''fa'', ''fa'']"
      with True have "take 2 slug = [''fa'', ''fa'']" using take_shown_slug [of 2 slug] t(1) by simp
      moreover have "se_slug e = slug"
      proof (rule ccontr)
        assume "se_slug e \<noteq> slug"
        with slug hd1 x True show False by (cases t) auto
      qed
      ultimately show False using two by blast
    qed
  next
    case False
    then have "route_slug l t = ''fa'' # t" "take 1 t \<noteq> [''fa'']" by (auto simp: route_slug_def split: if_splits)
    then show ?thesis by (cases t) auto
  qed
qed

text \<open>The link to a document of the index is answered by a page, in every language, unless the address is
  one of the redirected ones.\<close>

lemma doc_href_shown:
  assumes ready: "site_ready st entries" and l: "l \<in> set site_langs" and single: "single_index entries"
    and nofa: "\<forall>e \<in> set entries. take 2 (se_slug e) \<noteq> [''fa'', ''fa'']"
    and e: "e \<in> set entries" and slug: "se_slug e = slug \<or> (l = Some ''fa'' \<and> se_slug e = ''fa'' # slug)"
    and legacy: "\<forall>g \<in> set legacyRedirects. docHref (page_base l) slug \<noteq> page_base l @ ''/docs/'' @ fst g"
  shows "shows_page st vs l (docHref (page_base l) slug)"
proof -
  let ?t = "shown_slug slug"
  have index: "shows_page st vs l (page_base l @ ''/docs'')" by (rule target_shown [OF ready l]) simp
  show ?thesis
  proof (cases "slug = [''index'']")
    case True
    with index show ?thesis by (simp add: docHref_def)
  next
    case no: False
    note h = docHref_shown [OF no, of "page_base l"]
    note facts = route_slug_facts [OF ready single nofa e slug refl _ no]
    have clean: "clean_slug ?t"
    proof (rule clean_with_index_parent [OF _ shown_slug_param])
      show "clean_slug slug" using docs_clean [OF ready_facts(3) [OF ready] e] slug by (auto simp: clean_slug_def)
    qed
    show ?thesis
    proof (cases "?t = []")
      case True
      have "\<forall>l \<in> set site_langs. route_of (segments (page_base l @ ''/docs/'')) = Some (RDocsIndex l)" by code_simp
      with l have r: "route_of (segments (docHref (page_base l) slug)) = Some (RDocsIndex l)" by (simp add: h True)
      from docs_index_content [OF ready r] show ?thesis .
    next
      case ne: False
      have r: "route_of (segments (docHref (page_base l) slug)) = Some (if ?t = [''all''] then RDocsAll l else RDoc l ?t)"
        unfolding h docs_segments [OF clean ne] by (rule docs_route [OF l ne])
      show ?thesis
      proof (cases "?t = [''all'']")
        case True
        with r docs_all_content [OF ready] show ?thesis by simp
      next
        case False
        have "\<exists>n. doc_outcome st l ?t = ShowPage n"
        proof (rule doc_shown [OF ready l facts(1) [OF ne] ne facts(2) [OF ne] _ facts(3) [OF ne]])
          show "tryLegacyRedirect (route_slug l ?t) = None"
          proof (rule ccontr)
            assume "tryLegacyRedirect (route_slug l ?t) \<noteq> None"
            then obtain x where x: "route_slug l ?t = [x]" "map_of legacyRedirects x \<noteq> None"
              by (auto simp: tryLegacyRedirect_def split: list.splits)
            then obtain g where g: "g \<in> set legacyRedirects" "x = fst g" by (auto dest: map_of_SomeD)
            have "l \<noteq> Some ''fa''"
            proof
              assume "l = Some ''fa''"
              with facts(4) [OF ne] x(1) have "x = ''fa''" by simp
              with x(2) show False by (simp add: legacyRedirects_def)
            qed
            then have "?t = [x]" using x(1) by (simp add: route_slug_def)
            then have "docHref (page_base l) slug = page_base l @ ''/docs/'' @ fst g" by (simp add: h g(2))
            with legacy g(1) show False by blast
          qed
        qed
        then obtain n where "doc_outcome st l ?t = ShowPage n" ..
        then obtain m where "with_docs st l (\<lambda>_. doc_outcome st l ?t) = ShowPage m"
          using with_docs_shown [OF ready, of "\<lambda>_. doc_outcome st l ?t"] by blast
        with r False show ?thesis by (intro serve_shows [of _ "RDoc l ?t"]) (simp_all add: content_of_def)
      qed
    qed
  qed
qed

section \<open>Lemmas: navigation and the list of all documents\<close>

lemma nav_index_SomeD:
  assumes "map_get (nav_index base entries) k = Some i"
  shows "\<exists>e \<in> set entries. k = slug_key (se_slug e) \<and> i = (se_title e, docHref base (se_slug e))"
proof -
  have "map_get (nav_index base entries) k =
      map_option (\<lambda>e. (se_title e, docHref base (se_slug e))) (find (\<lambda>e. slug_key (se_slug e) = k) (rev entries))"
    unfolding nav_index_def by (rule js_map.get_fold_last_empty)
  with assms obtain e where "find (\<lambda>e. slug_key (se_slug e) = k) (rev entries) = Some e"
    "i = (se_title e, docHref base (se_slug e))" by auto
  with find_SomeD [OF this(1)] show ?thesis by auto
qed

lemma nav_section_links: "i \<in> set (nav_section (nav_index base entries) slugs) \<Longrightarrow> \<exists>e \<in> set entries. snd i = docHref base (se_slug e)"
proof -
  assume "i \<in> set (nav_section (nav_index base entries) slugs)"
  then obtain k where "map_get (nav_index base entries) k = Some i"
    by (auto simp: nav_section_def pick_nav_def map_filter_def)
  with nav_index_SomeD show ?thesis by fastforce
qed

lemma shell_links:
  assumes "h \<in> set (hrefs (DocsShell base entries []))"
  shows "h = base @ ''/docs/all'' \<or> (\<exists>e \<in> set entries. h = docHref base (se_slug e))"
proof -
  have sec: "hrefs (docs_nav_section s) = map snd (snd s)" for s
  proof -
    have "all_hrefs (map (\<lambda>i. route_link (snd i) [Text (fst i)]) xs) = map snd xs" for xs :: "(string \<times> string) list"
      by (induction xs) simp_all
    then show ?thesis by (simp add: docs_nav_section_def)
  qed
  have "\<exists>slugs. snd s = nav_section (nav_index base entries) slugs" if "s \<in> set (docs_sections base entries)" for s
  proof -
    have pair: "\<exists>slugs. snd x = nav_section ix slugs" if "x = (t, nav_section ix slugs')" for x t ix slugs'
      using that by auto
    from that show ?thesis
      unfolding docs_sections_def Let_def set_filter mem_Collect_eq list.set insert_iff empty_iff
      by (elim conjE disjE FalseE) (erule pair)+
  qed
  moreover from assms have "h = base @ ''/docs/all'' \<or> (\<exists>s \<in> set (docs_sections base entries). h \<in> set (map snd (snd s)))"
    by (auto simp: DocsShell_def all_hrefs_map sec)
  ultimately show ?thesis using nav_section_links by fastforce
qed

text \<open>Grouping keeps every item once.\<close>

lemma map_set_items:
  assumes "map_ok m"
  shows "mset (concat (map snd (map_set k ((case map_get m k of None \<Rightarrow> [] | Some xs \<Rightarrow> xs) @ [i]) m))) =
    add_mset i (mset (concat (map snd m)))"
  using assms
proof (induction m)
  case Nil
  then show ?case by (simp add: map_set_def map_get_def)
next
  case (Cons a m)
  obtain c xs where a: "a = (c, xs)" by (cases a)
  with Cons show ?case by (auto simp: map_set_def map_get_def map_ok_def)
qed

lemma add_items:
  "map_ok m \<Longrightarrow> map_ok (fold add_item kis m) \<and>
     mset (concat (map snd (fold add_item kis m))) = mset (concat (map snd m)) + mset (map snd kis)"
proof (induction kis arbitrary: m)
  case Nil
  then show ?case by simp
next
  case (Cons ki kis)
  have "map_ok (add_item ki m)" using Cons.prems by (simp add: add_item_def map_set_ok)
  from Cons.IH [OF this] map_set_items [OF Cons.prems, of "fst ki" "snd ki"] show ?case by (simp add: add_item_def)
qed

lemma DocsAll_items:
  "mset (concat (map snd (DocsAll loc base entries))) = mset (map snd (List.map_filter (all_docs_item base) entries))"
proof -
  have sorted: "mset (concat (map (\<lambda>g. js_sort (cmp2 g) (snd g)) gs)) = mset (concat (map snd gs))" for cmp2 :: "_ \<Rightarrow> doc_item \<Rightarrow> doc_item \<Rightarrow> int"
    and gs :: "(string \<times> doc_item list) list" by (induction gs) simp_all
  have perm: "mset (concat (map snd xs)) = mset (concat (map snd ys))" if "mset xs = mset ys"
    for xs ys :: "(string \<times> doc_item list) list"
  proof -
    have "mset (concat (map snd zs)) = sum_mset (image_mset (\<lambda>g. mset (snd g)) (mset zs))" for zs :: "(string \<times> doc_item list) list"
      by (induction zs) simp_all
    then show ?thesis using that by simp
  qed
  have "mset (concat (map snd (DocsAll loc base entries))) =
      mset (concat (map snd (fold add_item (List.map_filter (all_docs_item base) entries) [])))"
    unfolding DocsAll_def by (simp add: comp_def sorted) (rule perm, simp)
  then show ?thesis using add_items [of "[]"] by simp
qed

lemma all_docs_links:
  assumes "h \<in> set (hrefs (DocsAllView cp loc entries l))"
  shows "h = page_base l @ ''/docs'' \<or> (\<exists>e \<in> set entries. \<exists>k i. all_docs_item (page_base l) e = Some (k, i) \<and> h = di_href i)"
proof -
  have g: "hrefs (docs_group g) = filter (\<lambda>h. h \<noteq> []) (map di_href (snd g))" for g
  proof -
    have "all_hrefs (map (\<lambda>i. InfoCard (di_title i) [sp [Text (join ''/'' (di_slug i))]] (di_href i) [] False []) xs) =
        filter (\<lambda>h. h \<noteq> []) (map di_href xs)" for xs by (induction xs) simp_all
    then show ?thesis by (simp add: docs_group_def)
  qed
  from assms have "h = page_base l @ ''/docs'' \<or>
      (\<exists>i \<in> set (concat (map snd (DocsAll loc (page_base l) entries))). h = di_href i)"
    by (auto simp: DocsAllView_def Let_def all_hrefs_map g)
  moreover have "set (concat (map snd (DocsAll loc (page_base l) entries))) =
      set (map snd (List.map_filter (all_docs_item (page_base l)) entries))"
    using arg_cong [OF DocsAll_items, of set_mset] by simp
  ultimately show ?thesis by (force simp: map_filter_def)
qed

section \<open>Old addresses\<close>

text \<open>The slugs that the redirects lead to.\<close>

definition legacy_slugs :: "(string \<times> string list) list" where
  "legacy_slugs =
     [(''install-linux'', [''user'', ''install-linux'']), (''install-android'', [''user'', ''install-android'']),
      (''install-ios'', [''install'']), (''install-raspberrypi'', [''user'', ''install-linux'']),
      (''mobile'', [''android'', ''architecture'']), (''security'', [''user'', ''safety'']),
      (''verification'', [''outside'', ''verification''])]"

lemma legacy_table:
  "\<forall>g \<in> set legacyRedirects. fst g = ''signal'' \<or> (\<exists>k. (fst g, k) \<in> set legacy_slugs \<and> snd g = ''/docs/'' @ slug_key k)"
  "\<forall>g \<in> set legacyRedirects. map_of legacyRedirects (fst g) = Some (snd g) \<and>
     (\<forall>l \<in> {None, Some ''en''}. route_of (segments (page_base l @ ''/docs/'' @ fst g)) = Some (RDoc l [fst g]))"
  "\<forall>k \<in> snd ` set legacy_slugs. \<forall>l \<in> {None, Some ''en''}.
     route_of (segments (page_base l @ ''/docs/'' @ slug_key k)) = Some (RDoc l k) \<and> k \<noteq> [] \<and> route_slug l k = k \<and>
     k \<noteq> [''index''] \<and> tryLegacyRedirect k = None \<and> take 2 k \<noteq> [''fa'', ''fa'']"
proof -
  show "\<forall>g \<in> set legacyRedirects. fst g = ''signal'' \<or> (\<exists>k. (fst g, k) \<in> set legacy_slugs \<and> snd g = ''/docs/'' @ slug_key k)"
    by (simp add: legacyRedirects_def legacy_slugs_def slug_key_def)
  show "\<forall>g \<in> set legacyRedirects. map_of legacyRedirects (fst g) = Some (snd g) \<and>
     (\<forall>l \<in> {None, Some ''en''}. route_of (segments (page_base l @ ''/docs/'' @ fst g)) = Some (RDoc l [fst g]))"
    by code_simp
  show "\<forall>k \<in> snd ` set legacy_slugs. \<forall>l \<in> {None, Some ''en''}.
     route_of (segments (page_base l @ ''/docs/'' @ slug_key k)) = Some (RDoc l k) \<and> k \<noteq> [] \<and> route_slug l k = k \<and>
     k \<noteq> [''index''] \<and> tryLegacyRedirect k = None \<and> take 2 k \<noteq> [''fa'', ''fa'']"
    by code_simp
qed

lemma legacy_redirected:
  assumes "site_ready st entries" and "l \<in> {None, Some ''en''}" and "g \<in> set legacyRedirects"
  shows "content_of st vs path (RDoc l [fst g]) = (l, GoTo (page_base l @ snd g))"
proof -
  have l: "l \<in> set site_langs" using assms(2) by (auto simp: site_langs_def)
  have "route_slug l [fst g] = [fst g]" using assms(2) by (auto simp: route_slug_def)
  moreover have "map_of legacyRedirects (fst g) = Some (snd g)" using legacy_table(2) assms(3) by blast
  ultimately have "doc_outcome st l [fst g] = GoTo (page_base l @ snd g)"
    by (simp add: doc_outcome_def docPageAt_def DocPage_def tryLegacyRedirect_def route_prefix_base [OF l] page_outcome_def Let_def)
  then show ?thesis by (simp add: content_of_def with_docs_def ready_facts [OF assms(1)] wrapped_def)
qed

text \<open>The address of \<open>signal\<close> answers with a redirect to itself for ever, although it has a document.\<close>

lemma signal_redirects_to_itself:
  assumes "site_docs st = Some entries"
  shows "follow_path st vs n ''/docs/signal'' = GoTo ''/docs/signal''"
proof -
  have r: "route_of (segments ''/docs/signal'') = Some (RDoc None [''signal''])" by code_simp
  have "serve st vs ''/docs/signal'' = GoTo ''/docs/signal''"
    by (simp add: serve_def r content_of_def with_docs_def assms doc_outcome_def docPageAt_def DocPage_def route_slug_def
        route_prefix_def resolved_base_def tryLegacyRedirect_def legacyRedirects_def page_outcome_def wrapped_def Let_def)
  then show ?thesis by (induction n) simp_all
qed

text \<open>In Persian no old address is redirected: the route puts the segment \<open>fa\<close> before the slug.\<close>

lemma farsi_never_redirected: "slug \<noteq> [] \<Longrightarrow> tryLegacyRedirect (route_slug (Some ''fa'') slug) = None"
  by (cases slug rule: list.exhaust; cases "tl slug") (auto simp: route_slug_def tryLegacyRedirect_def legacyRedirects_def)

text \<open>The dashboard exists without a language only.\<close>

lemma no_dashboard_under_language:
  "route_of (segments ''/en/dashboard'') = None" "route_of (segments ''/fa/dashboard/runtime'') = None"
  by code_simp+

text \<open>A directory without an index makes a dead breadcrumb: in \<open>docs\<close> there is none for \<open>user\<close>,
  and the page of \<open>user/safety\<close> links it.\<close>

lemma breadcrumb_dead_link:
  assumes "fs_ok (st_fs st)" and "site_docs st = Some entries"
    and "\<forall>e \<in> set entries. slug_key (se_slug e) \<notin> {''user'', ''user/index''}"
  shows "(''/docs/user'', ''user'') \<in> set (crumbs cp [] [''user'', ''safety''])" and "serve st vs ''/docs/user'' = NoPage"
proof -
  show "(''/docs/user'', ''user'') \<in> set (crumbs cp [] [''user'', ''safety''])" by (simp add: crumbs_def)
  have ix: "getDocsIndex (st_loc st) (st_fs st) (st_cwd st) = Some entries" using assms(2) by (simp add: site_docs_def)
  have "readDocMarkdownBySlug (st_loc st) (st_fs st) (st_cwd st) s = Some None" if "slug_key s \<in> {''user'', ''user/index''}" for s
    using doc_read [OF assms(1) ix, of s] assms(3) that by fastforce
  from this [of "[''user'']"] this [of "[''user'', ''index'']"]
  have "read_with_index (readDocMarkdownBySlug (st_loc st) (st_fs st) (st_cwd st)) [''user''] = Some None"
    by (simp add: read_with_index_def tryIndexFallback_def ends_index_def slug_key_def)
  then have "doc_outcome st None [''user''] = NoPage"
    by (simp add: doc_outcome_def docPageAt_def DocPage_def route_slug_def route_prefix_def resolved_base_def normalizeSlug_def
        tryLegacyRedirect_def legacyRedirects_def page_outcome_def Let_def)
  moreover have "route_of (segments ''/docs/user'') = Some (RDoc None [''user''])" by code_simp
  ultimately show "serve st vs ''/docs/user'' = NoPage"
    by (simp add: serve_def content_of_def with_docs_def assms(2) wrapped_def)
qed

section \<open>Properties\<close>



text \<open>C35: the list of all documents is complete: it has each document of the language, other than the index of the
  documentation, exactly once, under its address.\<close>

theorem docs_all_complete:
  "mset (map di_href (concat (map snd (DocsAll loc base entries)))) =
     mset (map (\<lambda>e. docHref base (if base = ''/fa'' then drop 1 (se_slug e) else se_slug e))
       (filter (\<lambda>e. se_slug e \<noteq> [''index''] \<and> (base = ''/fa'' \<longleftrightarrow> take 1 (se_slug e) = [''fa''])) entries))"
proof -
  have "mset (map di_href (concat (map snd (DocsAll loc base entries)))) =
      mset (map (di_href \<circ> snd) (List.map_filter (all_docs_item base) entries))"
    using arg_cong [OF DocsAll_items, of "image_mset di_href"] by (simp add: multiset.map_comp)
  also have "map (di_href \<circ> snd) (List.map_filter (all_docs_item base) entries) =
      map (\<lambda>e. docHref base (if base = ''/fa'' then drop 1 (se_slug e) else se_slug e))
       (filter (\<lambda>e. se_slug e \<noteq> [''index''] \<and> (base = ''/fa'' \<longleftrightarrow> take 1 (se_slug e) = [''fa''])) entries)"
    by (induction entries) (auto simp: map_filter_def all_docs_item_def Let_def)
  finally show ?thesis .
qed



end
