(* ===== verification/Post_Links.thy ===== *)
theory Post_Links
  imports Docs_Links
begin

text \<open>
  The links of the blog and of the updates, followed: every post that an index page lists has a page
  (\<open>app/blog\<close>, \<open>app/updates\<close> and the routes of \<open>app/[lang]\<close> that show them), as
  \<open>Site_Links\<close> shows of the fixed pages and \<open>Docs_Links\<close> of the documentation.
\<close>

section \<open>Lemmas: posts\<close>

text \<open>Both kinds of posts can be read in both languages, none with a line that the renderer is stuck on.\<close>

definition posts_ready :: "site \<Rightarrow> bool" where
  "posts_ready st \<longleftrightarrow>
     fs_ok (st_fs st) \<and>
     (\<forall>t \<in> {CBlog, CUpdates}. \<forall>l \<in> {En, Fa}.
        case getContentIndex (st_loc st) (st_fs st) (st_cwd st) t l of
          None \<Rightarrow> False
        | Some posts \<Rightarrow> \<forall>e \<in> set posts.
            case fs_read (fs_path (st_fs st) (se_path e)) of
              None \<Rightarrow> True | Some raw \<Rightarrow> (\<forall>l \<in> set (split_lines raw). \<not> stuck_line l))"

lemma posts_ready_index:
  assumes "posts_ready st" and "t = CBlog \<or> t = CUpdates"
  obtains posts where "getContentIndex (st_loc st) (st_fs st) (st_cwd st) t l = Some posts"
    "\<And>e raw x. e \<in> set posts \<Longrightarrow> fs_read (fs_path (st_fs st) (se_path e)) = Some raw \<Longrightarrow> x \<in> set (split_lines raw) \<Longrightarrow>
       \<not> stuck_line x"
proof -
  have "l \<in> {En, Fa}" by (cases l) simp_all
  moreover have "t \<in> {CBlog, CUpdates}" using assms(2) by blast
  ultimately have "case getContentIndex (st_loc st) (st_fs st) (st_cwd st) t l of
      None \<Rightarrow> False
    | Some posts \<Rightarrow> \<forall>e \<in> set posts.
        case fs_read (fs_path (st_fs st) (se_path e)) of
          None \<Rightarrow> True | Some raw \<Rightarrow> (\<forall>l \<in> set (split_lines raw). \<not> stuck_line l)"
    using assms(1) unfolding posts_ready_def by blast
  with that show ?thesis by (force split: option.splits)
qed

lemma content_clean:
  assumes "getContentIndex loc fs cwd t l = Some posts" and "e \<in> set posts"
  shows "clean_slug (se_slug e)"
proof -
  from assms(1) obtain es where es: "fs_readdir (fs_path fs (content_base fs cwd t l)) = Some es"
    by (auto simp: getContentIndex_def walk_tree_def split: option.splits)
  from getContentIndex_visible [OF es assms(1)] assms(2) have "\<exists>p. se_slug e = slug_of p" by blast
  with slug_of_clean show ?thesis by metis
qed

lemma post_read:
  assumes "fs_ok fs" and "getContentIndex loc fs cwd t l = Some posts" and "e \<in> set posts"
  shows "\<exists>d raw. readContentMarkdownBySlug loc fs cwd t l (se_slug e) = Some (Some (d, raw)) \<and> d \<in> set posts \<and>
    fs_read (fs_path fs (se_path d)) = Some raw"
proof -
  have "find_slug (se_slug e) posts \<noteq> None" using assms(3) by (auto simp: find_slug_None)
  then obtain d where d: "find_slug (se_slug e) posts = Some d" by blast
  then have "d \<in> set posts" using find_slug_Some by blast
  from assms(2) obtain ws where ws: "walk_tree fs (content_base fs cwd t l) = Some ws"
    "se_path ` set posts = se_path ` set ws"
    by (auto simp: getContentIndex_def image_image)
  from ws(2) \<open>d \<in> set posts\<close> obtain w where "w \<in> set ws" "se_path d = se_path w" by blast
  with walk_tree_read [OF assms(1) ws(1)] obtain raw where "fs_read (fs_path fs (se_path d)) = Some raw" by metis
  with d assms(2) \<open>d \<in> set posts\<close> show ?thesis by (simp add: readContentMarkdownBySlug_def getContentBySlug_def)
qed

definition post_lang :: "string option \<Rightarrow> lang" where
  "post_lang l = (if l = Some ''fa'' then Fa else En)"

lemma post_shown:
  assumes ready: "posts_ready st" and l: "l \<in> set site_langs" and t: "t = CBlog \<or> t = CUpdates"
    and posts: "site_posts st t l = Some posts" and e: "e \<in> set posts"
  shows "\<exists>n. post_view st t name l (se_slug e)
    (PostPage (readContentMarkdownBySlug (st_loc st) (st_fs st) (st_cwd st) t) route (route_prefix l) (se_slug e)) = ShowPage n"
proof -
  let ?rd = "readContentMarkdownBySlug (st_loc st) (st_fs st) (st_cwd st) t"
  have ix: "getContentIndex (st_loc st) (st_fs st) (st_cwd st) t (post_lang l) = Some posts"
    using posts by (simp add: site_posts_def post_lang_def split: if_splits)
  have base: "resolved_base (route_prefix l) = page_base l" "page_base l = ''/fa'' \<longleftrightarrow> l = Some ''fa''"
    using route_prefix_base [OF l] l by (auto simp: page_base_def)
  have ok: "fs_ok (st_fs st)" using ready by (simp add: posts_ready_def)
  from post_read [OF ok ix e] obtain d raw where d: "?rd (post_lang l) (se_slug e) = Some (Some (d, raw))" "d \<in> set posts"
    "fs_read (fs_path (st_fs st) (se_path d)) = Some raw" by blast
  obtain posts2 where p2: "getContentIndex (st_loc st) (st_fs st) (st_cwd st) t (post_lang l) = Some posts2"
    "\<And>e raw x. e \<in> set posts2 \<Longrightarrow> fs_read (fs_path (st_fs st) (se_path e)) = Some raw \<Longrightarrow> x \<in> set (split_lines raw) \<Longrightarrow>
       \<not> stuck_line x"
    using posts_ready_index [OF ready t] by metis
  with ix d(2,3) have "\<forall>x \<in> set (split_lines raw). \<not> stuck_line x" by simp
  with renderMarkdown_hangs have ends: "renderMarkdown o1 raw \<noteq> None" for o1 by blast
  have "\<exists>nodes toc. render_answer d False (renderMarkdown o1 raw) = Shown d False nodes toc" for o1
    using ends [of o1] by (auto simp: render_answer_def)
  then have "\<exists>nodes toc. PostPage ?rd route (route_prefix l) (se_slug e) = Shown d False nodes toc"
    using d(1) by (simp add: PostPage_def base post_lang_def Let_def split: if_splits)
  then show ?thesis by (auto simp: post_view_def page_outcome_def)
qed

text \<open>The route of a post, for the two routes at once.\<close>

definition post_route :: "content_type \<Rightarrow> string option \<Rightarrow> string list \<Rightarrow> site_route" where
  "post_route t l slug =
     (if t = CBlog then if slug = [] then RBlog l else RBlogPost l slug
      else if slug = [] then RUpdates l else RUpdatesPost l slug)"

lemma post_route_of:
  assumes "l \<in> set site_langs" and t: "t = CBlog \<or> t = CUpdates"
  shows "route_of (base_segments l @ type_dir t # slug) = Some (post_route t l slug)"
proof -
  have a: "route_of (type_dir t # slug) = Some (post_route t None slug)"
    using t by (auto simp: route_of_def top_route_def shared_route_def post_route_def type_dir_def dashboard_views_def)
  have b: "route_of (x # type_dir t # slug) = Some (post_route t (Some x) slug)" if "x \<in> {''en'', ''fa''}" for x
  proof -
    have "x \<noteq> ''docs''" "x \<noteq> ''blog''" "x \<noteq> ''updates''" "x \<noteq> ''dashboard''" using that by auto
    then show ?thesis
      using t by (auto simp: route_of_def top_route_def lang_route_def shared_route_def post_route_def type_dir_def all_pages_def
          page_segment_def)
  qed
  show ?thesis
  proof (cases "l = None")
    case True
    with a show ?thesis by (simp add: base_segments_def)
  next
    case False
    then obtain x where "x \<in> {''en'', ''fa''}" "l = Some x" using page_base_cases [OF assms(1)] by blast
    moreover from this have "base_segments l = [x]" by (auto simp: base_segments_def)
    ultimately show ?thesis using b by simp
  qed
qed

lemma posts_index_shown:
  assumes "posts_ready st" and "l \<in> set site_langs" and t: "t = CBlog \<or> t = CUpdates"
    and "route_of (segments path) = Some (post_route t l [])"
  shows "shows_page st vs l path"
proof -
  obtain posts where "getContentIndex (st_loc st) (st_fs st) (st_cwd st) t (post_lang l) = Some posts"
    using posts_ready_index [OF assms(1) t] by metis
  then have "site_posts st t l = Some posts" by (simp add: site_posts_def post_lang_def)
  with t have "\<exists>n. content_of st vs path (post_route t l []) = (l, ShowPage n)"
    by (auto simp: content_of_def post_route_def with_posts_def)
  with serve_shows [OF assms(4)] show ?thesis by blast
qed

lemma post_address_shown:
  assumes ready: "posts_ready st" and l: "l \<in> set site_langs" and t: "t = CBlog \<or> t = CUpdates"
    and posts: "site_posts st t l = Some posts" and e: "e \<in> set posts"
  shows "shows_page st vs l (page_base l @ ''/'' @ type_dir t @ ''/'' @ join ''/'' (se_slug e))"
proof -
  let ?path = "page_base l @ ''/'' @ type_dir t @ ''/'' @ join ''/'' (se_slug e)"
  have ix: "getContentIndex (st_loc st) (st_fs st) (st_cwd st) t (post_lang l) = Some posts"
    using posts by (simp add: site_posts_def post_lang_def split: if_splits)
  have dir: "type_dir t \<noteq> []" "CHR ''/'' \<notin> set (type_dir t)" using t by (auto simp: type_dir_def)
  have clean: "clean_slug (base_segments l @ type_dir t # se_slug e)"
    using content_clean [OF ix e] dir clean_base [of l] by (simp add: clean_slug_append)
  have seg: "segments ?path = base_segments l @ type_dir t # se_slug e"
  proof (cases "se_slug e = []")
    case True
    have "segments (page_base l @ ''/'' @ join ''/'' [type_dir t]) = base_segments l @ [type_dir t]"
      unfolding base_path [OF list.simps(3)] using clean True by (intro segments_join) auto
    then show ?thesis using True segments_slash [of "page_base l @ ''/'' @ type_dir t"] by simp
  next
    case False
    then have "?path = page_base l @ ''/'' @ join ''/'' (type_dir t # se_slug e)" by (simp add: join_Cons)
    have "segments (page_base l @ ''/'' @ join ''/'' (type_dir t # se_slug e)) = base_segments l @ type_dir t # se_slug e"
      unfolding base_path [OF list.simps(3)] using clean by (intro segments_join) auto
    with \<open>?path = _\<close> show ?thesis by simp
  qed
  have r: "route_of (segments ?path) = Some (post_route t l (se_slug e))"
    unfolding seg by (rule post_route_of [OF l t])
  show ?thesis
  proof (cases "se_slug e = []")
    case True
    with r posts_index_shown [OF ready l t] show ?thesis by simp
  next
    case False
    have "\<exists>n. content_of st vs ?path (post_route t l (se_slug e)) = (l, ShowPage n)"
      using t post_shown [OF ready l t posts e] False
      by (auto simp: content_of_def post_route_def blog_outcome_def update_outcome_def blogPageAt_def updatePageAt_def)
    with serve_shows [OF r] show ?thesis by blast
  qed
qed

section \<open>Property\<close>



end
