(* ===== verification/Spec2Isabelle.thy ===== *)
theory Spec2Isabelle
  imports Privacy_Filter Dashboard_Format Snapshot_Fetch Runtime_Proxy Runtime_Events Live_Dashboard
    Network_Map Dashboard_Pages Demo_Snapshot Markdown_Blocks Releases Downloads Site_Tree Doc_Pages
    Site_Locale Download_View Site_Pages Site_Frame Doc_Views Site_Routes Site_Links Docs_Links Post_Links
begin

text \<open>
  A model of the website of the repository (\<open>src/website\<close>): the public dashboard with its
  privacy filter, the local runtime dashboard with its proxy, the markdown renderer, the release
  downloads, the content and documentation trees, the language and theme logic, the pages with what
  they show, and the site as a whole: which page answers a path, and where its links lead.

  How the program works. A page of the dashboard keeps a feed alive (a poll timer or an event
  stream), validates every snapshot shallowly and shows it through the privacy filter; the map and
  the cards render the filtered snapshot only. The runtime dashboard reads state and events of the
  local runtime through four proxy routes of the site and merges the event stream into a timeline.
  Documents are found by walking a directory tree at build time, listed as static parameters,
  looked up by slug on request and rendered to blocks with a table of contents. The download page
  scans a directory of releases and recommends an artifact for the detected platform. Most pages exist
  three times, without a language and below \<open>/en\<close> and \<open>/fa\<close>; header, footer and pages
  build their links from the language of the path.

  Theories and sources (under \<open>src/website/src\<close>).
  \<^item> \<open>Js_Prelude\<close>, \<open>Web_Platform\<close>, \<open>Site_Files\<close>: the parts of the language and the
    platform that the source uses: strings, \<open>Map\<close> as an association list in insertion order, the
    stable \<open>sort\<close> with a comparator, JSON values, URLs, responses, and the file system as a tree.
    The locales are \<open>keyed_store\<close> for the map and the query of a URL, \<open>js_comparator\<close> for what a
    sort needs of its comparator (interpreted on descending numbers, tags and releases) and, in
    \<open>Privacy_Filter\<close>, \<open>quantiser\<close> for the three roundings.
  \<^item> \<open>Dashboard_Types\<close>, \<open>Privacy_Filter\<close>, \<open>Dashboard_Format\<close>, \<open>Snapshot_Fetch\<close>,
    \<open>Demo_Snapshot\<close>: \<open>lib/dashboard/*\<close> and the formatting and summary logic of
    \<open>components/dashboard\<close>.
  \<^item> \<open>Runtime_Proxy\<close>, \<open>Runtime_Events\<close>: \<open>app/api/proxy/*\<close>, \<open>lib/runtime-client.ts\<close>,
    \<open>RuntimeDashboard.tsx\<close>, \<open>EventTimeline.tsx\<close>, \<open>DebugPanel.tsx\<close>.
  \<^item> \<open>Live_Dashboard\<close>, \<open>Dashboard_Views\<close>, \<open>Network_Map\<close>, \<open>Dashboard_Pages\<close>:
    \<open>LiveDashboard.tsx\<close>, the cards, the map, and the pages built from them as trees of nodes.
  \<^item> \<open>Markdown_Inline\<close>, \<open>Markdown_Blocks\<close>: \<open>lib/docs/markdown.tsx\<close>.
  \<^item> \<open>Releases\<close>, \<open>Downloads\<close>: \<open>lib/releases/local.ts\<close>, \<open>useOsDetection.ts\<close>,
    \<open>DownloadSection.tsx\<close>; \<open>Calendar\<close>, \<open>Copy_Buttons\<close>, \<open>Download_View\<close>: the dates of
    that section, its copy buttons and those of \<open>DonationQRCard.tsx\<close> (locale \<open>flash_message\<close>,
    interpreted on both), all it shows, \<open>app/download/page.tsx\<close> and \<open>app/installation/page.tsx\<close>.
  \<^item> \<open>Site_Tree\<close>, \<open>Doc_Pages\<close>: \<open>lib/content/fs.ts\<close>, \<open>lib/docs/fs.ts\<close>,
    \<open>scripts/content-check.mjs\<close>, the routes under \<open>app/docs\<close>, \<open>app/[lang]/docs\<close>,
    \<open>app/blog\<close>, \<open>app/updates\<close>; \<open>Doc_Views\<close>: what these pages, their layouts and the blocks
    of a document show.
  \<^item> \<open>Site_Locale\<close>: \<open>lib/uiCopy.ts\<close>, \<open>LocalizedLink.tsx\<close>, the addresses of
    \<open>SiteHeader.tsx\<close>, \<open>ThemeToggle.tsx\<close>, \<open>ThemeInitScript.tsx\<close>.
  \<^item> \<open>Elements\<close>, \<open>Ui_Parts\<close>: elements, their links, files to save and anchors;
    \<open>components/ui/*\<close>. \<open>Site_Pages\<close>: the pages without state, \<open>config/support.ts\<close>, the
    choice of a language at the root. \<open>Site_Frame\<close>: header, \<open>SiteFooter.tsx\<close>, the layouts.
  \<^item> \<open>Site_Routes\<close>: the page files of \<open>app\<close> as routes, what a request for a path is
    answered (\<open>serve\<close>) and redirects followed (\<open>follow_path\<close>); \<open>Site_Links\<close>,
    \<open>Docs_Links\<close>, \<open>Post_Links\<close>: the links of the pages, followed.

  State and steps. The two dashboards are records of their React state and refs together with what
  is outstanding at the browser (requests, timers, streams). \<open>live_handle\<close> and \<open>rt_handle\<close> are the
  callbacks; \<open>live_step\<close> and \<open>rt_step\<close> are the steps that are possible in a state, any order of
  answers, ticks, stream messages and clicks; \<open>live_reach\<close> and \<open>rt_reach\<close> are the reachable
  states. A step of the live dashboard ends with \<open>settle\<close>, which runs the effect when its
  dependencies changed; two commits suffice, because the effect clears the snapshot and so brings
  the threshold back to its default (\<open>effect_settles\<close>).

  What the lemmas show. Privacy: the filter is idempotent, blanks every region below the threshold,
  does not depend on what it hides, and neither does the page. Dashboards: at most one feed is
  alive and the refs own it; the timeline is ordered, bounded and without repetition; the page says
  secure only after an answer that says connected. Markdown: tokens rebuild their text, anchors are
  well formed and, with a proviso, different, the table of contents is exact, rendering
  returns exactly when no line outside the code fences is a heading mark without text. Releases: complete, newest first, and what is
  published is recommended. Trees and routes: pages are served exactly for the visible documents,
  every generated address is answered, the parity check implies equal trees. Downloads: every file offered
  is there, the date printed is the day of the release, the controls and the footer show the release
  they stand for. Links: on a site whose documents and posts can be read and that has the seven
  documents which pages name (\<open>site_ready\<close>, \<open>posts_ready\<close>), every link of the fixed pages,
  the frame, the navigation, the list of all documents and the post lists is answered by a page, but for
  the exceptions that the statements name and the lemmas beside them explain (the dashboard under a
  language, redirected old addresses, breadcrumbs).

  Bounds. The markdown loop is a partial function, \<open>None\<close> meaning that it does not return, and its
  termination is a theorem; \<open>replaceAll\<close> runs with the length of the text as fuel, each round
  consuming a character of it; root searches climb the eight and ten levels of the source.

  Parameters. \<open>localeCompare\<close>, \<open>toLocaleString\<close>, number printing, \<open>JSON.parse\<close> and
  \<open>JSON.stringify\<close>, the URL parser, the sine, the network, the clock, the atlas of the map and the
  translated texts (\<open>site_copy\<close>) are arguments; hypotheses on them are in the statements. Doubles are
  reals and integers, characters are bytes, and times of files are integers. The router of Next.js is the
  documented one: fixed segments before \<open>[lang]\<close> and that before \<open>[...slug]\<close>, empty segments ignored.

  Not modelled: class names that do not depend on the state, fonts and metadata, the components of the
  libraries (the map, the QR code, the optimised image), the translation files, the configuration of the
  build with its static export, the end-to-end tests, and the Go and Android programs of the repository.
\<close>

section \<open>Properties that span components\<close>

text \<open>C19: the download section opens on the newest release: if the version directories have version
  numbers for names and there is one, the release selected before the visitor does anything is
  among those the site found, and no version directory has a higher number.\<close>

theorem default_release_newest:
  assumes "fs_ok cwd" and "fs_path cwd [''public'', ''downloads''] = Some downloads"
    and "fs_readdir (Some downloads) = Some entries"
    and "\<forall>e \<in> set entries. is_version_dir e \<longrightarrow> parseSemver (fst e) \<noteq> None"
    and "\<exists>e \<in> set entries. is_version_dir e"
  shows "\<exists>r. selectedRelease (getLocalReleases loc cwd) (download_init (getLocalReleases loc cwd) nav) = Some r \<and>
    r \<in> set (getLocalReleases loc cwd) \<and>
    (\<forall>e \<in> set entries. is_version_dir e \<longrightarrow> the (parseSemver (fst e)) \<le> the (parseSemver (lr_tag r)))"
proof -
  let ?rs = "getLocalReleases loc cwd"
  note sorted = local_releases_sorted [OF assms(1-4), of loc]
  have m: "set (map lr_tag ?rs) = fst ` {e \<in> set entries. is_version_dir e}"
    using mset_eq_setD [OF conjunct1 [OF sorted]] by simp
  have s: "sorted_wrt (\<lambda>a b. the (parseSemver (lr_tag b)) \<le> the (parseSemver (lr_tag a))) ?rs"
    using sorted by blast
  from m assms(5) obtain r rs where rs: "?rs = r # rs" by (cases ?rs) auto
  then have sel: "selectedRelease ?rs (download_init ?rs nav) = Some r"
    by (simp add: selectedRelease_def download_init_def)
  have "the (parseSemver (fst e)) \<le> the (parseSemver (lr_tag r))" if "e \<in> set entries" "is_version_dir e" for e
  proof -
    from that m have "fst e \<in> lr_tag ` set ?rs" by auto
    with s rs show ?thesis by auto
  qed
  with sel rs show ?thesis by auto
qed

theorem default_release_newest_witness:
  "\<exists>r. selectedRelease (getLocalReleases (\<lambda>_ _. 0) (Dir [(''public'', Dir [(''downloads'', Dir sample_downloads)])]))
      (download_init (getLocalReleases (\<lambda>_ _. 0) (Dir [(''public'', Dir [(''downloads'', Dir sample_downloads)])])) None) =
      Some r \<and> Semver 1 10 0 \<le> the (parseSemver (lr_tag r))"
proof -
  let ?cwd = "Dir [(''public'', Dir [(''downloads'', Dir sample_downloads)])]"
  have h: "fs_ok ?cwd" "fs_path ?cwd [''public'', ''downloads''] = Some (Dir sample_downloads)"
    "fs_readdir (Some (Dir sample_downloads)) = Some sample_downloads"
    "\<forall>e \<in> set sample_downloads. is_version_dir e \<longrightarrow> parseSemver (fst e) \<noteq> None"
    "\<exists>e \<in> set sample_downloads. is_version_dir e" by code_simp+
  have v: "(''v1.10.0'', Dir []) \<in> set sample_downloads" "is_version_dir (''v1.10.0'', Dir [])"
    "parseSemver ''v1.10.0'' = Some (Semver 1 10 0)" by code_simp+
  from default_release_newest [OF h, of "\<lambda>_ _. 0" None] v show ?thesis by fastforce
qed

end
